theory Spec2Isabelle
  imports Complex_Main "HOL-Library.Sublist"
begin

section \<open>Browser storage\<close>

text \<open>
  \<^verbatim>\<open>localStorage\<close> as the two modules use it: a store of strings under string keys whose
  every access may throw (private browsing, disabled storage).  The type of the stored
  texts is a parameter: \<^verbatim>\<open>preferences.ts\<close> looks at the characters of a text,
  \<^verbatim>\<open>recent-files.ts\<close> only at what \<^verbatim>\<open>JSON.parse\<close> makes of it.
\<close>

datatype exn = SecurityError | SyntaxError

datatype 'v localStorage = Unavailable | Available "string \<Rightarrow> 'v option"

definition getItem :: "'v localStorage \<Rightarrow> string \<Rightarrow> exn + 'v option" where
  "getItem st k = (case st of Unavailable \<Rightarrow> Inl SecurityError | Available m \<Rightarrow> Inr (m k))"

definition setItem :: "'v localStorage \<Rightarrow> string \<Rightarrow> 'v \<Rightarrow> exn + 'v localStorage" where
  "setItem st k v =
     (case st of Unavailable \<Rightarrow> Inl SecurityError | Available m \<Rightarrow> Inr (Available (m(k \<mapsto> v))))"

section \<open>recent-files.ts\<close>

record RecentItem =
  it_name :: string
  it_size :: int
  it_lastOpened :: int
  it_content :: "string option"

definition RECENT_KEY :: string where
  "RECENT_KEY = ''lottie-converter-recent-files''"

definition MAX_ITEMS :: nat where
  "MAX_ITEMS = 20"

definition MAX_INLINE_BYTES :: nat where
  "MAX_INLINE_BYTES = 300000"

text \<open>
  The value \<^verbatim>\<open>JSON.parse\<close> returns, as \<^verbatim>\<open>getRecentFiles\<close> sees it: through
  \<^verbatim>\<open>Array.isArray\<close> and the cast \<^verbatim>\<open>as RecentItem[]\<close>.  A text held in the store is
  represented by its reading: the empty string (falsy, so replaced by the literal
  \<^verbatim>\<open>"[]"\<close>), a text on which \<^verbatim>\<open>JSON.parse\<close> throws, or a text that encodes a value.
  \<^verbatim>\<open>JSON.stringify\<close> of an item list is the text that encodes that array.
\<close>

datatype recent_json = JArray "RecentItem list" | JNotArray

datatype recent_text = EmptyString | Malformed | Encodes recent_json

fun JSON_parse :: "recent_text \<Rightarrow> exn + recent_json" where
  "JSON_parse EmptyString = Inl SyntaxError"
| "JSON_parse Malformed = Inl SyntaxError"
| "JSON_parse (Encodes j) = Inr j"

definition JSON_stringify :: "RecentItem list \<Rightarrow> recent_text" where
  "JSON_stringify items = Encodes (JArray items)"

text \<open>\<^verbatim>\<open>localStorage.getItem(RECENT_KEY) || "[]"\<close>: null and the empty string are falsy.\<close>

definition raw_or_empty_array :: "recent_text option \<Rightarrow> recent_text" where
  "raw_or_empty_array got =
     (case got of None \<Rightarrow> Encodes (JArray [])
      | Some EmptyString \<Rightarrow> Encodes (JArray [])
      | Some t \<Rightarrow> t)"

text \<open>The body of the \<^verbatim>\<open>try\<close> block of \<^verbatim>\<open>getRecentFiles\<close>, with its throws as \<open>Inl\<close>.\<close>

definition getRecentFiles_try :: "recent_text localStorage \<Rightarrow> exn + RecentItem list" where
  "getRecentFiles_try st =
     (case getItem st RECENT_KEY of
        Inl e \<Rightarrow> Inl e
      | Inr got \<Rightarrow>
          (case JSON_parse (raw_or_empty_array got) of
             Inl e \<Rightarrow> Inl e
           | Inr parsed \<Rightarrow>
               (case parsed of JArray items \<Rightarrow> Inr items | JNotArray \<Rightarrow> Inr [])))"

definition getRecentFiles :: "recent_text localStorage \<Rightarrow> RecentItem list" where
  "getRecentFiles st = (case getRecentFiles_try st of Inl e \<Rightarrow> [] | Inr items \<Rightarrow> items)"

text \<open>
  \<^verbatim>\<open>saveRecentFile(name, size, content)\<close>; \<open>now\<close> is what \<^verbatim>\<open>Date.now()\<close> returns.
  \<^verbatim>\<open>new Blob([content]).size\<close> is the byte length of the text.  The write to the store is
  not guarded here: a throw of \<^verbatim>\<open>setItem\<close> leaves the function.
\<close>

definition inlineContent_of :: "string option \<Rightarrow> string option" where
  "inlineContent_of content =
     (case content of
        None \<Rightarrow> None
      | Some c \<Rightarrow> if length c \<le> MAX_INLINE_BYTES then Some c else None)"

definition saveRecentFile_next :: "int \<Rightarrow> string \<Rightarrow> int \<Rightarrow> string option \<Rightarrow> RecentItem list \<Rightarrow> RecentItem list" where
  "saveRecentFile_next now name sz content items =
     (let withoutDupes = filter (\<lambda>it. \<not> (it_name it = name \<and> it_size it = sz)) items
      in take MAX_ITEMS
           (\<lparr>it_name = name, it_size = sz, it_lastOpened = now,
             it_content = inlineContent_of content\<rparr> # withoutDupes))"

definition saveRecentFile ::
  "int \<Rightarrow> string \<Rightarrow> int \<Rightarrow> string option \<Rightarrow> recent_text localStorage \<Rightarrow> exn + recent_text localStorage" where
  "saveRecentFile now name sz content st =
     (let items = getRecentFiles st
      in setItem st RECENT_KEY (JSON_stringify (saveRecentFile_next now name sz content items)))"

definition touchRecent_next :: "int \<Rightarrow> string \<Rightarrow> int \<Rightarrow> RecentItem list \<Rightarrow> RecentItem list" where
  "touchRecent_next now name sz items =
     map (\<lambda>it. if it_name it = name \<and> it_size it = sz then it\<lparr>it_lastOpened := now\<rparr> else it) items"

definition touchRecent ::
  "int \<Rightarrow> string \<Rightarrow> int \<Rightarrow> recent_text localStorage \<Rightarrow> exn + recent_text localStorage" where
  "touchRecent now name sz st =
     (let items = getRecentFiles st
      in setItem st RECENT_KEY (JSON_stringify (touchRecent_next now name sz items)))"

text \<open>
  Every caller wraps the two writers in \<^verbatim>\<open>try { ... } catch {}\<close>: a throw leaves the store
  as it was.  A history of the list is a sequence of such guarded calls.
\<close>

definition swallow :: "'s \<Rightarrow> exn + 's \<Rightarrow> 's" where
  "swallow st r = (case r of Inl e \<Rightarrow> st | Inr st' \<Rightarrow> st')"

datatype recent_op = Save int string int "string option" | Touch int string int

fun recent_step :: "recent_text localStorage \<Rightarrow> recent_op \<Rightarrow> recent_text localStorage" where
  "recent_step st (Save now name sz content) = swallow st (saveRecentFile now name sz content st)"
| "recent_step st (Touch now name sz) = swallow st (touchRecent now name sz st)"

definition recent_key :: "RecentItem \<Rightarrow> string \<times> int" where
  "recent_key it = (it_name it, it_size it)"

definition recent_ok :: "RecentItem list \<Rightarrow> bool" where
  "recent_ok items \<longleftrightarrow> length items \<le> MAX_ITEMS \<and> distinct (map recent_key items)"

section \<open>preferences.ts\<close>

datatype pref_key =
  Bg | BgCustomColor | ExportFormat | AggressiveOptimization | Loop | IgnoreOpacity
  | ShowFrame | RecentFiles | CardCollapsed

datatype pref_value = PBool bool | PString string

fun key_string :: "pref_key \<Rightarrow> string" where
  "key_string Bg = ''bg''"
| "key_string BgCustomColor = ''bg-custom-color''"
| "key_string ExportFormat = ''export-format''"
| "key_string AggressiveOptimization = ''aggressive-optimization''"
| "key_string Loop = ''loop''"
| "key_string IgnoreOpacity = ''ignore-opacity''"
| "key_string ShowFrame = ''show-frame''"
| "key_string RecentFiles = ''recent-files''"
| "key_string CardCollapsed = ''card-collapsed''"

fun DEFAULT_PREFERENCES :: "pref_key \<Rightarrow> pref_value" where
  "DEFAULT_PREFERENCES Bg = PString ''white''"
| "DEFAULT_PREFERENCES BgCustomColor = PString ''#ffffff''"
| "DEFAULT_PREFERENCES ExportFormat = PString ''svg''"
| "DEFAULT_PREFERENCES AggressiveOptimization = PBool False"
| "DEFAULT_PREFERENCES Loop = PBool True"
| "DEFAULT_PREFERENCES IgnoreOpacity = PBool False"
| "DEFAULT_PREFERENCES ShowFrame = PBool False"
| "DEFAULT_PREFERENCES RecentFiles = PString ''[]''"
| "DEFAULT_PREFERENCES CardCollapsed = PBool False"

definition PREFIX :: string where
  "PREFIX = ''lottie-converter-''"

fun is_boolean :: "pref_value \<Rightarrow> bool" where
  "is_boolean (PBool b) = True"
| "is_boolean (PString s) = False"

text \<open>\<^verbatim>\<open>defaultValue ?? DEFAULT_PREFERENCES[key]\<close>; an omitted argument is \<open>None\<close>.\<close>

definition default_for :: "pref_key \<Rightarrow> pref_value option \<Rightarrow> pref_value" where
  "default_for key defaultValue =
     (case defaultValue of Some d \<Rightarrow> d | None \<Rightarrow> DEFAULT_PREFERENCES key)"

definition getPreference :: "string localStorage \<Rightarrow> pref_key \<Rightarrow> pref_value option \<Rightarrow> pref_value" where
  "getPreference st key defaultValue =
     (case getItem st (PREFIX @ key_string key) of
        Inl e \<Rightarrow> default_for key defaultValue
      | Inr None \<Rightarrow> default_for key defaultValue
      | Inr (Some stored) \<Rightarrow>
          if is_boolean (DEFAULT_PREFERENCES key) then PBool (stored = ''true'')
          else PString stored)"

text \<open>A store holding two entries, used to evaluate the operations.\<close>

definition recent_example :: "recent_text localStorage" where
  "recent_example = Available (Map.empty(RECENT_KEY \<mapsto> Encodes (JArray
     [\<lparr>it_name = ''a.json'', it_size = 10, it_lastOpened = 1, it_content = None\<rparr>,
      \<lparr>it_name = ''b.json'', it_size = 20, it_lastOpened = 2, it_content = None\<rparr>])))"

section \<open>JavaScript primitives the converter uses\<close>

text \<open>
  Numbers are real numbers here: the rounding of IEEE doubles in arithmetic is not
  modelled.  A number that may be \<^verbatim>\<open>NaN\<close> or \<^verbatim>\<open>undefined\<close> is a \<open>real option\<close>, and
  \<open>None\<close> is falsy like zero.  A number that \<^verbatim>\<open>parseInt\<close> returns is a \<open>jsint\<close>: a whole
  number that is a double, or an infinity.  Strings are sequences of UTF-8 bytes.
\<close>

datatype jsint = Fin int | PosInfinity | NegInfinity

text \<open>\<^verbatim>\<open>Math.round\<close>: the nearest integer, a tie going up.\<close>

definition Math_round :: "real \<Rightarrow> int" where
  "Math_round x = \<lfloor>x + 1 / 2\<rfloor>"

text \<open>\<^verbatim>\<open>a || b\<close> on numbers.\<close>

definition num_or :: "real \<Rightarrow> real \<Rightarrow> real" where
  "num_or a b = (if a = 0 then b else a)"

definition truthy :: "real option \<Rightarrow> bool" where
  "truthy a = (case a of None \<Rightarrow> False | Some x \<Rightarrow> x \<noteq> 0)"

definition opt_or :: "real option \<Rightarrow> real option \<Rightarrow> real option" where
  "opt_or a b = (if truthy a then a else b)"

definition opt_or0 :: "real option \<Rightarrow> real" where
  "opt_or0 a = (case a of None \<Rightarrow> 0 | Some x \<Rightarrow> x)"

text \<open>\<^verbatim>\<open>x.toFixed(2)\<close>, as the number it prints: hundredths, a tie going away from zero.\<close>

definition toFixed2 :: "real \<Rightarrow> real" where
  "toFixed2 x = sgn x * of_int \<lfloor>\<bar>x\<bar> * 100 + 1 / 2\<rfloor> / 100"

text \<open>
  The double nearest to a whole number, a tie going to the even significand: exact below
  2^53, an infinity from 2^1024 on.
\<close>

fun bit_length :: "nat \<Rightarrow> nat" where
  "bit_length n = (if n = 0 then 0 else Suc (bit_length (n div 2)))"

declare bit_length.simps [simp del]

definition to_double :: "int \<Rightarrow> jsint" where
  "to_double n =
     (let a = nat \<bar>n\<bar>
      in if a < 2 ^ 53 then Fin n
         else
           let e = bit_length a - 53;
               q = a div 2 ^ e;
               r = a mod 2 ^ e;
               q' = (if 2 ^ (e - 1) < r \<or> (r = 2 ^ (e - 1) \<and> odd q) then q + 1 else q);
               v = q' * 2 ^ e
           in if 2 ^ 1024 \<le> v then (if n < 0 then NegInfinity else PosInfinity)
              else Fin (if n < 0 then - int v else int v))"

text \<open>
  The white space \<^verbatim>\<open>parseInt\<close> skips, in UTF-8: tab, line feed, vertical tab, form feed,
  carriage return, space, U+00A0, U+1680, U+2000 to U+200A, U+2028, U+2029, U+202F,
  U+205F, U+3000 and U+FEFF.
\<close>

definition white_spaces :: "string list" where
  "white_spaces =
     [[CHR 0x09], [CHR 0x0A], [CHR 0x0B], [CHR 0x0C], [CHR 0x0D], [CHR 0x20],
      [CHR 0xC2, CHR 0xA0], [CHR 0xE1, CHR 0x9A, CHR 0x80],
      [CHR 0xE2, CHR 0x80, CHR 0x80], [CHR 0xE2, CHR 0x80, CHR 0x81],
      [CHR 0xE2, CHR 0x80, CHR 0x82], [CHR 0xE2, CHR 0x80, CHR 0x83],
      [CHR 0xE2, CHR 0x80, CHR 0x84], [CHR 0xE2, CHR 0x80, CHR 0x85],
      [CHR 0xE2, CHR 0x80, CHR 0x86], [CHR 0xE2, CHR 0x80, CHR 0x87],
      [CHR 0xE2, CHR 0x80, CHR 0x88], [CHR 0xE2, CHR 0x80, CHR 0x89],
      [CHR 0xE2, CHR 0x80, CHR 0x8A], [CHR 0xE2, CHR 0x80, CHR 0xA8],
      [CHR 0xE2, CHR 0x80, CHR 0xA9], [CHR 0xE2, CHR 0x80, CHR 0xAF],
      [CHR 0xE2, CHR 0x81, CHR 0x9F], [CHR 0xE3, CHR 0x80, CHR 0x80],
      [CHR 0xEF, CHR 0xBB, CHR 0xBF]]"

definition white_len :: "string \<Rightarrow> nat" where
  "white_len s =
     (case find (\<lambda>w. prefix w s) white_spaces of None \<Rightarrow> 0 | Some w \<Rightarrow> length w)"

function strip_white :: "string \<Rightarrow> string" where
  "strip_white s = (if white_len s = 0 then s else strip_white (drop (white_len s) s))"
  by pat_completeness auto
termination
proof (relation "measure length")
  show "wf (measure length)" by simp
next
  fix s :: string
  assume "white_len s \<noteq> 0"
  moreover have "white_len [] = 0" by (simp add: white_len_def white_spaces_def)
  ultimately have "s \<noteq> []" by auto
  then show "(drop (white_len s) s, s) \<in> measure length"
    using \<open>white_len s \<noteq> 0\<close> by simp
qed

declare strip_white.simps [simp del]

text \<open>
  \<^verbatim>\<open>parseInt(s, 10)\<close>: leading white space, an optional sign, then the longest run of
  decimal digits, as the double nearest to their value; \<open>None\<close> is \<^verbatim>\<open>NaN\<close> (no digit).
  (Past the twentieth significant digit the language lets an implementation read the
  further digits as zeros; the value here is always the exact one, rounded.)
\<close>

definition digit_of :: "char \<Rightarrow> nat option" where
  "digit_of c = map_of (zip ''0123456789'' [0, 1, 2, 3, 4, 5, 6, 7, 8, 9]) c"

fun digits_value :: "nat \<Rightarrow> string \<Rightarrow> nat" where
  "digits_value acc [] = acc"
| "digits_value acc (c # cs) =
     (case digit_of c of None \<Rightarrow> acc | Some d \<Rightarrow> digits_value (10 * acc + d) cs)"

definition parse_digits :: "string \<Rightarrow> nat option" where
  "parse_digits s =
     (case s of [] \<Rightarrow> None
      | c # cs \<Rightarrow> (case digit_of c of None \<Rightarrow> None | Some d \<Rightarrow> Some (digits_value 0 s)))"

definition parseInt :: "string \<Rightarrow> jsint option" where
  "parseInt s =
     (case strip_white s of
        [] \<Rightarrow> None
      | c # cs \<Rightarrow>
          if c = CHR ''-'' then map_option (\<lambda>n. to_double (- int n)) (parse_digits cs)
          else if c = CHR ''+'' then map_option (\<lambda>n. to_double (int n)) (parse_digits cs)
          else map_option (\<lambda>n. to_double (int n)) (parse_digits (c # cs)))"

text \<open>\<^verbatim>\<open>toLowerCase\<close> on the ASCII letters, \<^verbatim>\<open>endsWith\<close>, and the two replacements of a
  trailing extension: \<^verbatim>\<open>replace(/\.json$/i, "")\<close> and \<^verbatim>\<open>replace(/\.(json|svg)$/i, "")\<close>.\<close>

definition lower_char :: "char \<Rightarrow> char" where
  "lower_char c =
     (case map_of (zip ''ABCDEFGHIJKLMNOPQRSTUVWXYZ'' ''abcdefghijklmnopqrstuvwxyz'') c of
        None \<Rightarrow> c | Some l \<Rightarrow> l)"

definition toLowerCase :: "string \<Rightarrow> string" where
  "toLowerCase s = map lower_char s"

definition endsWith :: "string \<Rightarrow> string \<Rightarrow> bool" where
  "endsWith s suf = suffix suf s"

definition strip_ext :: "string \<Rightarrow> string \<Rightarrow> string" where
  "strip_ext ext s =
     (if endsWith (toLowerCase s) ext then take (length s - length ext) s else s)"

definition strip_json_or_svg :: "string \<Rightarrow> string" where
  "strip_json_or_svg s =
     (if endsWith (toLowerCase s) ''.json'' then strip_ext ''.json'' s else strip_ext ''.svg'' s)"

section \<open>The converter: its state and the page it reads and writes\<close>

text \<open>
  The SVG element inside the render container, by the parts the converter touches:
  its view box (origin and size), its \<^verbatim>\<open>width\<close> and \<^verbatim>\<open>height\<close> attributes (as numbers), the inline
  style written by the zoom code, the frame outline rectangle, the style element that
  overrides opacity, and \<^verbatim>\<open>preserveAspectRatio\<close>.  Whatever else it contains is \<open>svg_body\<close>.
\<close>

record PreviewStyle =
  st_left :: real
  st_top :: real
  st_width :: "real option"
  st_height :: "real option"
  st_scale :: real

record FrameOverlay =
  ov_width :: real
  ov_height :: real
  ov_stroke_width :: "real option"
  ov_dasharray :: "(real \<times> real) option"

record SVGElement =
  svg_viewBox :: "(real \<times> real \<times> real \<times> real) option"
  svg_attr_width :: "real option"
  svg_attr_height :: "real option"
  svg_style :: "PreviewStyle option"
  svg_overlay :: "FrameOverlay option"
  svg_opacity_style :: bool
  svg_preserveAspectRatio :: "string option"
  svg_body :: string

record Container =
  c_svg :: "SVGElement option"
  c_visible :: bool
  c_rect :: "real \<times> real"

text \<open>
  The animation description after \<^verbatim>\<open>JSON.parse\<close>: a falsy value, or a value read through
  \<^verbatim>\<open>Number(data?.fr)\<close>, \<^verbatim>\<open>Number(data?.w)\<close> and \<^verbatim>\<open>Number(data?.h)\<close> (\<open>None\<close> for \<^verbatim>\<open>NaN\<close>).
  The playback engine is outside the repository: what it makes of the data is carried
  with the data, namely its frame count, the element it renders, and for each frame
  number \<open>k\<close> the current frame it reports once \<^verbatim>\<open>goToAndStop(k, true)\<close> has run.
\<close>

record AnimationData =
  data_fr :: "real option"
  data_w :: "real option"
  data_h :: "real option"
  engine_totalFrames :: int
  engine_svg :: SVGElement
  engine_shows :: "int \<Rightarrow> real"

datatype json_value = Falsy | Truthy AnimationData

text \<open>
  An engine instance; \<open>inst_enterFrame\<close> tells whether the \<^verbatim>\<open>enterFrame\<close> listener of the
  converter is registered on it.
\<close>

record AnimationItem =
  inst_totalFrames :: int
  inst_currentFrame :: real
  inst_loop :: bool
  inst_isPaused :: bool
  inst_shows :: "int \<Rightarrow> real"
  inst_enterFrame :: bool

text \<open>
  A text read from a file or handed over by the recent-files panel: its characters and
  its two readings, what \<^verbatim>\<open>JSON.parse\<close> returns (\<open>None\<close> when it throws) and the \<^verbatim>\<open>svg\<close> element the page
  finds after the text is assigned to \<^verbatim>\<open>innerHTML\<close> (\<open>None\<close> when there is none).
\<close>

record Content =
  raw :: string
  as_json :: "json_value option"
  as_svg :: "SVGElement option"

record File =
  file_name :: string
  file_size :: int
  file_content :: Content

text \<open>
  The frame slider is an element of the page, outside the repository.  A range input
  adjusts the value it is given to its range: \<open>sl_holds sl m v\<close> is the value the element
  holds once \<open>v\<close> has been assigned to it while its maximum is \<open>m\<close>.  Assigning the value
  and assigning the maximum both go through it.
\<close>

record Slider =
  sl_value :: int
  sl_max :: int
  sl_holds :: "int \<Rightarrow> int \<Rightarrow> int"

definition set_value :: "int \<Rightarrow> Slider \<Rightarrow> Slider" where
  "set_value v sl = sl\<lparr>sl_value := sl_holds sl (sl_max sl) v\<rparr>"

definition set_max :: "int \<Rightarrow> Slider \<Rightarrow> Slider" where
  "set_max m sl = sl\<lparr>sl_max := m, sl_value := sl_holds sl m (sl_value sl)\<rparr>"

text \<open>A range input of minimum 0 and step 1, as the HTML standard has it: the value
  clamped into [0, maximum], and 0 when the maximum is below the minimum.\<close>

definition range_input :: "int \<Rightarrow> int \<Rightarrow> int" where
  "range_input m v = (if m < 0 then 0 else max 0 (min m v))"

datatype zoom_mode = Fit | Fixed

datatype alert =
  PleaseSelectJsonOrSvg | InvalidJSONFile | FailedToLoadSavedFile | NoSVGFound

text \<open>
  The fields of \<^verbatim>\<open>this.state\<close>, the private fields of the class, and the parts of the page
  its methods read back: the render container, the bounding box of the preview container
  (\<open>None\<close> when the element is missing), the root font size as \<^verbatim>\<open>parseFloat\<close> reads it
  (\<open>None\<close> when not finite), the frame slider, the values of the raster-scale slider,
  the compression slider and the export-format select (\<open>None\<close> when the element is
  missing), the label of the zoom trigger, and the recent-files store.  Writes that
  nothing reads back (button states, the details panel, section visibility, cursors)
  are left out.
\<close>

record LottieConverter =
  animationInstance :: "AnimationItem option"
  animationData :: json_value
  totalFrames :: int
  currentFrame :: int
  originalFilename :: "string option"
  originalFileExt :: "string option"
  fileSizeBytes :: "int option"
  isPlaying :: bool
  isLooping :: bool
  zoomMode :: zoom_mode
  zoomPercent :: jsint
  ignoreOpacity :: bool
  width :: "real option"
  height :: "real option"
  fps :: "real option"
  currentFileName :: "string option"
  currentFileSize :: "int option"
  hasInteractedSinceLoad :: bool
  panOffsetX :: real
  panOffsetY :: real
  frameOutlineOn :: bool
  lottieContainer :: "Container option"
  previewRect :: "(real \<times> real) option"
  rootFontSize :: "real option"
  frameSlider :: "Slider option"
  rasterScaleSlider :: "string option"
  compressionSlider :: "string option"
  exportFormatSelect :: "string option"
  triggerLabel :: "jsint option"
  recentStore :: "recent_text localStorage"

text \<open>The state the class starts in, on a page that has all its elements.\<close>

definition initial :: LottieConverter where
  "initial =
     \<lparr>animationInstance = None, animationData = Falsy, totalFrames = 0, currentFrame = 0,
      originalFilename = None, originalFileExt = None, fileSizeBytes = None,
      isPlaying = False, isLooping = True, zoomMode = Fit, zoomPercent = Fin 100,
      ignoreOpacity = False, width = None, height = None, fps = None,
      currentFileName = None, currentFileSize = None, hasInteractedSinceLoad = False,
      panOffsetX = 0, panOffsetY = 0, frameOutlineOn = False,
      lottieContainer = Some \<lparr>c_svg = None, c_visible = True, c_rect = (1600, 900)\<rparr>,
      previewRect = Some (1600, 900), rootFontSize = Some 16,
      frameSlider = Some \<lparr>sl_value = 0, sl_max = 100, sl_holds = range_input\<rparr>,
      rasterScaleSlider = Some ''2'', compressionSlider = Some ''80'',
      exportFormatSelect = Some ''svg'', triggerLabel = None,
      recentStore = Available Map.empty\<rparr>"

subsection \<open>Scale and padding\<close>

definition svg_of :: "LottieConverter \<Rightarrow> SVGElement option" where
  "svg_of c = (case lottieContainer c of None \<Rightarrow> None | Some cont \<Rightarrow> c_svg cont)"

definition set_svg :: "SVGElement \<Rightarrow> LottieConverter \<Rightarrow> LottieConverter" where
  "set_svg svg c =
     (case lottieContainer c of
        None \<Rightarrow> c
      | Some cont \<Rightarrow> c\<lparr>lottieContainer := Some (cont\<lparr>c_svg := Some svg\<rparr>)\<rparr>)"

definition getRemInPixels :: "LottieConverter \<Rightarrow> real" where
  "getRemInPixels c = (case rootFontSize c of None \<Rightarrow> 16 | Some v \<Rightarrow> v)"

record Padding =
  pad_left :: real
  pad_right :: real
  pad_top :: real
  pad_bottom :: real

definition getFitPaddingPx :: "LottieConverter \<Rightarrow> Padding" where
  "getFitPaddingPx c =
     (let rem = getRemInPixels c
      in \<lparr>pad_left = 20 * rem, pad_right = 20 * rem, pad_top = 0, pad_bottom = 5 * rem\<rparr>)"

definition xShift :: "LottieConverter \<Rightarrow> real" where
  "xShift c = (let pad = getFitPaddingPx c in (pad_left pad - pad_right pad) / 2)"

definition yShift :: "LottieConverter \<Rightarrow> real" where
  "yShift c = (let pad = getFitPaddingPx c in (pad_top pad - pad_bottom pad) / 2)"

definition computeFitScale :: "LottieConverter \<Rightarrow> real option" where
  "computeFitScale c =
     (let w = opt_or0 (width c); h = opt_or0 (height c)
      in case previewRect c of
           None \<Rightarrow> None
         | Some (rw, rh) \<Rightarrow>
             if w = 0 \<or> h = 0 then None
             else if rw = 0 \<or> rh = 0 then None
             else
               let pad = getFitPaddingPx c;
                   availW = max 1 (rw - (pad_left pad + pad_right pad));
                   availH = max 1 (rh - (pad_top pad + pad_bottom pad))
               in Some (min (availW / w) (availH / h)))"

definition clamp_scale :: "real \<Rightarrow> real" where
  "clamp_scale x = max (2 / 100) (min 32 x)"

text \<open>\<^verbatim>\<open>this.state.zoomPercent || 100\<close>.\<close>

definition percent_or_100 :: "jsint \<Rightarrow> jsint" where
  "percent_or_100 p = (if p = Fin 0 then Fin 100 else p)"

text \<open>\<^verbatim>\<open>Math.max(0.02, Math.min(32, p / 100))\<close>; an infinite \<open>p\<close> ends at a bound.\<close>

definition fixed_scale :: "jsint \<Rightarrow> real" where
  "fixed_scale p =
     (case p of
        Fin n \<Rightarrow> clamp_scale (of_int n / 100)
      | PosInfinity \<Rightarrow> 32
      | NegInfinity \<Rightarrow> 2 / 100)"

definition getCurrentScale :: "LottieConverter \<Rightarrow> real" where
  "getCurrentScale c =
     (if zoomMode c = Fixed then
        (let p = percent_or_100 (zoomPercent c) in fixed_scale p)
      else num_or (opt_or0 (computeFitScale c)) 1)"

definition computeFitPercent :: "LottieConverter \<Rightarrow> real option" where
  "computeFitPercent c =
     (let w = opt_or0 (width c); h = opt_or0 (height c)
      in case previewRect c of
           None \<Rightarrow> None
         | Some (rw, rh) \<Rightarrow>
             if w = 0 \<or> h = 0 then None
             else if rw = 0 \<or> rh = 0 then None
             else
               let pad = getFitPaddingPx c;
                   availW = max 1 (rw - (pad_left pad + pad_right pad));
                   availH = max 1 (rh - (pad_top pad + pad_bottom pad));
                   scale = min (availW / w) (availH / h)
               in Some (clamp_scale scale * 100))"

subsection \<open>Overlays\<close>

definition updateFrameOutlineAppearance :: "LottieConverter \<Rightarrow> LottieConverter" where
  "updateFrameOutlineAppearance c =
     (if \<not> frameOutlineOn c then c
      else case svg_of c of
        None \<Rightarrow> c
      | Some svg \<Rightarrow>
          (case svg_overlay svg of
             None \<Rightarrow> c
           | Some rect \<Rightarrow>
               let scale = getCurrentScale c;
                   rect' = rect\<lparr>ov_stroke_width := Some (2 / scale),
                                ov_dasharray := Some (10 / scale, 6 / scale)\<rparr>
               in set_svg (svg\<lparr>svg_overlay := Some rect'\<rparr>) c))"

definition applyOpacityOverride :: "LottieConverter \<Rightarrow> LottieConverter" where
  "applyOpacityOverride c =
     (case svg_of c of
        None \<Rightarrow> c
      | Some svg \<Rightarrow> set_svg (svg\<lparr>svg_opacity_style := ignoreOpacity c\<rparr>) c)"

text \<open>The intrinsic size as the view code reads it:
  \<^verbatim>\<open>this.state.width || svg.viewBox?.baseVal?.width || 0\<close>.\<close>

definition viewBox_width :: "SVGElement \<Rightarrow> real" where
  "viewBox_width svg = (case svg_viewBox svg of None \<Rightarrow> 0 | Some (x, y, w, h) \<Rightarrow> w)"

definition viewBox_height :: "SVGElement \<Rightarrow> real" where
  "viewBox_height svg = (case svg_viewBox svg of None \<Rightarrow> 0 | Some (x, y, w, h) \<Rightarrow> h)"

definition intrinsic_width :: "LottieConverter \<Rightarrow> SVGElement \<Rightarrow> real" where
  "intrinsic_width c svg = num_or (opt_or0 (width c)) (viewBox_width svg)"

definition intrinsic_height :: "LottieConverter \<Rightarrow> SVGElement \<Rightarrow> real" where
  "intrinsic_height c svg = num_or (opt_or0 (height c)) (viewBox_height svg)"

definition applyFrameOutline :: "LottieConverter \<Rightarrow> LottieConverter" where
  "applyFrameOutline c =
     (case svg_of c of
        None \<Rightarrow> c
      | Some svg \<Rightarrow>
          if \<not> frameOutlineOn c then set_svg (svg\<lparr>svg_overlay := None\<rparr>) c
          else
            let w = intrinsic_width c svg; h = intrinsic_height c svg
            in if w = 0 \<or> h = 0 then c
               else
                 let rect = (case svg_overlay svg of
                               None \<Rightarrow> \<lparr>ov_width = w, ov_height = h, ov_stroke_width = None,
                                         ov_dasharray = None\<rparr>
                             | Some r \<Rightarrow> r\<lparr>ov_width := w, ov_height := h\<rparr>)
                 in updateFrameOutlineAppearance (set_svg (svg\<lparr>svg_overlay := Some rect\<rparr>) c))"

subsection \<open>The transform\<close>

definition position_style :: "LottieConverter \<Rightarrow> SVGElement \<Rightarrow> real \<Rightarrow> PreviewStyle" where
  "position_style c svg scale =
     (let w = intrinsic_width c svg; h = intrinsic_height c svg
      in \<lparr>st_left = toFixed2 (panOffsetX c + xShift c),
          st_top = toFixed2 (panOffsetY c + yShift c),
          st_width = (if w = 0 then None else Some w),
          st_height = (if h = 0 then None else Some h),
          st_scale = scale\<rparr>)"

definition fitToContainer :: "LottieConverter \<Rightarrow> SVGElement \<Rightarrow> SVGElement" where
  "fitToContainer c svg =
     (let w = intrinsic_width c svg; h = intrinsic_height c svg;
          pad = getFitPaddingPx c;
          (rw, rh) = (case lottieContainer c of None \<Rightarrow> (0, 0) | Some cont \<Rightarrow> c_rect cont);
          availW = max 1 (rw - (pad_left pad + pad_right pad));
          availH = max 1 (rh - (pad_top pad + pad_bottom pad));
          scale = (if w \<noteq> 0 \<and> h \<noteq> 0 then min (availW / w) (availH / h) else 1)
      in svg\<lparr>svg_style := Some (position_style c svg scale),
             svg_preserveAspectRatio := Some ''xMidYMid meet''\<rparr>)"

definition setFixedZoom :: "LottieConverter \<Rightarrow> SVGElement \<Rightarrow> jsint \<Rightarrow> SVGElement" where
  "setFixedZoom c svg percent =
     (let scale = fixed_scale percent
      in svg\<lparr>svg_style := Some (position_style c svg scale),
             svg_preserveAspectRatio := Some ''xMidYMid meet''\<rparr>)"

definition applyZoom :: "LottieConverter \<Rightarrow> LottieConverter" where
  "applyZoom c =
     (case svg_of c of
        None \<Rightarrow> c
      | Some svgElement \<Rightarrow>
          let c' = (if zoomMode c = Fit then set_svg (fitToContainer c svgElement) c
                    else
                      let p = percent_or_100 (zoomPercent c)
                      in set_svg (setFixedZoom c svgElement p) c)
          in updateFrameOutlineAppearance c')"

definition updateTriggerLabel :: "jsint \<Rightarrow> LottieConverter \<Rightarrow> LottieConverter" where
  "updateTriggerLabel percent c = c\<lparr>triggerLabel := Some percent\<rparr>"

subsection \<open>Zoom controls\<close>

definition setModeFit :: "LottieConverter \<Rightarrow> LottieConverter" where
  "setModeFit c =
     (let c1 = applyZoom (c\<lparr>zoomMode := Fit, panOffsetX := 0, panOffsetY := 0\<rparr>);
          c2 = (case computeFitPercent c1 of
                  None \<Rightarrow> c1
                | Some percent \<Rightarrow>
                    if percent = 0 then c1 else updateTriggerLabel (Fin (Math_round percent)) c1)
      in updateFrameOutlineAppearance c2)"

definition setPercent :: "jsint \<Rightarrow> LottieConverter \<Rightarrow> LottieConverter" where
  "setPercent percent c =
     updateFrameOutlineAppearance
       (updateTriggerLabel percent (applyZoom (c\<lparr>zoomMode := Fixed, zoomPercent := percent\<rparr>)))"

text \<open>The percentage in effect: the stored one in fixed mode, the rounded fit percentage
  (100 when it cannot be computed) in fit mode.\<close>

definition currentPercent :: "LottieConverter \<Rightarrow> jsint" where
  "currentPercent c =
     (if zoomMode c = Fixed then percent_or_100 (zoomPercent c)
      else Fin (Math_round (num_or (opt_or0 (computeFitPercent c)) 100)))"

text \<open>\<^verbatim>\<open>p >= k\<close> and \<^verbatim>\<open>p <= k\<close> for a percentage that may be infinite.\<close>

definition js_ge :: "jsint \<Rightarrow> int \<Rightarrow> bool" where
  "js_ge p k = (case p of Fin n \<Rightarrow> k \<le> n | PosInfinity \<Rightarrow> True | NegInfinity \<Rightarrow> False)"

definition js_le :: "jsint \<Rightarrow> int \<Rightarrow> bool" where
  "js_le p k = (case p of Fin n \<Rightarrow> n \<le> k | PosInfinity \<Rightarrow> False | NegInfinity \<Rightarrow> True)"

definition handleSelectChange :: "string \<Rightarrow> LottieConverter \<Rightarrow> LottieConverter" where
  "handleSelectChange v c =
     (let cur = currentPercent c
      in if v = ''zoom-in'' then
           setPercent (Fin (if js_ge cur 200 then 400 else if js_ge cur 100 then 200
                            else if js_ge cur 50 then 100 else 50)) c
         else if v = ''zoom-out'' then
           setPercent (Fin (if js_le cur 50 then 25 else if js_le cur 100 then 50
                            else if js_le cur 200 then 100 else 200)) c
         else if v = ''fit'' then setModeFit c
         else (case parseInt v of None \<Rightarrow> c | Some numeric \<Rightarrow> setPercent numeric c))"

subsection \<open>Wheel zoom\<close>

record WheelEvent =
  deltaY :: real
  overZoomUi :: bool

definition zoomFactorPerStep :: real where
  "zoomFactorPerStep = 11 / 10"

definition wheel_steps :: "real \<Rightarrow> int" where
  "wheel_steps delta = max (- 4) (min 4 (Math_round (delta / 100)))"

definition wheel_factor :: "real \<Rightarrow> real" where
  "wheel_factor delta =
     (let steps = wheel_steps delta
      in if steps = 0 then (if delta < 0 then 1 / zoomFactorPerStep else zoomFactorPerStep)
         else power_int zoomFactorPerStep steps)"

definition wheel_newPercent :: "int \<Rightarrow> real \<Rightarrow> int" where
  "wheel_newPercent basePercent delta =
     (let newPercentRaw = of_int basePercent * (1 / wheel_factor delta)
      in max 2 (min 3200 (Math_round newPercentRaw)))"

text \<open>The same for a base that may be infinite: the factor is positive, so the raw value
  keeps the infinity and the clamp ends at a bound.\<close>

definition wheel_newPercent_js :: "jsint \<Rightarrow> real \<Rightarrow> int" where
  "wheel_newPercent_js basePercent delta =
     (case basePercent of
        Fin b \<Rightarrow> wheel_newPercent b delta
      | PosInfinity \<Rightarrow> 3200
      | NegInfinity \<Rightarrow> 2)"

definition onWheel :: "WheelEvent \<Rightarrow> LottieConverter \<Rightarrow> LottieConverter" where
  "onWheel e c =
     (if overZoomUi e then c
      else case svg_of c of
        None \<Rightarrow> c
      | Some svg \<Rightarrow>
          let oldScale = getCurrentScale c;
              basePercent = currentPercent c;
              newPercent = wheel_newPercent_js basePercent (deltaY e);
              c1 = c\<lparr>zoomMode := Fixed, zoomPercent := Fin newPercent\<rparr>;
              newScale = getCurrentScale c1;
              ratio = newScale / num_or oldScale 1;
              oldPxFromCenterX = panOffsetX c1 + xShift c1;
              oldPxFromCenterY = panOffsetY c1 + yShift c1;
              newPxFromCenterX = ratio * oldPxFromCenterX;
              newPxFromCenterY = ratio * oldPxFromCenterY;
              c2 = c1\<lparr>panOffsetX := newPxFromCenterX - xShift c1,
                      panOffsetY := newPxFromCenterY - yShift c1\<rparr>
          in updateFrameOutlineAppearance (updateTriggerLabel (Fin newPercent) (applyZoom c2)))"

section \<open>Loading and scrubbing\<close>

text \<open>
  \<^verbatim>\<open>touchRecentIfNeeded\<close>; \<open>now\<close> is what \<^verbatim>\<open>Date.now()\<close> returns inside \<^verbatim>\<open>touchRecent\<close>.
  An empty \<^verbatim>\<open>originalFilename\<close> is falsy.
\<close>

definition touchRecentIfNeeded :: "int \<Rightarrow> LottieConverter \<Rightarrow> LottieConverter" where
  "touchRecentIfNeeded now c =
     (if hasInteractedSinceLoad c then c
      else
        let ext = (case originalFileExt c of None \<Rightarrow> ''.json'' | Some e \<Rightarrow> if e = [] then ''.json'' else e);
            name = (case originalFilename c of
                      None \<Rightarrow> None
                    | Some f \<Rightarrow> if f = [] then None else Some (f @ ext))
        in case (name, fileSizeBytes c) of
             (Some n, Some sz) \<Rightarrow>
               c\<lparr>recentStore := swallow (recentStore c) (touchRecent now n sz (recentStore c)),
                 hasInteractedSinceLoad := True\<rparr>
           | _ \<Rightarrow> c)"

text \<open>\<^verbatim>\<open>goToAndStop(frame, true)\<close> on the engine's side: the engine goes to that frame,
  reports the current frame it has for it, and stops.\<close>

definition goToAndStop :: "int \<Rightarrow> AnimationItem \<Rightarrow> AnimationItem" where
  "goToAndStop frame inst =
     inst\<lparr>inst_currentFrame := inst_shows inst frame, inst_isPaused := True\<rparr>"

text \<open>
  The \<^verbatim>\<open>enterFrame\<close> listener that the \<^verbatim>\<open>DOMLoaded\<close> listener registers: it copies the
  engine's current frame, rounded, to the state and assigns it to the slider, without
  an \<^verbatim>\<open>input\<close> event.
\<close>

definition onEnterFrame :: "LottieConverter \<Rightarrow> LottieConverter" where
  "onEnterFrame c =
     (case animationInstance c of
        None \<Rightarrow> c
      | Some inst \<Rightarrow>
          let frame = Math_round (num_or (inst_currentFrame inst) 0)
          in c\<lparr>currentFrame := frame,
               frameSlider := map_option (set_value frame) (frameSlider c)\<rparr>)"

text \<open>
  \<^verbatim>\<open>this.state.animationInstance.goToAndStop(frame, true)\<close> as the converter sees it: the
  engine fires \<^verbatim>\<open>enterFrame\<close> inside the call, so the listener runs before the call
  returns when it is registered.
\<close>

definition instance_goToAndStop :: "int \<Rightarrow> LottieConverter \<Rightarrow> LottieConverter" where
  "instance_goToAndStop frame c =
     (case animationInstance c of
        None \<Rightarrow> c
      | Some inst \<Rightarrow>
          let c1 = c\<lparr>animationInstance := Some (goToAndStop frame inst)\<rparr>
          in if inst_enterFrame inst then onEnterFrame c1 else c1)"

text \<open>
  The listener \<^verbatim>\<open>setupFrameSlider\<close> puts on the slider's \<^verbatim>\<open>input\<close> event.  It runs on a
  user's drag and on every \<^verbatim>\<open>dispatchEvent(new Event("input"))\<close> of the class itself, and
  reads the frame back from the slider.
\<close>

definition frameSlider_input :: "int \<Rightarrow> LottieConverter \<Rightarrow> LottieConverter" where
  "frameSlider_input now c =
     (case frameSlider c of
        None \<Rightarrow> c
      | Some sl \<Rightarrow>
          let c1 = c\<lparr>currentFrame := sl_value sl\<rparr>;
              c2 = (case animationInstance c1 of
                      None \<Rightarrow> c1
                    | Some inst \<Rightarrow> applyZoom (instance_goToAndStop (currentFrame c1) c1))
          in touchRecentIfNeeded now c2)"

definition updateSliderMax :: "int \<Rightarrow> int \<Rightarrow> LottieConverter \<Rightarrow> LottieConverter" where
  "updateSliderMax now maxValue c =
     (case frameSlider c of
        None \<Rightarrow> c
      | Some sl \<Rightarrow> frameSlider_input now (c\<lparr>frameSlider := Some (set_max maxValue sl)\<rparr>))"

definition setFrame :: "int \<Rightarrow> int \<Rightarrow> LottieConverter \<Rightarrow> LottieConverter" where
  "setFrame now frame c =
     (case animationInstance c of
        None \<Rightarrow> c
      | Some inst \<Rightarrow>
          let clampedFrame = max 0 (min frame (totalFrames c));
              c1 = instance_goToAndStop clampedFrame (c\<lparr>currentFrame := clampedFrame\<rparr>);
              c2 = applyZoom c1
          in case frameSlider c2 of
               None \<Rightarrow> c2
             | Some sl \<Rightarrow>
                 frameSlider_input now (c2\<lparr>frameSlider := Some (set_value clampedFrame sl)\<rparr>))"

definition set_visible :: "bool \<Rightarrow> LottieConverter \<Rightarrow> LottieConverter" where
  "set_visible v c =
     (case lottieContainer c of
        None \<Rightarrow> c
      | Some cont \<Rightarrow> c\<lparr>lottieContainer := Some (cont\<lparr>c_visible := v\<rparr>)\<rparr>)"

text \<open>\<^verbatim>\<open>waitForSvgAndReveal\<close>: reveals at once when the element is there; otherwise an
  observer is left waiting for it.\<close>

definition waitForSvgAndReveal :: "LottieConverter \<Rightarrow> LottieConverter" where
  "waitForSvgAndReveal c =
     (case svg_of c of
        None \<Rightarrow> c
      | Some svg \<Rightarrow>
          set_visible True
            (applyOpacityOverride (updateFrameOutlineAppearance (applyFrameOutline (applyZoom c)))))"

text \<open>
  \<^verbatim>\<open>loadLottieAnimation\<close>, up to the registration of the \<^verbatim>\<open>DOMLoaded\<close> listener.  The engine
  builds its instance from the data and renders its element into the container.
\<close>

definition loadLottieAnimation :: "LottieConverter \<Rightarrow> LottieConverter" where
  "loadLottieAnimation c =
     (case lottieContainer c of
        None \<Rightarrow> c
      | Some cont \<Rightarrow>
          (case animationData c of
             Falsy \<Rightarrow> c
           | Truthy d \<Rightarrow>
               c\<lparr>lottieContainer :=
                    Some (cont\<lparr>c_svg := Some (engine_svg d), c_visible := False\<rparr>),
                 animationInstance :=
                    Some \<lparr>inst_totalFrames = engine_totalFrames d, inst_currentFrame = 0,
                          inst_loop = isLooping c, inst_isPaused = True,
                          inst_shows = engine_shows d, inst_enterFrame = False\<rparr>\<rparr>))"

text \<open>
  The \<^verbatim>\<open>DOMLoaded\<close> listener.  It registers the \<^verbatim>\<open>enterFrame\<close> listener after its own
  \<^verbatim>\<open>goToAndStop(0, true)\<close>.  The refresh of the zoom label it schedules with \<^verbatim>\<open>setTimeout\<close>
  and the listener it registers for \<^verbatim>\<open>complete\<close> run later and are not part of this step.
\<close>

definition data_field :: "(AnimationData \<Rightarrow> real option) \<Rightarrow> json_value \<Rightarrow> real option" where
  "data_field f v = (case v of Falsy \<Rightarrow> None | Truthy d \<Rightarrow> f d)"

definition onDOMLoaded :: "int \<Rightarrow> LottieConverter \<Rightarrow> LottieConverter" where
  "onDOMLoaded now c =
     (case animationInstance c of
        None \<Rightarrow> c
      | Some inst \<Rightarrow>
          let c1 = c\<lparr>panOffsetX := 0, panOffsetY := 0,
                     totalFrames := inst_totalFrames inst - 1,
                     fps := opt_or (data_field data_fr (animationData c)) (fps c),
                     width := opt_or (data_field data_w (animationData c)) (width c),
                     height := opt_or (data_field data_h (animationData c)) (height c),
                     currentFrame := 0,
                     frameSlider := map_option (set_value 0) (frameSlider c)\<rparr>;
              c2 = updateSliderMax now (totalFrames c1) c1;
              c3 = waitForSvgAndReveal (applyZoom c2);
              c4 = instance_goToAndStop 0 c3;
              c5 = applyZoom c4
          in c5\<lparr>animationInstance :=
                   map_option (\<lambda>i. i\<lparr>inst_enterFrame := True, inst_loop := isLooping c5\<rparr>)
                     (animationInstance c5),
                 isPlaying := False\<rparr>)"

text \<open>\<^verbatim>\<open>loadStaticSVG\<close>.  An attribute \<^verbatim>\<open>width\<close> or \<^verbatim>\<open>height\<close> that is present and not
  empty is held as the number \<^verbatim>\<open>toPx\<close> reads from it.\<close>

definition loadStaticSVG :: "Content \<Rightarrow> LottieConverter \<Rightarrow> LottieConverter" where
  "loadStaticSVG svgString c =
     (case lottieContainer c of
        None \<Rightarrow> c
      | Some cont \<Rightarrow>
          let c1 = c\<lparr>animationInstance := None,
                     lottieContainer := Some (cont\<lparr>c_svg := as_svg svgString, c_visible := False\<rparr>)\<rparr>
          in case as_svg svgString of
               None \<Rightarrow> c1
             | Some svg \<Rightarrow>
                 let w0 = viewBox_width svg; h0 = viewBox_height svg;
                     (w, h) = (if (w0 = 0 \<or> h0 = 0) \<and> svg_attr_width svg \<noteq> None
                                  \<and> svg_attr_height svg \<noteq> None
                               then (opt_or0 (svg_attr_width svg), opt_or0 (svg_attr_height svg))
                               else (w0, h0));
                     c2 = c1\<lparr>width := (if w = 0 then width c1 else Some w),
                             height := (if h = 0 then height c1 else Some h),
                             totalFrames := 0, currentFrame := 0, fps := None,
                             isPlaying := False,
                             frameSlider := map_option (\<lambda>sl. set_max 0 (set_value 0 sl))
                                              (frameSlider c1)\<rparr>
                 in waitForSvgAndReveal (applyZoom c2))"

text \<open>
  \<^verbatim>\<open>handleFile\<close>: the part that runs at once, then the \<^verbatim>\<open>onload\<close> callback of the reader.
  The result carries the alert shown, if any.
\<close>

definition isJson :: "string \<Rightarrow> bool" where
  "isJson name = endsWith (toLowerCase name) ''.json''"

definition isSvg :: "string \<Rightarrow> bool" where
  "isSvg name = endsWith (toLowerCase name) ''.svg''"

definition save_recent :: "int \<Rightarrow> File \<Rightarrow> LottieConverter \<Rightarrow> LottieConverter" where
  "save_recent now f c =
     c\<lparr>recentStore :=
         swallow (recentStore c)
           (saveRecentFile now (file_name f) (file_size f) (Some (raw (file_content f)))
              (recentStore c))\<rparr>"

definition reader_onload :: "int \<Rightarrow> File \<Rightarrow> LottieConverter \<Rightarrow> alert option \<times> LottieConverter" where
  "reader_onload now f c =
     (if isJson (file_name f) then
        (case as_json (file_content f) of
           None \<Rightarrow> (Some InvalidJSONFile, c)
         | Some v \<Rightarrow> (None, save_recent now f (loadLottieAnimation (c\<lparr>animationData := v\<rparr>))))
      else if isSvg (file_name f) then
        (None, save_recent now f (loadStaticSVG (file_content f) c))
      else (None, c))"

definition handleFile :: "int \<Rightarrow> File \<Rightarrow> LottieConverter \<Rightarrow> alert option \<times> LottieConverter" where
  "handleFile now f c =
     (if \<not> isJson (file_name f) \<and> \<not> isSvg (file_name f) then (Some PleaseSelectJsonOrSvg, c)
      else
        let c1 = c\<lparr>originalFilename :=
                       Some (if isJson (file_name f) then strip_ext ''.json'' (file_name f)
                             else strip_ext ''.svg'' (file_name f)),
                   originalFileExt := Some (if isJson (file_name f) then ''.json'' else ''.svg''),
                   fileSizeBytes := Some (file_size f),
                   currentFileName := Some (file_name f),
                   currentFileSize := Some (file_size f)\<rparr>
        in reader_onload now f c1)"

definition loadFromJSONString ::
  "string \<Rightarrow> int \<Rightarrow> Content \<Rightarrow> LottieConverter \<Rightarrow> alert option \<times> LottieConverter" where
  "loadFromJSONString filename sz json c =
     (let c1 = c\<lparr>originalFilename := Some (strip_json_or_svg filename),
                 originalFileExt := Some (if isSvg filename then ''.svg'' else ''.json'')\<rparr>
      in case as_json json of
           None \<Rightarrow> (Some FailedToLoadSavedFile, c1)
         | Some v \<Rightarrow>
             (None,
              loadLottieAnimation
                (c1\<lparr>animationData := v, fileSizeBytes := Some sz,
                    currentFileName := Some filename, currentFileSize := Some sz\<rparr>)))"

definition loadFromSVGString ::
  "string \<Rightarrow> int \<Rightarrow> Content \<Rightarrow> LottieConverter \<Rightarrow> alert option \<times> LottieConverter" where
  "loadFromSVGString filename sz svg c =
     (None,
      loadStaticSVG svg
        (c\<lparr>originalFilename := Some (strip_json_or_svg filename),
           originalFileExt := Some ''.svg'',
           fileSizeBytes := Some sz,
           currentFileName := Some filename,
           currentFileSize := Some sz\<rparr>))"

section \<open>Export\<close>

text \<open>
  \<^verbatim>\<open>buildExportableSVGString\<close>.  The serialised document is represented by the cleaned
  element itself; \<^verbatim>\<open>cleanLottieIds\<close> and the optimiser of \<^verbatim>\<open>svg-utils.ts\<close> rewrite
  attributes and white space that are not part of this representation.
\<close>

definition buildExportableSVGString :: "LottieConverter \<Rightarrow> SVGElement \<Rightarrow> SVGElement" where
  "buildExportableSVGString c originalSvg =
     (let svg = originalSvg\<lparr>svg_overlay := None, svg_opacity_style := False, svg_style := None\<rparr>;
          w = intrinsic_width c svg;
          h = intrinsic_height c svg;
          svg' = (if w \<noteq> 0 \<and> h \<noteq> 0
                  then svg\<lparr>svg_attr_width := Some (of_int (Math_round w)),
                           svg_attr_height := Some (of_int (Math_round h)),
                           svg_viewBox := Some (0, 0, w, h)\<rparr>
                  else svg)
      in svg'\<lparr>svg_preserveAspectRatio := Some ''xMidYMid meet''\<rparr>)"

text \<open>The raster scale chosen by \<^verbatim>\<open>downloadCurrentFrame\<close> from the resolution slider.\<close>

definition scaleSteps :: "real list" where
  "scaleSteps = [1 / 4, 1 / 2, 1, 2, 4, 8]"

definition string_or :: "string option \<Rightarrow> string \<Rightarrow> string" where
  "string_or v d = (case v of None \<Rightarrow> d | Some s \<Rightarrow> if s = [] then d else s)"

text \<open>The index: a value that is not a finite number (\<^verbatim>\<open>!Number.isFinite(scaleIdx)\<close>)
  counts as 2.\<close>

definition rasterScaleIdx :: "string option \<Rightarrow> int" where
  "rasterScaleIdx slider =
     (let scaleIdx = (case parseInt (string_or slider ''2'') of Some (Fin i) \<Rightarrow> i | _ \<Rightarrow> 2)
      in if scaleIdx = 0 then 2 else scaleIdx)"

definition rasterScale :: "string option \<Rightarrow> real" where
  "rasterScale slider =
     scaleSteps ! nat (max 0 (min (int (length scaleSteps) - 1) (rasterScaleIdx slider)))"

text \<open>JPEG quality from the compression slider; \<open>None\<close> is \<^verbatim>\<open>NaN\<close>.\<close>

definition rasterQuality :: "string option \<Rightarrow> real option" where
  "rasterQuality slider =
     map_option
       (\<lambda>level. case level of
                   Fin l \<Rightarrow> max 0 (min 1 (of_int l / 100))
                 | PosInfinity \<Rightarrow> 1
                 | NegInfinity \<Rightarrow> 0)
       (parseInt (string_or slider ''80''))"

text \<open>
  \<^verbatim>\<open>downloadRasterFromSVG\<close>, up to the size of the canvas.  The image is what the browser
  decodes from the document; \<^verbatim>\<open>naturalWidth || width\<close> picks its base size.  The scale is
  a real number here, so the test \<^verbatim>\<open>Number.isFinite(scale)\<close> always holds.
\<close>

record Image =
  naturalWidth :: real
  naturalHeight :: real
  img_width :: real
  img_height :: real

definition rasterSize :: "Image \<Rightarrow> real \<Rightarrow> int \<times> int" where
  "rasterSize img scale =
     (let baseWidth = max 1 (num_or (naturalWidth img) (img_width img));
          baseHeight = max 1 (num_or (naturalHeight img) (img_height img))
      in (max 1 (Math_round (baseWidth * scale)), max 1 (Math_round (baseHeight * scale))))"

text \<open>The file name: \<^verbatim>\<open>{base}-{frame}-frame\<close> for an animation, \<^verbatim>\<open>{base}\<close> otherwise.\<close>

datatype export_name = FrameOf string int | Plain string

datatype download =
  SvgFile export_name SVGElement
  | RasterFile export_name string "int \<times> int" "real option"

definition exportName :: "LottieConverter \<Rightarrow> export_name" where
  "exportName c =
     (let baseFilename = string_or (originalFilename c) ''graphic''
      in if animationInstance c \<noteq> None then FrameOf baseFilename (currentFrame c)
         else Plain baseFilename)"

text \<open>
  \<^verbatim>\<open>downloadCurrentFrame\<close>; \<open>decode\<close> is the browser turning a document into an image.
  The result carries the alert, the file offered for download, and the state.  The
  failures of the browser that the \<^verbatim>\<open>catch\<close> block reports (an image that does not decode, a
  canvas without context) are not modelled.
\<close>

definition downloadCurrentFrame ::
  "int \<Rightarrow> (SVGElement \<Rightarrow> Image) \<Rightarrow> LottieConverter \<Rightarrow> alert option \<times> download option \<times> LottieConverter" where
  "downloadCurrentFrame now decode c =
     (case lottieContainer c of
        None \<Rightarrow> (None, None, c)
      | Some cont \<Rightarrow>
          let c1 = touchRecentIfNeeded now c
          in case svg_of c1 of
               None \<Rightarrow> (Some NoSVGFound, None, c1)
             | Some svgElement \<Rightarrow>
                 let svgString = buildExportableSVGString c1 svgElement;
                     fmt = string_or (exportFormatSelect c1) ''svg''
                 in if fmt = ''svg'' then (None, Some (SvgFile (exportName c1) svgString), c1)
                    else
                      let quality = rasterQuality (compressionSlider c1);
                          scale = rasterScale (rasterScaleSlider c1)
                      in (None,
                          Some (RasterFile (exportName c1) (if fmt = ''png'' then ''png'' else ''jpg'')
                                  (rasterSize (decode svgString) scale) quality),
                          c1))"

section \<open>Views of the state used in the proofs\<close>

text \<open>
  The state without the parts that the redraw helpers and the recent-files touch write
  to: the render container, the trigger label, the store and the interaction flag.
\<close>

definition core :: "LottieConverter \<Rightarrow> LottieConverter" where
  "core c =
     c\<lparr>lottieContainer := None, triggerLabel := None, recentStore := Unavailable,
       hasInteractedSinceLoad := False\<rparr>"

text \<open>The viewport state: zoom mode, zoom percentage and pan offset.\<close>

definition with_viewport :: "zoom_mode \<Rightarrow> jsint \<Rightarrow> real \<Rightarrow> real \<Rightarrow> LottieConverter \<Rightarrow> LottieConverter" where
  "with_viewport m p x y c = c\<lparr>zoomMode := m, zoomPercent := p, panOffsetX := x, panOffsetY := y\<rparr>"

text \<open>An engine that reports, once it has gone to a frame of the animation, that frame.\<close>

definition engine_exact :: "AnimationItem \<Rightarrow> bool" where
  "engine_exact inst \<longleftrightarrow>
     (\<forall>k \<in> {0 .. inst_totalFrames inst - 1}. inst_shows inst k = of_int k)"

text \<open>The frame the \<^verbatim>\<open>enterFrame\<close> listener reads once the engine has gone to frame \<open>k\<close>.\<close>

definition reported :: "AnimationItem \<Rightarrow> int \<Rightarrow> int" where
  "reported inst k = Math_round (num_or (inst_shows inst k) 0)"

text \<open>The value read back from the slider once \<open>k\<close> has been assigned to it (\<open>k\<close> itself
  on a page without the slider), and the current frame once the engine has then gone
  to \<open>v\<close>: what the listener reads, if it is registered.\<close>

definition held :: "LottieConverter \<Rightarrow> int \<Rightarrow> int" where
  "held c k = (case frameSlider c of None \<Rightarrow> k | Some sl \<Rightarrow> sl_holds sl (sl_max sl) k)"

definition heard :: "AnimationItem \<Rightarrow> int \<Rightarrow> int" where
  "heard inst v = (if inst_enterFrame inst then reported inst v else v)"

text \<open>A slider that, while its maximum is \<open>m\<close>, holds the value it is given clamped into
  [0, m]: a range input of minimum 0 and step 1.\<close>

definition clamps_to :: "(int \<Rightarrow> int \<Rightarrow> int) \<Rightarrow> int \<Rightarrow> bool" where
  "clamps_to h m \<longleftrightarrow> (\<forall>v. h m v = max 0 (min m v))"

text \<open>After a load has completed: an exact engine instance of at least one frame is
  attached, the stored last frame index is the engine's frame count less one, the
  current frame lies within it, and the slider, if the page has one, has that index as
  its maximum and clamps to it.\<close>

definition frame_inv :: "LottieConverter \<Rightarrow> bool" where
  "frame_inv c \<longleftrightarrow>
     (case animationInstance c of
        None \<Rightarrow> False
      | Some inst \<Rightarrow>
          1 \<le> inst_totalFrames inst \<and> engine_exact inst
          \<and> totalFrames c = inst_totalFrames inst - 1
          \<and> 0 \<le> currentFrame c \<and> currentFrame c \<le> inst_totalFrames inst - 1
          \<and> (case frameSlider c of
                None \<Rightarrow> True
              | Some sl \<Rightarrow> sl_max sl = totalFrames c \<and> clamps_to (sl_holds sl) (sl_max sl)))"

text \<open>What stays of the engine while frames are shown: the stored last index, and the
  frame count, the reports and the listener of the instance.\<close>

definition engine_of :: "LottieConverter \<Rightarrow> int \<times> (int \<times> (int \<Rightarrow> real) \<times> bool) option" where
  "engine_of c =
     (totalFrames c,
      map_option (\<lambda>i. (inst_totalFrames i, inst_shows i, inst_enterFrame i)) (animationInstance c))"

text \<open>
  An animation of 100 frames at 24 frames per second, 800 by 600, in a file \<^verbatim>\<open>a.json\<close>,
  played by an engine that reports for every frame number that number; and the state
  after it has been loaded into the starting state: the listener of \<^verbatim>\<open>DOMLoaded\<close> has run,
  the view is in fit mode.
\<close>

definition example_svg :: SVGElement where
  "example_svg =
     \<lparr>svg_viewBox = Some (0, 0, 800, 600), svg_attr_width = Some 800, svg_attr_height = Some 600,
      svg_style = None, svg_overlay = None, svg_opacity_style = False,
      svg_preserveAspectRatio = None, svg_body = ''<g></g>''\<rparr>"

definition example_data :: AnimationData where
  "example_data =
     \<lparr>data_fr = Some 24, data_w = Some 800, data_h = Some 600, engine_totalFrames = 100,
      engine_svg = example_svg, engine_shows = of_int\<rparr>"

definition example_file :: File where
  "example_file =
     \<lparr>file_name = ''a.json'', file_size = 2048,
      file_content = \<lparr>raw = ''{}'', as_json = Some (Truthy example_data), as_svg = None\<rparr>\<rparr>"

definition example_loaded :: LottieConverter where
  "example_loaded =
     \<lparr>animationInstance =
        Some \<lparr>inst_totalFrames = 100, inst_currentFrame = 0, inst_loop = True, inst_isPaused = True,
              inst_shows = of_int, inst_enterFrame = True\<rparr>,
      animationData = Truthy example_data, totalFrames = 99, currentFrame = 0,
      originalFilename = Some ''a'', originalFileExt = Some ''.json'', fileSizeBytes = Some 2048,
      isPlaying = False, isLooping = True, zoomMode = Fit, zoomPercent = Fin 100,
      ignoreOpacity = False, width = Some 800, height = Some 600, fps = Some 24,
      currentFileName = Some ''a.json'', currentFileSize = Some 2048, hasInteractedSinceLoad = True,
      panOffsetX = 0, panOffsetY = 0, frameOutlineOn = False,
      lottieContainer = Some \<lparr>c_svg = Some (example_svg\<lparr>svg_style := Some \<lparr>st_left = 0, st_top = - 40,
            st_width = Some 800, st_height = Some 600, st_scale = 6 / 5\<rparr>,
            svg_preserveAspectRatio := Some ''xMidYMid meet''\<rparr>), c_visible = True, c_rect = (1600, 900)\<rparr>,
      previewRect = Some (1600, 900), rootFontSize = Some 16,
      frameSlider = Some \<lparr>sl_value = 0, sl_max = 99, sl_holds = range_input\<rparr>,
      rasterScaleSlider = Some ''2'', compressionSlider = Some ''80'',
      exportFormatSelect = Some ''svg'', triggerLabel = None,
      recentStore = Available (Map.empty(RECENT_KEY \<mapsto> Encodes (JArray
          [\<lparr>it_name = ''a.json'', it_size = 2048, it_lastOpened = 2, it_content = Some ''{}''\<rparr>])))\<rparr>"

text \<open>The same animation data with no frame at all (its in and out points coincide),
  played by an engine that reports \<open>sh k\<close> for the frame number \<open>k\<close>; and the state after
  it has been loaded into the starting state, on a page whose slider holds \<open>h m v\<close>.\<close>

definition empty_data :: "(int \<Rightarrow> real) \<Rightarrow> AnimationData" where
  "empty_data sh = example_data\<lparr>engine_totalFrames := 0, engine_shows := sh\<rparr>"

definition empty_loaded :: "(int \<Rightarrow> real) \<Rightarrow> (int \<Rightarrow> int \<Rightarrow> int) \<Rightarrow> LottieConverter" where
  "empty_loaded sh h =
     onDOMLoaded 2
       (loadLottieAnimation
          (initial\<lparr>frameSlider := Some \<lparr>sl_value = 0, sl_max = 100, sl_holds = h\<rparr>,
                   animationData := Truthy (empty_data sh)\<rparr>))"

text \<open>A file named \<^verbatim>\<open>bad.json\<close> whose seven characters are not JSON.\<close>

definition bad_file :: File where
  "bad_file =
     \<lparr>file_name = ''bad.json'', file_size = 7,
      file_content = \<lparr>raw = ''{oops::'', as_json = None, as_svg = None\<rparr>\<rparr>"

text \<open>
  An image decoder that reports the \<^verbatim>\<open>width\<close> and \<^verbatim>\<open>height\<close> attributes of the document as
  the natural size and as the size of the image, as browsers do for a document that
  declares both in pixels; and the decoder that does only that.
\<close>

definition reads_declared_size :: "(SVGElement \<Rightarrow> Image) \<Rightarrow> bool" where
  "reads_declared_size decode \<longleftrightarrow>
     (\<forall>d. naturalWidth (decode d) = opt_or0 (svg_attr_width d)
        \<and> naturalHeight (decode d) = opt_or0 (svg_attr_height d)
        \<and> img_width (decode d) = opt_or0 (svg_attr_width d)
        \<and> img_height (decode d) = opt_or0 (svg_attr_height d))"

definition declared_size_image :: "SVGElement \<Rightarrow> Image" where
  "declared_size_image d =
     \<lparr>naturalWidth = opt_or0 (svg_attr_width d), naturalHeight = opt_or0 (svg_attr_height d),
      img_width = opt_or0 (svg_attr_width d), img_height = opt_or0 (svg_attr_height d)\<rparr>"

text \<open>The example state set to export PNG at slider index 3 (2x).\<close>

definition example_png_2x :: LottieConverter where
  "example_png_2x = example_loaded\<lparr>exportFormatSelect := Some ''png'', rasterScaleSlider := Some ''3''\<rparr>"

text \<open>
  An animation of 100.5 by 60.5 in a file \<^verbatim>\<open>a.json\<close>, the element as it is shown once the
  file has been loaded into the starting state, that state, and that state set to
  export PNG at slider index 1 (0.5x).
\<close>

definition fraction_svg :: SVGElement where
  "fraction_svg =
     \<lparr>svg_viewBox = Some (0, 0, 201 / 2, 121 / 2), svg_attr_width = Some (201 / 2),
      svg_attr_height = Some (121 / 2),
      svg_style = None, svg_overlay = None, svg_opacity_style = False,
      svg_preserveAspectRatio = None, svg_body = ''<g></g>''\<rparr>"

definition fraction_data :: AnimationData where
  "fraction_data =
     \<lparr>data_fr = Some 24, data_w = Some (201 / 2), data_h = Some (121 / 2), engine_totalFrames = 100,
      engine_svg = fraction_svg, engine_shows = of_int\<rparr>"

definition fraction_file :: File where
  "fraction_file =
     \<lparr>file_name = ''a.json'', file_size = 2048,
      file_content = \<lparr>raw = ''{}'', as_json = Some (Truthy fraction_data), as_svg = None\<rparr>\<rparr>"

definition fraction_shown :: SVGElement where
  "fraction_shown =
     fraction_svg\<lparr>svg_style := Some \<lparr>st_left = 0, st_top = - 40, st_width = Some (201 / 2),
                                       st_height = Some (121 / 2), st_scale = 640 / 67\<rparr>,
                  svg_preserveAspectRatio := Some ''xMidYMid meet''\<rparr>"

definition fraction_loaded :: LottieConverter where
  "fraction_loaded =
     example_loaded\<lparr>animationData := Truthy fraction_data,
       width := Some (201 / 2), height := Some (121 / 2),
       lottieContainer := Some \<lparr>c_svg = Some fraction_shown, c_visible = True, c_rect = (1600, 900)\<rparr>\<rparr>"

definition fraction_half :: LottieConverter where
  "fraction_half =
     fraction_loaded\<lparr>exportFormatSelect := Some ''png'', rasterScaleSlider := Some ''1''\<rparr>"

section \<open>Properties of the recent-files list\<close>

lemma getRecentFiles_setItem:
  "setItem st RECENT_KEY (JSON_stringify items) = Inr st' \<Longrightarrow> getRecentFiles st' = items"
  by (auto simp: setItem_def getRecentFiles_def getRecentFiles_try_def getItem_def
      JSON_stringify_def raw_or_empty_array_def split: localStorage.splits)

lemma getRecentFiles_Unavailable: "getRecentFiles Unavailable = []"
  by (simp add: getRecentFiles_def getRecentFiles_try_def getItem_def)

text \<open>
  Claim C10.  Reading the list never throws and always yields a list: the stored array
  when the store can be read and holds a text that parses to an array, and the empty
  list when the store is inaccessible, holds nothing or the empty string under the key,
  holds malformed JSON, or holds JSON that is not an array.
\<close>

theorem getRecentFiles_total:
  "getRecentFiles Unavailable = []
   \<and> getRecentFiles (Available (m(RECENT_KEY := None))) = []
   \<and> getRecentFiles (Available (m(RECENT_KEY \<mapsto> EmptyString))) = []
   \<and> getRecentFiles (Available (m(RECENT_KEY \<mapsto> Malformed))) = []
   \<and> getRecentFiles (Available (m(RECENT_KEY \<mapsto> Encodes JNotArray))) = []
   \<and> getRecentFiles (Available (m(RECENT_KEY \<mapsto> Encodes (JArray items)))) = items"
  by (simp add: getRecentFiles_def getRecentFiles_try_def getItem_def raw_or_empty_array_def)

lemma saveRecentFile_next_ok:
  "distinct (map recent_key items) \<Longrightarrow> recent_ok (saveRecentFile_next now name sz content items)"
proof -
  assume d: "distinct (map recent_key items)"
  let ?new = "\<lparr>it_name = name, it_size = sz, it_lastOpened = now, it_content = inlineContent_of content\<rparr>"
  let ?rest = "filter (\<lambda>it. \<not> (it_name it = name \<and> it_size it = sz)) items"
  have "distinct (map recent_key ?rest)"
    using d by (simp add: distinct_map_filter)
  moreover have "recent_key ?new \<notin> set (map recent_key ?rest)"
    by (auto simp: recent_key_def)
  ultimately have "distinct (map recent_key (?new # ?rest))"
    by simp
  then have "distinct (map recent_key (take MAX_ITEMS (?new # ?rest)))"
    unfolding take_map [symmetric] by (rule distinct_take)
  then show ?thesis
    by (simp add: recent_ok_def saveRecentFile_next_def)
qed

lemma touchRecent_next_keys:
  "map recent_key (touchRecent_next now name sz items) = map recent_key items"
  by (induction items) (auto simp: touchRecent_next_def recent_key_def)

lemma touchRecent_next_ok:
  "recent_ok items \<Longrightarrow> recent_ok (touchRecent_next now name sz items)"
  unfolding recent_ok_def touchRecent_next_keys
  by (simp add: touchRecent_next_def)

lemma recent_step_ok:
  assumes "recent_ok (getRecentFiles st)"
  shows "recent_ok (getRecentFiles (recent_step st opn))"
proof (cases opn)
  case (Save now name sz content)
  show ?thesis
  proof (cases "saveRecentFile now name sz content st")
    case (Inl e)
    then show ?thesis using Save assms by (simp add: swallow_def)
  next
    case (Inr st')
    then have "getRecentFiles st' = saveRecentFile_next now name sz content (getRecentFiles st)"
      by (simp add: saveRecentFile_def getRecentFiles_setItem)
    then show ?thesis
      using Save Inr assms saveRecentFile_next_ok [of "getRecentFiles st" now name sz content]
      by (simp add: swallow_def recent_ok_def)
  qed
next
  case (Touch now name sz)
  show ?thesis
  proof (cases "touchRecent now name sz st")
    case (Inl e)
    then show ?thesis using Touch assms by (simp add: swallow_def)
  next
    case (Inr st')
    then have "getRecentFiles st' = touchRecent_next now name sz (getRecentFiles st)"
      by (simp add: touchRecent_def getRecentFiles_setItem)
    then show ?thesis
      using Touch Inr assms
      by (simp add: swallow_def touchRecent_next_ok)
  qed
qed

lemma recent_history_ok:
  "recent_ok (getRecentFiles st) \<Longrightarrow> recent_ok (getRecentFiles (foldl recent_step st ops))"
  by (induction ops arbitrary: st) (auto simp: recent_step_ok)

lemma saveRecentFile_front:
  assumes "saveRecentFile now name sz content st = Inr st'"
  shows "getRecentFiles st' =
     \<lparr>it_name = name, it_size = sz, it_lastOpened = now, it_content = inlineContent_of content\<rparr>
       # take (MAX_ITEMS - 1) (filter (\<lambda>it. recent_key it \<noteq> (name, sz)) (getRecentFiles st))"
proof -
  have "getRecentFiles st' = saveRecentFile_next now name sz content (getRecentFiles st)"
    using assms by (simp add: saveRecentFile_def getRecentFiles_setItem)
  moreover have "(\<lambda>it. \<not> (it_name it = name \<and> it_size it = sz)) = (\<lambda>it. recent_key it \<noteq> (name, sz))"
    by (auto simp: recent_key_def)
  ultimately show ?thesis
    by (simp add: saveRecentFile_next_def MAX_ITEMS_def)
qed

lemma touchRecent_in_place:
  assumes "touchRecent now name sz st = Inr st'"
  shows "getRecentFiles st' =
     map (\<lambda>it. if recent_key it = (name, sz) then it\<lparr>it_lastOpened := now\<rparr> else it) (getRecentFiles st)"
proof -
  have "getRecentFiles st' = touchRecent_next now name sz (getRecentFiles st)"
    using assms by (simp add: touchRecent_def getRecentFiles_setItem)
  then show ?thesis
    by (simp add: touchRecent_next_def recent_key_def)
qed

text \<open>
  Claim C4, as the code has it.  Along every history of guarded saves and touches that
  starts from a list within the cap and without two entries of the same (name, size),
  the list stays within \<open>MAX_ITEMS\<close> and without such duplicates.  A successful
  \<^verbatim>\<open>saveRecentFile\<close> puts the entry at the front with the new timestamp and drops the
  older entry of that (name, size).  A successful \<^verbatim>\<open>touchRecent\<close> updates the timestamp of
  the entry where it stands: no entry moves.
\<close>

theorem recent_files_list:
  assumes "recent_ok (getRecentFiles st)"
  shows "recent_ok (getRecentFiles (foldl recent_step st ops))
    \<and> (saveRecentFile now name sz content st = Inr st1 \<longrightarrow>
         getRecentFiles st1 =
           \<lparr>it_name = name, it_size = sz, it_lastOpened = now, it_content = inlineContent_of content\<rparr>
             # take (MAX_ITEMS - 1) (filter (\<lambda>it. recent_key it \<noteq> (name, sz)) (getRecentFiles st)))
    \<and> (touchRecent now name sz st = Inr st2 \<longrightarrow>
         getRecentFiles st2 =
           map (\<lambda>it. if recent_key it = (name, sz) then it\<lparr>it_lastOpened := now\<rparr> else it)
             (getRecentFiles st))"
proof (intro conjI impI)
  show "recent_ok (getRecentFiles (foldl recent_step st ops))"
    using assms by (rule recent_history_ok)
next
  assume "saveRecentFile now name sz content st = Inr st1"
  then show "getRecentFiles st1 =
           \<lparr>it_name = name, it_size = sz, it_lastOpened = now, it_content = inlineContent_of content\<rparr>
             # take (MAX_ITEMS - 1) (filter (\<lambda>it. recent_key it \<noteq> (name, sz)) (getRecentFiles st))"
    by (rule saveRecentFile_front)
next
  assume "touchRecent now name sz st = Inr st2"
  then show "getRecentFiles st2 =
           map (\<lambda>it. if recent_key it = (name, sz) then it\<lparr>it_lastOpened := now\<rparr> else it)
             (getRecentFiles st)"
    by (rule touchRecent_in_place)
qed

lemma recent_example_items:
  "getRecentFiles recent_example =
     [\<lparr>it_name = ''a.json'', it_size = 10, it_lastOpened = 1, it_content = None\<rparr>,
      \<lparr>it_name = ''b.json'', it_size = 20, it_lastOpened = 2, it_content = None\<rparr>]"
  by (simp add: recent_example_def getRecentFiles_def getRecentFiles_try_def getItem_def raw_or_empty_array_def)

text \<open>
  Claim C4 as stated fails for \<^verbatim>\<open>touchRecent\<close>: touching the second of two entries leaves
  it second.
\<close>

theorem touchRecent_keeps_position:
  "map it_name (getRecentFiles (recent_step recent_example (Touch 99 ''b.json'' 20))) = [''a.json'', ''b.json'']
   \<and> map it_lastOpened (getRecentFiles (recent_step recent_example (Touch 99 ''b.json'' 20))) = [1, 99]"
proof -
  have "\<exists>st'. touchRecent 99 ''b.json'' 20 recent_example = Inr st'"
    by (simp add: touchRecent_def setItem_def recent_example_def)
  then obtain st' where s: "touchRecent 99 ''b.json'' 20 recent_example = Inr st'" by blast
  then have "getRecentFiles st' = touchRecent_next 99 ''b.json'' 20 (getRecentFiles recent_example)"
    by (simp add: touchRecent_def getRecentFiles_setItem)
  then show ?thesis
    using s by (simp add: swallow_def recent_example_items touchRecent_next_def)
qed

text \<open>The theorem of claim C4 at the two-entry store.\<close>

theorem recent_files_list_witness:
  "recent_ok (getRecentFiles recent_example)
   \<and> recent_ok (getRecentFiles (foldl recent_step recent_example
        [Save 5 ''b.json'' 20 (Some ''{}''), Touch 6 ''a.json'' 10]))
   \<and> (\<exists>st1. saveRecentFile 5 ''b.json'' 20 (Some ''{}'') recent_example = Inr st1
        \<and> getRecentFiles st1 =
          [\<lparr>it_name = ''b.json'', it_size = 20, it_lastOpened = 5, it_content = Some ''{}''\<rparr>,
           \<lparr>it_name = ''a.json'', it_size = 10, it_lastOpened = 1, it_content = None\<rparr>])
   \<and> (\<exists>st2. touchRecent 5 ''b.json'' 20 recent_example = Inr st2
        \<and> getRecentFiles st2 =
          [\<lparr>it_name = ''a.json'', it_size = 10, it_lastOpened = 1, it_content = None\<rparr>,
           \<lparr>it_name = ''b.json'', it_size = 20, it_lastOpened = 5, it_content = None\<rparr>])"
proof -
  have ok: "recent_ok (getRecentFiles recent_example)"
    by (simp add: recent_example_items recent_ok_def MAX_ITEMS_def recent_key_def)
  obtain st1 where s1: "saveRecentFile 5 ''b.json'' 20 (Some ''{}'') recent_example = Inr st1"
    by (simp add: saveRecentFile_def setItem_def recent_example_def)
  obtain st2 where s2: "touchRecent 5 ''b.json'' 20 recent_example = Inr st2"
    by (simp add: touchRecent_def setItem_def recent_example_def)
  note th = recent_files_list [OF ok, where ops = "[Save 5 ''b.json'' 20 (Some ''{}''), Touch 6 ''a.json'' 10]"
      and now = 5 and name = "''b.json''" and sz = 20 and content = "Some ''{}''" and ?st1.0 = st1 and ?st2.0 = st2]
  show ?thesis
    using ok th s1 s2
    by (simp add: recent_example_items recent_key_def MAX_ITEMS_def inlineContent_of_def MAX_INLINE_BYTES_def)
qed

section \<open>Properties of the preference store\<close>

text \<open>
  Claim C9, as the code has it.  When the store cannot be read or holds nothing under
  the key, \<^verbatim>\<open>getPreference\<close> returns the default passed by the caller if there is one and
  the declared default of the key otherwise.  A text that is present is never checked:
  a boolean key reads as true exactly when the text is \<^verbatim>\<open>"true"\<close>, a string key reads as
  the text itself.
\<close>

theorem getPreference_cases:
  "getPreference Unavailable key d = default_for key d
   \<and> getPreference (Available (m(PREFIX @ key_string key := None))) key d = default_for key d
   \<and> default_for key None = DEFAULT_PREFERENCES key
   \<and> default_for key (Some v) = v
   \<and> getPreference (Available (m(PREFIX @ key_string key \<mapsto> stored))) key d =
       (if key \<in> {AggressiveOptimization, Loop, IgnoreOpacity, ShowFrame, CardCollapsed}
        then PBool (stored = ''true'') else PString stored)"
  by (cases key) (simp_all add: getPreference_def getItem_def default_for_def)

text \<open>
  Claim C9 as stated fails on a malformed boolean: \<^verbatim>\<open>loop\<close> is declared true by default,
  and the stored text \<^verbatim>\<open>"yes"\<close> reads as false.
\<close>

theorem getPreference_malformed_boolean:
  "getPreference (Available (Map.empty(''lottie-converter-loop'' \<mapsto> ''yes''))) Loop None = PBool False
   \<and> DEFAULT_PREFERENCES Loop = PBool True"
  by (simp add: getPreference_def getItem_def PREFIX_def)

section \<open>The example state is reached by loading the example file\<close>

lemma name_a: "isJson ''a.json''" "strip_ext ''.json'' ''a.json'' = ''a''"
  by (simp_all add: isJson_def strip_ext_def endsWith_def toLowerCase_def lower_char_def suffix_def)

lemma handle_example:
  "handleFile 1 example_file initial =
    (None, initial\<lparr>originalFilename := Some ''a'', originalFileExt := Some ''.json'',
       fileSizeBytes := Some 2048, currentFileName := Some ''a.json'', currentFileSize := Some 2048,
       animationData := Truthy example_data,
       lottieContainer := Some \<lparr>c_svg = Some example_svg, c_visible = False, c_rect = (1600, 900)\<rparr>,
       animationInstance :=
         Some \<lparr>inst_totalFrames = 100, inst_currentFrame = 0, inst_loop = True, inst_isPaused = True,
               inst_shows = of_int, inst_enterFrame = False\<rparr>,
       recentStore := Available (Map.empty(RECENT_KEY \<mapsto> Encodes (JArray
          [\<lparr>it_name = ''a.json'', it_size = 2048, it_lastOpened = 1, it_content = Some ''{}''\<rparr>])))\<rparr>)"
  by (simp add: handleFile_def reader_onload_def name_a example_file_def initial_def
      loadLottieAnimation_def save_recent_def saveRecentFile_def getRecentFiles_def getRecentFiles_try_def
      getItem_def raw_or_empty_array_def setItem_def JSON_stringify_def saveRecentFile_next_def
      swallow_def inlineContent_of_def MAX_INLINE_BYTES_def MAX_ITEMS_def example_data_def)



lemma example_loaded_reached: "onDOMLoaded 2 (snd (handleFile 1 example_file initial)) = example_loaded"
  unfolding handle_example snd_conv
  by (simp add: onDOMLoaded_def initial_def updateSliderMax_def frameSlider_input_def
      set_value_def set_max_def range_input_def
      instance_goToAndStop_def goToAndStop_def applyZoom_def svg_of_def set_svg_def fitToContainer_def position_style_def
      intrinsic_width_def intrinsic_height_def num_or_def opt_or0_def opt_or_def truthy_def
      data_field_def example_data_def example_svg_def xShift_def yShift_def getFitPaddingPx_def
      getRemInPixels_def toFixed2_def updateFrameOutlineAppearance_def touchRecentIfNeeded_def
      touchRecent_def touchRecent_next_def getRecentFiles_def getRecentFiles_try_def getItem_def
      raw_or_empty_array_def setItem_def JSON_stringify_def swallow_def waitForSvgAndReveal_def
      applyFrameOutline_def applyOpacityOverride_def set_visible_def example_loaded_def viewBox_width_def)

lemma fraction_loaded_reached:
  "onDOMLoaded 2 (snd (handleFile 1 fraction_file initial)) = fraction_loaded"
proof -
  have h: "handleFile 1 fraction_file initial =
    (None, initial\<lparr>originalFilename := Some ''a'', originalFileExt := Some ''.json'',
       fileSizeBytes := Some 2048, currentFileName := Some ''a.json'', currentFileSize := Some 2048,
       animationData := Truthy fraction_data,
       lottieContainer := Some \<lparr>c_svg = Some fraction_svg, c_visible = False, c_rect = (1600, 900)\<rparr>,
       animationInstance :=
         Some \<lparr>inst_totalFrames = 100, inst_currentFrame = 0, inst_loop = True, inst_isPaused = True,
               inst_shows = of_int, inst_enterFrame = False\<rparr>,
       recentStore := Available (Map.empty(RECENT_KEY \<mapsto> Encodes (JArray
          [\<lparr>it_name = ''a.json'', it_size = 2048, it_lastOpened = 1, it_content = Some ''{}''\<rparr>])))\<rparr>)"
    by (simp add: handleFile_def reader_onload_def name_a fraction_file_def initial_def
        loadLottieAnimation_def save_recent_def saveRecentFile_def getRecentFiles_def
        getRecentFiles_try_def getItem_def raw_or_empty_array_def setItem_def JSON_stringify_def
        saveRecentFile_next_def swallow_def inlineContent_of_def MAX_INLINE_BYTES_def MAX_ITEMS_def
        fraction_data_def)
  show ?thesis
    unfolding h snd_conv
    by (simp add: onDOMLoaded_def initial_def updateSliderMax_def frameSlider_input_def
        set_value_def set_max_def range_input_def
        instance_goToAndStop_def goToAndStop_def applyZoom_def svg_of_def set_svg_def
        fitToContainer_def position_style_def
        intrinsic_width_def intrinsic_height_def num_or_def opt_or0_def opt_or_def truthy_def
        data_field_def fraction_data_def fraction_svg_def xShift_def yShift_def getFitPaddingPx_def
        getRemInPixels_def toFixed2_def updateFrameOutlineAppearance_def touchRecentIfNeeded_def
        touchRecent_def touchRecent_next_def getRecentFiles_def getRecentFiles_try_def getItem_def
        raw_or_empty_array_def setItem_def JSON_stringify_def swallow_def waitForSvgAndReveal_def
        applyFrameOutline_def applyOpacityOverride_def set_visible_def fraction_loaded_def
        fraction_shown_def example_loaded_def viewBox_width_def)
      (simp add: Let_def)
qed

section \<open>What the redraw helpers leave alone\<close>

lemma core_set_svg: "core (set_svg svg c) = core c"
  by (simp add: core_def set_svg_def split: option.splits)

lemma core_updateFrameOutlineAppearance: "core (updateFrameOutlineAppearance c) = core c"
  by (simp add: updateFrameOutlineAppearance_def core_set_svg Let_def split: option.splits)

lemma core_applyZoom: "core (applyZoom c) = core c"
  by (simp add: applyZoom_def core_updateFrameOutlineAppearance core_set_svg Let_def split: option.splits)

lemma core_applyFrameOutline: "core (applyFrameOutline c) = core c"
  by (simp add: applyFrameOutline_def core_updateFrameOutlineAppearance core_set_svg Let_def split: option.splits)

lemma core_applyOpacityOverride: "core (applyOpacityOverride c) = core c"
  by (simp add: applyOpacityOverride_def core_set_svg split: option.splits)

lemma core_set_visible: "core (set_visible v c) = core c"
  by (simp add: core_def set_visible_def split: option.splits)

lemma core_waitForSvgAndReveal: "core (waitForSvgAndReveal c) = core c"
  by (simp add: waitForSvgAndReveal_def core_set_visible core_applyOpacityOverride
      core_updateFrameOutlineAppearance core_applyFrameOutline core_applyZoom split: option.splits)

lemma core_touchRecentIfNeeded: "core (touchRecentIfNeeded now c) = core c"
  by (simp add: touchRecentIfNeeded_def core_def Let_def split: option.splits prod.splits)

lemma core_updateTriggerLabel: "core (updateTriggerLabel p c) = core c"
  by (simp add: updateTriggerLabel_def core_def)

lemma core_fields:
  assumes "core a = core b"
  shows "animationInstance a = animationInstance b" "totalFrames a = totalFrames b"
    "currentFrame a = currentFrame b" "frameSlider a = frameSlider b"
    "zoomMode a = zoomMode b" "zoomPercent a = zoomPercent b"
    "panOffsetX a = panOffsetX b" "panOffsetY a = panOffsetY b"
    "width a = width b" "height a = height b" "previewRect a = previewRect b"
    "rootFontSize a = rootFontSize b" "isLooping a = isLooping b"
    "animationData a = animationData b" "fps a = fps b"
    "rasterScaleSlider a = rasterScaleSlider b" "compressionSlider a = compressionSlider b"
    "exportFormatSelect a = exportFormatSelect b" "originalFilename a = originalFilename b"
    "frameOutlineOn a = frameOutlineOn b" "isPlaying a = isPlaying b"
proof -
  have "animationInstance (core a) = animationInstance (core b)" using assms by simp
  then show "animationInstance a = animationInstance b" by (simp add: core_def)
  have "totalFrames (core a) = totalFrames (core b)" using assms by simp
  then show "totalFrames a = totalFrames b" by (simp add: core_def)
  have "currentFrame (core a) = currentFrame (core b)" using assms by simp
  then show "currentFrame a = currentFrame b" by (simp add: core_def)
  have "frameSlider (core a) = frameSlider (core b)" using assms by simp
  then show "frameSlider a = frameSlider b" by (simp add: core_def)
  have "zoomMode (core a) = zoomMode (core b)" using assms by simp
  then show "zoomMode a = zoomMode b" by (simp add: core_def)
  have "zoomPercent (core a) = zoomPercent (core b)" using assms by simp
  then show "zoomPercent a = zoomPercent b" by (simp add: core_def)
  have "panOffsetX (core a) = panOffsetX (core b)" using assms by simp
  then show "panOffsetX a = panOffsetX b" by (simp add: core_def)
  have "panOffsetY (core a) = panOffsetY (core b)" using assms by simp
  then show "panOffsetY a = panOffsetY b" by (simp add: core_def)
  have "width (core a) = width (core b)" using assms by simp
  then show "width a = width b" by (simp add: core_def)
  have "height (core a) = height (core b)" using assms by simp
  then show "height a = height b" by (simp add: core_def)
  have "previewRect (core a) = previewRect (core b)" using assms by simp
  then show "previewRect a = previewRect b" by (simp add: core_def)
  have "rootFontSize (core a) = rootFontSize (core b)" using assms by simp
  then show "rootFontSize a = rootFontSize b" by (simp add: core_def)
  have "isLooping (core a) = isLooping (core b)" using assms by simp
  then show "isLooping a = isLooping b" by (simp add: core_def)
  have "animationData (core a) = animationData (core b)" using assms by simp
  then show "animationData a = animationData b" by (simp add: core_def)
  have "fps (core a) = fps (core b)" using assms by simp
  then show "fps a = fps b" by (simp add: core_def)
  have "rasterScaleSlider (core a) = rasterScaleSlider (core b)" using assms by simp
  then show "rasterScaleSlider a = rasterScaleSlider b" by (simp add: core_def)
  have "compressionSlider (core a) = compressionSlider (core b)" using assms by simp
  then show "compressionSlider a = compressionSlider b" by (simp add: core_def)
  have "exportFormatSelect (core a) = exportFormatSelect (core b)" using assms by simp
  then show "exportFormatSelect a = exportFormatSelect b" by (simp add: core_def)
  have "originalFilename (core a) = originalFilename (core b)" using assms by simp
  then show "originalFilename a = originalFilename b" by (simp add: core_def)
  have "frameOutlineOn (core a) = frameOutlineOn (core b)" using assms by simp
  then show "frameOutlineOn a = frameOutlineOn b" by (simp add: core_def)
  have "isPlaying (core a) = isPlaying (core b)" using assms by simp
  then show "isPlaying a = isPlaying b" by (simp add: core_def)
qed

lemma padding_core:
  assumes "core a = core b"
  shows "getFitPaddingPx a = getFitPaddingPx b"
  using core_fields(12) [OF assms] by (simp add: getFitPaddingPx_def getRemInPixels_def)

lemma fit_core:
  assumes "core a = core b"
  shows "computeFitScale a = computeFitScale b" "computeFitPercent a = computeFitPercent b"
  unfolding computeFitScale_def computeFitPercent_def
    core_fields(9,10,11) [OF assms] padding_core [OF assms]
  by (rule refl)+

lemma scale_core:
  assumes "core a = core b"
  shows "getCurrentScale a = getCurrentScale b" "currentPercent a = currentPercent b"
    "xShift a = xShift b" "yShift a = yShift b"
  using core_fields(5,6) [OF assms] padding_core [OF assms] fit_core [OF assms]
  by (simp_all add: getCurrentScale_def currentPercent_def xShift_def yShift_def)

section \<open>Scale and wheel arithmetic\<close>

lemma clamp_scale_bounds: "2 / 100 \<le> clamp_scale x \<and> clamp_scale x \<le> 32"
  by (simp add: clamp_scale_def)

lemma fixed_scale_bounds: "2 / 100 \<le> fixed_scale p \<and> fixed_scale p \<le> 32"
  by (cases p) (simp_all add: fixed_scale_def clamp_scale_def)

lemma getCurrentScale_fixed:
  "zoomMode c = Fixed \<Longrightarrow> getCurrentScale c = fixed_scale (percent_or_100 (zoomPercent c))"
  by (simp add: getCurrentScale_def)

lemma getCurrentScale_nonzero: "getCurrentScale c \<noteq> 0"
proof (cases "zoomMode c")
  case Fixed
  then show ?thesis
    using fixed_scale_bounds [of "percent_or_100 (zoomPercent c)"]
    by (simp add: getCurrentScale_fixed)
next
  case Fit
  then show ?thesis by (simp add: getCurrentScale_def num_or_def)
qed

lemma Math_round_of_int: "Math_round (of_int n) = n"
  by (simp add: Math_round_def floor_eq_iff)

lemma Math_round_bounds: "of_int (Math_round x) \<le> x + 1 / 2 \<and> x + 1 / 2 < of_int (Math_round x) + 1"
  unfolding Math_round_def by linarith

lemma round_trip_real:
  fixes f :: real and p :: int
  assumes "1 < f"
  shows "Math_round (of_int (Math_round (of_int p * f)) / f) = p"
proof -
  let ?r = "of_int (Math_round (of_int p * f)) :: real"
  have f0: "0 < f" using assms by simp
  have b: "?r \<le> of_int p * f + 1 / 2" "of_int p * f + 1 / 2 < ?r + 1"
    using Math_round_bounds [of "of_int p * f"] by simp_all
  have lo: "of_int p * f \<le> ?r + f / 2" using b(2) assms by linarith
  have hi: "?r + f / 2 < of_int p * f + f" using b(1) assms by linarith
  have eq: "(?r / f + 1 / 2) * f = ?r + f / 2"
    using f0 by (simp add: distrib_right)
  have "of_int p * f \<le> (?r / f + 1 / 2) * f"
    unfolding eq by (rule lo)
  then have "of_int p \<le> ?r / f + 1 / 2"
    using f0 by (simp only: mult_le_cancel_right_pos)
  moreover have "(?r / f + 1 / 2) * f < (of_int p + 1) * f"
    unfolding eq using hi by (simp add: distrib_right)
  then have "?r / f + 1 / 2 < of_int p + 1"
    using f0 by (simp only: mult_less_cancel_right_pos)
  ultimately show ?thesis
    unfolding Math_round_def [of "?r / f"] by (simp add: floor_eq_iff)
qed

lemma Math_round_mono: "x \<le> y \<Longrightarrow> Math_round x \<le> Math_round y"
  unfolding Math_round_def by (simp add: floor_mono)

lemma wheel_steps_in: "1 \<le> N \<Longrightarrow> wheel_steps (- (100 * real N)) = - int (min N 4)"
proof -
  assume "1 \<le> N"
  have "Math_round (- (100 * real N) / 100) = - int N"
    using Math_round_of_int [of "- int N"] by simp
  then show ?thesis by (simp add: wheel_steps_def)
qed

lemma wheel_steps_out: "1 \<le> N \<Longrightarrow> wheel_steps (100 * real N) = int (min N 4)"
proof -
  assume "1 \<le> N"
  have "Math_round (100 * real N / 100) = int N"
    using Math_round_of_int [of "int N"] by simp
  then show ?thesis by (simp add: wheel_steps_def)
qed

lemma wheel_factor_in:
  assumes "1 \<le> N"
  shows "1 / wheel_factor (- (100 * real N)) = (11 / 10) ^ min N 4"
  using assms wheel_steps_in [OF assms]
  by (simp add: wheel_factor_def zoomFactorPerStep_def power_int_def Let_def field_simps power_divide)

lemma wheel_factor_out:
  assumes "1 \<le> N"
  shows "wheel_factor (100 * real N) = (11 / 10) ^ min N 4"
  using assms wheel_steps_out [OF assms]
  by (simp add: wheel_factor_def zoomFactorPerStep_def power_int_def Let_def)

lemma wheel_round_trip:
  fixes p :: int and N :: nat
  assumes N: "1 \<le> N" and p: "2 \<le> p"
    and fits: "Math_round (of_int p * (11 / 10) ^ min N 4) \<le> 3200"
  shows "wheel_newPercent (wheel_newPercent p (- (100 * real N))) (100 * real N) = p"
proof -
  let ?f = "(11 / 10 :: real) ^ min N 4"
  let ?r = "Math_round (of_int p * ?f)"
  have f1: "1 < ?f" using N by (simp add: one_less_power)
  have "of_int p * 1 \<le> of_int p * ?f" using p f1 by (intro mult_left_mono) simp_all
  then have "Math_round (of_int p) \<le> ?r" by (intro Math_round_mono) simp
  then have pr: "p \<le> ?r" by (simp add: Math_round_of_int)
  have step1: "wheel_newPercent p (- (100 * real N)) = ?r"
    using pr p fits by (simp add: wheel_newPercent_def wheel_factor_in [OF N])
  have "Math_round (of_int ?r / ?f) = p" by (rule round_trip_real [OF f1])
  then have "wheel_newPercent ?r (100 * real N) = p"
    using pr p fits by (simp add: wheel_newPercent_def wheel_factor_out [OF N])
  then show ?thesis by (simp add: step1)
qed

section \<open>The wheel handler\<close>

lemma shift_update [simp]:
  "xShift (c\<lparr>zoomMode := m\<rparr>) = xShift c" "yShift (c\<lparr>zoomMode := m\<rparr>) = yShift c"
  "xShift (c\<lparr>zoomPercent := p\<rparr>) = xShift c" "yShift (c\<lparr>zoomPercent := p\<rparr>) = yShift c"
  by (simp_all add: xShift_def yShift_def getFitPaddingPx_def getRemInPixels_def)

lemma onWheel_core:
  assumes "\<not> overZoomUi e" and "svg_of c = Some svg"
  shows "core (onWheel e c) =
     core (c\<lparr>zoomMode := Fixed,
             zoomPercent := Fin (wheel_newPercent_js (currentPercent c) (deltaY e)),
             panOffsetX :=
               getCurrentScale (c\<lparr>zoomMode := Fixed,
                   zoomPercent := Fin (wheel_newPercent_js (currentPercent c) (deltaY e))\<rparr>)
                 / getCurrentScale c * (panOffsetX c + xShift c) - xShift c,
             panOffsetY :=
               getCurrentScale (c\<lparr>zoomMode := Fixed,
                   zoomPercent := Fin (wheel_newPercent_js (currentPercent c) (deltaY e))\<rparr>)
                 / getCurrentScale c * (panOffsetY c + yShift c) - yShift c\<rparr>)"
  using assms getCurrentScale_nonzero [of c]
  by (simp add: onWheel_def Let_def core_updateFrameOutlineAppearance core_updateTriggerLabel
      core_applyZoom num_or_def)

lemma wheel_newPercent_range: "2 \<le> wheel_newPercent b d \<and> wheel_newPercent b d \<le> 3200"
  by (simp add: wheel_newPercent_def Let_def)

lemma wheel_newPercent_js_range:
  "2 \<le> wheel_newPercent_js b d \<and> wheel_newPercent_js b d \<le> 3200"
  using wheel_newPercent_range by (cases b) (simp_all add: wheel_newPercent_js_def)

lemma onWheel_fields:
  assumes e: "\<not> overZoomUi e" and svg: "svg_of c \<noteq> None" and c': "c' = onWheel e c"
  shows "zoomMode c' = Fixed
    \<and> zoomPercent c' = Fin (wheel_newPercent_js (currentPercent c) (deltaY e))
    \<and> 2 \<le> wheel_newPercent_js (currentPercent c) (deltaY e)
    \<and> wheel_newPercent_js (currentPercent c) (deltaY e) \<le> 3200
    \<and> panOffsetX c' =
        (panOffsetX c + xShift c) * (getCurrentScale c' / getCurrentScale c) - xShift c
    \<and> panOffsetY c' =
        (panOffsetY c + yShift c) * (getCurrentScale c' / getCurrentScale c) - yShift c
    \<and> (panOffsetX c' + xShift c') / getCurrentScale c' = (panOffsetX c + xShift c) / getCurrentScale c
    \<and> (panOffsetY c' + yShift c') / getCurrentScale c' = (panOffsetY c + yShift c) / getCurrentScale c"
proof -
  obtain s where s: "svg_of c = Some s" using svg by blast
  let ?np = "Fin (wheel_newPercent_js (currentPercent c) (deltaY e))"
  let ?c1 = "c\<lparr>zoomMode := Fixed, zoomPercent := ?np\<rparr>"
  let ?R = "getCurrentScale ?c1 / getCurrentScale c"
  let ?c2 = "c\<lparr>zoomMode := Fixed, zoomPercent := ?np,
               panOffsetX := ?R * (panOffsetX c + xShift c) - xShift c,
               panOffsetY := ?R * (panOffsetY c + yShift c) - yShift c\<rparr>"
  have k: "core c' = core ?c2"
    unfolding c' by (rule onWheel_core [OF e s])
  have mode: "zoomMode c' = Fixed" and pct: "zoomPercent c' = ?np"
    and px: "panOffsetX c' = ?R * (panOffsetX c + xShift c) - xShift c"
    and py: "panOffsetY c' = ?R * (panOffsetY c + yShift c) - yShift c"
    using core_fields(5,6,7,8) [OF k] by simp_all
  have sc: "getCurrentScale c' = getCurrentScale ?c1"
    using mode pct by (simp add: getCurrentScale_fixed)
  have sh: "xShift c' = xShift c" "yShift c' = yShift c"
    using scale_core(3,4) [OF k] by (simp_all add: xShift_def yShift_def getFitPaddingPx_def getRemInPixels_def)
  have n0: "getCurrentScale c \<noteq> 0" "getCurrentScale c' \<noteq> 0"
    by (rule getCurrentScale_nonzero)+
  have ax: "(panOffsetX c' + xShift c') / getCurrentScale c' = (panOffsetX c + xShift c) / getCurrentScale c"
    using n0 by (simp add: px sh sc [symmetric])
  have ay: "(panOffsetY c' + yShift c') / getCurrentScale c' = (panOffsetY c + yShift c) / getCurrentScale c"
    using n0 by (simp add: py sh sc [symmetric])
  show ?thesis
    using mode pct px py ax ay wheel_newPercent_js_range [of "currentPercent c" "deltaY e"]
    by (simp add: sc mult.commute)
qed

lemma svg_of_updates [simp]:
  "svg_of (c\<lparr>zoomMode := m\<rparr>) = svg_of c"
  "svg_of (c\<lparr>zoomPercent := p\<rparr>) = svg_of c"
  "svg_of (c\<lparr>panOffsetX := x\<rparr>) = svg_of c"
  "svg_of (c\<lparr>panOffsetY := y\<rparr>) = svg_of c"
  "svg_of (c\<lparr>triggerLabel := l\<rparr>) = svg_of c"
  by (simp_all add: svg_of_def)

lemma svg_of_set_svg: "svg_of c = Some s0 \<Longrightarrow> svg_of (set_svg s c) = Some s"
  by (auto simp: svg_of_def set_svg_def split: option.splits)

lemma svg_of_updateFrameOutlineAppearance:
  assumes "svg_of c = Some s"
  shows "\<exists>ov. svg_of (updateFrameOutlineAppearance c) = Some (s\<lparr>svg_overlay := ov\<rparr>)"
proof (cases "frameOutlineOn c \<and> svg_overlay s \<noteq> None")
  case True
  then obtain r where r: "svg_overlay s = Some r" by blast
  show ?thesis
    using True assms r
    by (auto simp: updateFrameOutlineAppearance_def Let_def svg_of_set_svg)
next
  case False
  have "updateFrameOutlineAppearance c = c"
    using False assms by (auto simp: updateFrameOutlineAppearance_def)
  moreover have "s\<lparr>svg_overlay := svg_overlay s\<rparr> = s" by simp
  ultimately show ?thesis using assms by metis
qed

lemma svg_of_applyZoom_fixed:
  assumes "svg_of c = Some s" and "zoomMode c = Fixed"
  shows "\<exists>ov. svg_of (applyZoom c) =
           Some ((setFixedZoom c s (percent_or_100 (zoomPercent c)))\<lparr>svg_overlay := ov\<rparr>)"
proof -
  have "applyZoom c =
      updateFrameOutlineAppearance (set_svg (setFixedZoom c s (percent_or_100 (zoomPercent c))) c)"
    using assms by (simp add: applyZoom_def)
  moreover have "svg_of (set_svg (setFixedZoom c s (percent_or_100 (zoomPercent c))) c)
      = Some (setFixedZoom c s (percent_or_100 (zoomPercent c)))"
    using assms(1) by (rule svg_of_set_svg)
  ultimately show ?thesis
    using svg_of_updateFrameOutlineAppearance by simp
qed

lemma svg_of_applyZoom_present:
  assumes "svg_of c \<noteq> None"
  shows "svg_of (applyZoom c) \<noteq> None"
proof -
  obtain s where s: "svg_of c = Some s" using assms by blast
  let ?s' = "if zoomMode c = Fit then fitToContainer c s
             else setFixedZoom c s (percent_or_100 (zoomPercent c))"
  have "applyZoom c = updateFrameOutlineAppearance (set_svg ?s' c)"
    using s by (simp add: applyZoom_def)
  moreover have "svg_of (set_svg ?s' c) = Some ?s'"
    using s by (rule svg_of_set_svg)
  ultimately show ?thesis
    using svg_of_updateFrameOutlineAppearance [of "set_svg ?s' c" ?s'] by auto
qed

lemma svg_of_updateFrameOutlineAppearance_present:
  "svg_of c \<noteq> None \<Longrightarrow> svg_of (updateFrameOutlineAppearance c) \<noteq> None"
  using svg_of_updateFrameOutlineAppearance by fastforce

lemma svg_of_onWheel_present:
  assumes "svg_of c \<noteq> None"
  shows "svg_of (onWheel e c) \<noteq> None"
proof (cases "overZoomUi e")
  case True
  then show ?thesis using assms by (simp add: onWheel_def)
next
  case False
  obtain s where s: "svg_of c = Some s" using assms by blast
  show ?thesis
    using False s
    by (simp add: onWheel_def Let_def updateTriggerLabel_def
        svg_of_updateFrameOutlineAppearance_present svg_of_applyZoom_present)
qed

text \<open>
  Claim C5.  A wheel event over the render area (not over the zoom controls) with a
  rendered element, from any zoom mode, pan offset and scale: the controller is in
  fixed mode at the target percentage, which lies in [2, 3200]; each pan coordinate is
  (old pan + centring shift) * (new scale / old scale) - centring shift; and the point of
  the content under the centre of the screen is the same before and after.
\<close>

theorem onWheel_center_anchored:
  assumes "\<not> overZoomUi e" and "svg_of c \<noteq> None" and "c' = onWheel e c"
  shows "zoomMode c' = Fixed
    \<and> zoomPercent c' = Fin (wheel_newPercent_js (currentPercent c) (deltaY e))
    \<and> 2 \<le> wheel_newPercent_js (currentPercent c) (deltaY e)
    \<and> wheel_newPercent_js (currentPercent c) (deltaY e) \<le> 3200
    \<and> panOffsetX c' =
        (panOffsetX c + xShift c) * (getCurrentScale c' / getCurrentScale c) - xShift c
    \<and> panOffsetY c' =
        (panOffsetY c + yShift c) * (getCurrentScale c' / getCurrentScale c) - yShift c
    \<and> (panOffsetX c' + xShift c') / getCurrentScale c' = (panOffsetX c + xShift c) / getCurrentScale c
    \<and> (panOffsetY c' + yShift c') / getCurrentScale c' = (panOffsetY c + yShift c) / getCurrentScale c"
  using assms by (rule onWheel_fields)

lemma example_loaded_svg: "svg_of example_loaded \<noteq> None"
  by (simp add: svg_of_def example_loaded_def)

lemma example_fixed_svg: "svg_of (with_viewport Fixed p x y example_loaded) \<noteq> None"
  by (simp add: svg_of_def example_loaded_def with_viewport_def)

lemma example_fixed_facts:
  "currentPercent (with_viewport Fixed (Fin 100) 30 0 example_loaded) = Fin 100"
  "getCurrentScale (with_viewport Fixed (Fin 100) 30 0 example_loaded) = 1"
  "xShift (with_viewport Fixed (Fin 100) 30 0 example_loaded) = 0"
  "yShift (with_viewport Fixed (Fin 100) 30 0 example_loaded) = - 40"
  "panOffsetX (with_viewport Fixed (Fin 100) 30 0 example_loaded) = 30"
  "panOffsetY (with_viewport Fixed (Fin 100) 30 0 example_loaded) = 0"
  by (simp_all add: with_viewport_def example_loaded_def currentPercent_def percent_or_100_def
      getCurrentScale_def fixed_scale_def clamp_scale_def xShift_def yShift_def getFitPaddingPx_def
      getRemInPixels_def)

lemma wheel_one_notch_in: "wheel_newPercent_js (Fin 100) (- 100) = 110"
  by (simp add: wheel_newPercent_js_def wheel_newPercent_def wheel_factor_def wheel_steps_def
      Math_round_def zoomFactorPerStep_def power_int_def Let_def)

theorem onWheel_center_anchored_witness:
  "\<not> overZoomUi \<lparr>deltaY = - 100, overZoomUi = False\<rparr>
   \<and> svg_of (with_viewport Fixed (Fin 100) 30 0 example_loaded) \<noteq> None
   \<and> zoomMode (onWheel \<lparr>deltaY = - 100, overZoomUi = False\<rparr> (with_viewport Fixed (Fin 100) 30 0 example_loaded)) = Fixed
   \<and> zoomPercent (onWheel \<lparr>deltaY = - 100, overZoomUi = False\<rparr> (with_viewport Fixed (Fin 100) 30 0 example_loaded)) = Fin 110
   \<and> panOffsetX (onWheel \<lparr>deltaY = - 100, overZoomUi = False\<rparr> (with_viewport Fixed (Fin 100) 30 0 example_loaded)) = 33
   \<and> panOffsetY (onWheel \<lparr>deltaY = - 100, overZoomUi = False\<rparr> (with_viewport Fixed (Fin 100) 30 0 example_loaded)) = - 4"
proof -
  let ?e = "\<lparr>deltaY = - 100, overZoomUi = False\<rparr>"
  let ?c = "with_viewport Fixed (Fin 100) 30 0 example_loaded"
  have h1: "\<not> overZoomUi ?e" by simp
  have h2: "svg_of ?c \<noteq> None" by (rule example_fixed_svg)
  note th = onWheel_center_anchored [OF h1 h2 refl]
  have m: "zoomMode (onWheel ?e ?c) = Fixed" and p: "zoomPercent (onWheel ?e ?c) = Fin 110"
    using th by (simp_all add: example_fixed_facts wheel_one_notch_in)
  have sc: "getCurrentScale (onWheel ?e ?c) = 11 / 10"
    using m p by (simp add: getCurrentScale_fixed percent_or_100_def fixed_scale_def clamp_scale_def)
  show ?thesis
    using th h2 by (simp add: example_fixed_facts wheel_one_notch_in sc)
qed

lemma onWheel_twice:
  assumes svg: "svg_of c \<noteq> None"
  shows "zoomPercent (onWheel \<lparr>deltaY = d2, overZoomUi = False\<rparr> (onWheel \<lparr>deltaY = d1, overZoomUi = False\<rparr> c))
      = Fin (wheel_newPercent (wheel_newPercent_js (currentPercent c) d1) d2)"
proof -
  let ?e1 = "\<lparr>deltaY = d1, overZoomUi = False\<rparr>" and ?e2 = "\<lparr>deltaY = d2, overZoomUi = False\<rparr>"
  let ?c1 = "onWheel ?e1 c"
  have f1: "zoomMode ?c1 = Fixed" "zoomPercent ?c1 = Fin (wheel_newPercent_js (currentPercent c) d1)"
    using onWheel_fields [of ?e1 c ?c1] svg by simp_all
  have "wheel_newPercent_js (currentPercent c) d1 \<noteq> 0"
    using wheel_newPercent_js_range [of "currentPercent c" d1] by simp
  then have cur: "currentPercent ?c1 = Fin (wheel_newPercent_js (currentPercent c) d1)"
    using f1 by (simp add: currentPercent_def percent_or_100_def)
  have "svg_of ?c1 \<noteq> None" using svg by (rule svg_of_onWheel_present)
  then have "zoomPercent (onWheel ?e2 ?c1) = Fin (wheel_newPercent_js (currentPercent ?c1) d2)"
    using onWheel_fields [of ?e2 ?c1 "onWheel ?e2 ?c1"] by simp
  then show ?thesis by (simp add: cur wheel_newPercent_js_def)
qed

lemma wheel_clamped_bounds:
  fixes N :: nat
  assumes N: "1 \<le> N"
  shows "2186 \<le> Math_round (3200 / (11 / 10) ^ min N 4)"
    and "Math_round (3200 / (11 / 10) ^ min N 4) \<le> 3200"
proof -
  let ?f = "(11 / 10 :: real) ^ min N 4"
  have f1: "1 < ?f" using N by (simp add: one_less_power)
  have f4: "?f \<le> (11 / 10) ^ 4" by (rule power_increasing) simp_all
  have "3200 / ?f \<le> 3200 / 1" using f1 by (intro divide_left_mono) simp_all
  then have "Math_round (3200 / ?f) \<le> Math_round 3200" by (intro Math_round_mono) simp
  then show "Math_round (3200 / ?f) \<le> 3200"
    using Math_round_of_int [of 3200] by simp
  have "3200 / (11 / 10) ^ 4 \<le> 3200 / ?f" using f1 f4 by (intro divide_left_mono) simp_all
  then have "Math_round (3200 / (11 / 10) ^ 4) \<le> Math_round (3200 / ?f)" by (rule Math_round_mono)
  moreover have "Math_round (3200 / (11 / 10) ^ 4) = 2186"
    by (simp add: Math_round_def floor_eq_iff power4_eq_xxxx)
  ultimately show "2186 \<le> Math_round (3200 / ?f)" by simp
qed

lemma wheel_clamped_trip:
  fixes p :: int and N :: nat
  assumes N: "1 \<le> N" and p: "2 \<le> p"
    and over: "3200 < Math_round (of_int p * (11 / 10) ^ min N 4)"
  shows "wheel_newPercent (wheel_newPercent p (- (100 * real N))) (100 * real N)
           = Math_round (3200 / (11 / 10) ^ min N 4)"
    and "Math_round (3200 / (11 / 10) ^ min N 4) \<le> p"
proof -
  let ?f = "(11 / 10 :: real) ^ min N 4"
  let ?r = "Math_round (of_int p * ?f)"
  have f1: "1 < ?f" using N by (simp add: one_less_power)
  have step1: "wheel_newPercent p (- (100 * real N)) = 3200"
    using over by (simp add: wheel_newPercent_def wheel_factor_in [OF N])
  have "wheel_newPercent 3200 (100 * real N) = Math_round (3200 / ?f)"
    using wheel_clamped_bounds [OF N]
    by (simp add: wheel_newPercent_def wheel_factor_out [OF N])
  then show "wheel_newPercent (wheel_newPercent p (- (100 * real N))) (100 * real N) = Math_round (3200 / ?f)"
    by (simp only: step1)
  have "of_int (3200 :: int) / ?f \<le> of_int ?r / ?f"
    using over f1 by (intro divide_right_mono) simp_all
  then have "Math_round (of_int (3200 :: int) / ?f) \<le> Math_round (of_int ?r / ?f)"
    by (rule Math_round_mono)
  then show "Math_round (3200 / ?f) \<le> p"
    using round_trip_real [OF f1, of p] by simp
qed

text \<open>
  Claim C6, as the code has it.  From a percentage \<open>p\<close> of at least 2, a wheel zoom-in of
  N notches followed by a wheel zoom-out of N notches (an event of more than four
  notches counts as four; \<open>f\<close> is 1.1 to the power min(N, 4)): when the zoom-in is not
  clamped, that is round(p * f) is at most 3200, the percentage is exactly \<open>p\<close> again;
  when it is clamped at 3200, the percentage is round(3200 / f), which is at least 2186
  and at most \<open>p\<close>.
\<close>

theorem wheel_zoom_reversal:
  assumes "svg_of c \<noteq> None" and "1 \<le> N" and "currentPercent c = Fin p" and "2 \<le> p"
  shows "zoomPercent (onWheel \<lparr>deltaY = 100 * real N, overZoomUi = False\<rparr>
                       (onWheel \<lparr>deltaY = - (100 * real N), overZoomUi = False\<rparr> c))
         = Fin (if Math_round (of_int p * (11 / 10) ^ min N 4) \<le> 3200 then p
                else Math_round (3200 / (11 / 10) ^ min N 4))
     \<and> 2186 \<le> Math_round (3200 / (11 / 10) ^ min N 4)
     \<and> (3200 < Math_round (of_int p * (11 / 10) ^ min N 4) \<longrightarrow>
          Math_round (3200 / (11 / 10) ^ min N 4) \<le> p)"
proof (cases "Math_round (of_int p * (11 / 10) ^ min N 4) \<le> 3200")
  case True
  show ?thesis
    using True wheel_clamped_bounds(1) [OF assms(2)] assms
    by (simp add: onWheel_twice wheel_newPercent_js_def wheel_round_trip)
next
  case False
  then have over: "3200 < Math_round (of_int p * (11 / 10) ^ min N 4)" by simp
  note t = wheel_clamped_trip [OF assms(2) assms(4) over]
  show ?thesis
    using False t wheel_clamped_bounds(1) [OF assms(2)] assms(1,3)
    by (simp add: onWheel_twice wheel_newPercent_js_def)
qed

lemma wheel_at_upper_bound:
  "wheel_newPercent 3200 (- 100) = 3200" "wheel_newPercent 3200 100 = 2909"
  by (simp_all add: wheel_newPercent_def wheel_factor_def wheel_steps_def Math_round_def
      zoomFactorPerStep_def power_int_def Let_def)

lemma example_3200_percent:
  "currentPercent (with_viewport Fixed (Fin 3200) 0 0 example_loaded) = Fin 3200"
  by (simp add: with_viewport_def example_loaded_def currentPercent_def percent_or_100_def)

text \<open>
  Claim C6 as stated fails at the upper bound: from 3200 per cent, one notch in stays at
  3200 (clamped) and one notch out gives 2909.
\<close>

theorem wheel_zoom_reversal_clamped:
  "zoomPercent (onWheel \<lparr>deltaY = 100, overZoomUi = False\<rparr>
     (onWheel \<lparr>deltaY = - 100, overZoomUi = False\<rparr> (with_viewport Fixed (Fin 3200) 0 0 example_loaded)))
     = Fin 2909
   \<and> currentPercent (with_viewport Fixed (Fin 3200) 0 0 example_loaded) = Fin 3200"
  using onWheel_twice [OF example_fixed_svg, where p1 = "Fin 3200" and x1 = 0 and y1 = 0
      and ?d1.0 = "- 100" and ?d2.0 = 100]
  by (simp add: example_3200_percent wheel_newPercent_js_def wheel_at_upper_bound)

lemma example_2186_percent:
  "currentPercent (with_viewport Fixed (Fin 2186) 0 0 example_loaded) = Fin 2186"
  by (simp add: with_viewport_def example_loaded_def currentPercent_def percent_or_100_def)

text \<open>The theorem of claim C6 from 100 per cent, two notches: 100, 121, 100; and from
  2186 per cent, four notches, where the zoom-in is clamped: 2186, 3200, 2186.\<close>

theorem wheel_zoom_reversal_witness:
  "svg_of (with_viewport Fixed (Fin 100) 30 0 example_loaded) \<noteq> None
   \<and> (1::nat) \<le> 2
   \<and> currentPercent (with_viewport Fixed (Fin 100) 30 0 example_loaded) = Fin 100
   \<and> (2::int) \<le> 100
   \<and> zoomPercent (onWheel \<lparr>deltaY = 200, overZoomUi = False\<rparr>
        (onWheel \<lparr>deltaY = - 200, overZoomUi = False\<rparr> (with_viewport Fixed (Fin 100) 30 0 example_loaded)))
       = Fin 100
   \<and> svg_of (with_viewport Fixed (Fin 2186) 0 0 example_loaded) \<noteq> None
   \<and> currentPercent (with_viewport Fixed (Fin 2186) 0 0 example_loaded) = Fin 2186
   \<and> Math_round (2186 * (11 / 10) ^ 4) = 3201
   \<and> zoomPercent (onWheel \<lparr>deltaY = 400, overZoomUi = False\<rparr>
        (onWheel \<lparr>deltaY = - 400, overZoomUi = False\<rparr> (with_viewport Fixed (Fin 2186) 0 0 example_loaded)))
       = Fin 2186"
proof -
  let ?c = "with_viewport Fixed (Fin 100) 30 0 example_loaded"
  let ?d = "with_viewport Fixed (Fin 2186) 0 0 example_loaded"
  have h1: "svg_of ?c \<noteq> None" "svg_of ?d \<noteq> None" by (rule example_fixed_svg)+
  have h2: "(1::nat) \<le> 2" "(1::nat) \<le> 4" by simp_all
  have h3: "currentPercent ?c = Fin 100" by (simp add: example_fixed_facts)
  have h4: "currentPercent ?d = Fin 2186" by (rule example_2186_percent)
  have r1: "Math_round (100 * (11 / 10) ^ 2) = 121"
    by (simp add: Math_round_def floor_eq_iff power2_eq_square)
  have r2: "Math_round (2186 * (11 / 10) ^ 4) = 3201"
    by (simp add: Math_round_def floor_eq_iff power4_eq_xxxx)
  have r3: "Math_round (3200 / (11 / 10) ^ 4) = 2186"
    by (simp add: Math_round_def floor_eq_iff power4_eq_xxxx)
  have a: "zoomPercent (onWheel \<lparr>deltaY = 200, overZoomUi = False\<rparr>
        (onWheel \<lparr>deltaY = - 200, overZoomUi = False\<rparr> ?c)) = Fin 100"
    using wheel_zoom_reversal [OF h1(1) h2(1) h3] r1 by simp
  have b: "zoomPercent (onWheel \<lparr>deltaY = 400, overZoomUi = False\<rparr>
        (onWheel \<lparr>deltaY = - 400, overZoomUi = False\<rparr> ?d)) = Fin 2186"
    using wheel_zoom_reversal [OF h1(2) h2(2) h4] r2 r3 by simp
  show ?thesis
    using a b h1 h3 h4 r2 by simp
qed

lemma core_setPercent: "core (setPercent p c) = core (c\<lparr>zoomMode := Fixed, zoomPercent := p\<rparr>)"
  by (simp add: setPercent_def core_updateFrameOutlineAppearance core_updateTriggerLabel core_applyZoom)

lemma setPercent_fields: "zoomMode (setPercent p c) = Fixed" "zoomPercent (setPercent p c) = p"
  using core_fields(5,6) [OF core_setPercent, of p c] by simp_all

lemma handleSelectChange_zoom_in:
  "zoomPercent (handleSelectChange ''zoom-in'' c) \<in> {Fin 50, Fin 100, Fin 200, Fin 400}"
  by (simp add: handleSelectChange_def Let_def setPercent_fields)

lemma handleSelectChange_zoom_out:
  "zoomPercent (handleSelectChange ''zoom-out'' c) \<in> {Fin 25, Fin 50, Fin 100, Fin 200}"
  by (simp add: handleSelectChange_def Let_def setPercent_fields)

lemma handleSelectChange_numeric:
  assumes "v \<noteq> ''zoom-in''" "v \<noteq> ''zoom-out''" "v \<noteq> ''fit''" "parseInt v = Some n"
  shows "zoomMode (handleSelectChange v c) = Fixed" "zoomPercent (handleSelectChange v c) = n"
  using assms by (simp_all add: handleSelectChange_def Let_def setPercent_fields)

lemma applyZoom_fixed_scale:
  assumes "zoomMode c = Fixed" and "svg_of c \<noteq> None"
  shows "\<exists>svg' sty. svg_of (applyZoom c) = Some svg' \<and> svg_style svg' = Some sty
     \<and> st_scale sty = fixed_scale (percent_or_100 (zoomPercent c))"
proof -
  obtain s where s: "svg_of c = Some s" using assms(2) by blast
  obtain ov where "svg_of (applyZoom c) =
      Some ((setFixedZoom c s (percent_or_100 (zoomPercent c)))\<lparr>svg_overlay := ov\<rparr>)"
    using svg_of_applyZoom_fixed [OF s assms(1)] by blast
  then show ?thesis
    by (simp add: setFixedZoom_def position_style_def Let_def)
qed

text \<open>
  What holds of the fixed zoom.  In fixed zoom mode the scale of the transform written
  by \<^verbatim>\<open>applyZoom\<close>, and the scale \<^verbatim>\<open>getCurrentScale\<close> reports, is percent / 100 clamped to
  [0.02, 32], for the stored percentage (a stored 0 counts as 100).  A wheel zoom stores
  a percentage within [2, 3200], and the zoom-in and zoom-out entries of the zoom
  control store one of 25, 50, 100, 200, 400.
\<close>

lemma fixed_zoom_scale:
  "(zoomMode c = Fixed \<and> svg_of c \<noteq> None \<and> zoomPercent c = Fin p \<and> p \<noteq> 0 \<longrightarrow>
      (\<exists>svg' sty. svg_of (applyZoom c) = Some svg' \<and> svg_style svg' = Some sty
         \<and> st_scale sty = max (2 / 100) (min 32 (of_int p / 100))))
   \<and> (zoomMode c = Fixed \<and> zoomPercent c = Fin p \<longrightarrow>
        getCurrentScale c = max (2 / 100) (min 32 (of_int (if p = 0 then 100 else p) / 100)))
   \<and> (\<not> overZoomUi e \<and> svg_of c \<noteq> None \<longrightarrow>
        zoomMode (onWheel e c) = Fixed
        \<and> (\<exists>q. zoomPercent (onWheel e c) = Fin q \<and> 2 \<le> q \<and> q \<le> 3200))
   \<and> zoomPercent (handleSelectChange ''zoom-in'' c) \<in> {Fin 50, Fin 100, Fin 200, Fin 400}
   \<and> zoomPercent (handleSelectChange ''zoom-out'' c) \<in> {Fin 25, Fin 50, Fin 100, Fin 200}"
proof (intro conjI impI)
  assume a: "zoomMode c = Fixed \<and> svg_of c \<noteq> None \<and> zoomPercent c = Fin p \<and> p \<noteq> 0"
  then show "\<exists>svg' sty. svg_of (applyZoom c) = Some svg' \<and> svg_style svg' = Some sty
         \<and> st_scale sty = max (2 / 100) (min 32 (of_int p / 100))"
    using applyZoom_fixed_scale [of c] by (simp add: percent_or_100_def fixed_scale_def clamp_scale_def)
next
  assume "zoomMode c = Fixed \<and> zoomPercent c = Fin p"
  then show "getCurrentScale c = max (2 / 100) (min 32 (of_int (if p = 0 then 100 else p) / 100))"
    by (simp add: getCurrentScale_fixed percent_or_100_def fixed_scale_def clamp_scale_def)
next
  assume a: "\<not> overZoomUi e \<and> svg_of c \<noteq> None"
  then show "zoomMode (onWheel e c) = Fixed"
    using onWheel_fields [of e c "onWheel e c"] by simp
  from a show "\<exists>q. zoomPercent (onWheel e c) = Fin q \<and> 2 \<le> q \<and> q \<le> 3200"
    using onWheel_fields [of e c "onWheel e c"] by simp
next
  show "zoomPercent (handleSelectChange ''zoom-in'' c) \<in> {Fin 50, Fin 100, Fin 200, Fin 400}"
    by (rule handleSelectChange_zoom_in)
next
  show "zoomPercent (handleSelectChange ''zoom-out'' c) \<in> {Fin 25, Fin 50, Fin 100, Fin 200}"
    by (rule handleSelectChange_zoom_out)
qed

lemma strip_white_none: "white_len s = 0 \<Longrightarrow> strip_white s = s"
  by (subst strip_white.simps) simp

lemma strip_white_some:
  "white_len s \<noteq> 0 \<Longrightarrow> strip_white s = strip_white (drop (white_len s) s)"
  by (subst strip_white.simps) simp

lemma white_len_digit: "digit_of c \<noteq> None \<Longrightarrow> white_len (c # cs) = 0"
  by (auto simp: white_len_def white_spaces_def digit_of_def split: if_splits)

lemma parseInt_5000: "parseInt ''5000'' = Some (Fin 5000)"
  by (simp add: parseInt_def strip_white_none white_len_digit digit_of_def parse_digits_def
      to_double_def)

text \<open>\<^verbatim>\<open>parseInt\<close> skips a no-break space (U+00A0), and rounds 2^53 + 1 to 2^53.\<close>

lemma parseInt_nbsp_150:
  "parseInt [CHR 0xC2, CHR 0xA0, CHR ''1'', CHR ''5'', CHR ''0''] = Some (Fin 150)"
proof -
  have "white_len [CHR 0xC2, CHR 0xA0, CHR ''1'', CHR ''5'', CHR ''0''] = 2"
    by (simp add: white_len_def white_spaces_def)
  then show ?thesis
    by (simp add: parseInt_def strip_white_some strip_white_none white_len_digit digit_of_def
        parse_digits_def to_double_def)
qed

lemma parseInt_2_53_plus_1: "parseInt ''9007199254740993'' = Some (Fin 9007199254740992)"
proof -
  have b: "bit_length 9007199254740993 = 54"
    by (simp add: bit_length.simps)
  have "to_double 9007199254740993 = Fin 9007199254740992"
    by (simp add: to_double_def b Let_def)
  then show ?thesis
    by (simp add: parseInt_def strip_white_none white_len_digit digit_of_def parse_digits_def)
qed

lemma example_5000_scale:
  "zoomMode c = Fixed \<Longrightarrow> zoomPercent c = Fin 5000 \<Longrightarrow> getCurrentScale c = 32"
  by (simp add: getCurrentScale_fixed percent_or_100_def fixed_scale_def clamp_scale_def)

text \<open>
  Claim C7 fails for a numeric entry of the zoom control.  On the loaded example, a
  change event of the zoom select with the value \<^verbatim>\<open>"5000"\<close> leaves the converter in fixed
  mode with the stored percentage 5000, above 3200; only the scale derived from it is
  clamped, to 32.
\<close>

theorem zoom_select_stores_unclamped:
  "zoomMode (handleSelectChange ''5000'' example_loaded) = Fixed
   \<and> zoomPercent (handleSelectChange ''5000'' example_loaded) = Fin 5000
   \<and> getCurrentScale (handleSelectChange ''5000'' example_loaded) = 32"
proof -
  have f: "zoomMode (handleSelectChange ''5000'' example_loaded) = Fixed"
    "zoomPercent (handleSelectChange ''5000'' example_loaded) = Fin 5000"
    using handleSelectChange_numeric [of "''5000''" "Fin 5000" example_loaded]
    by (simp_all add: parseInt_5000)
  show ?thesis
    using f example_5000_scale [OF f] by simp
qed

section \<open>Frames\<close>

lemma upd_inst_None: "animationInstance c = None \<Longrightarrow> c\<lparr>animationInstance := None\<rparr> = c"
  by (cases c) simp

lemma upd_slider_None: "frameSlider c = None \<Longrightarrow> c\<lparr>frameSlider := None\<rparr> = c"
  by (cases c) simp

lemma reported_exact: "inst_shows inst k = of_int k \<Longrightarrow> reported inst k = k"
proof -
  assume "inst_shows inst k = of_int k"
  then have "num_or (inst_shows inst k) 0 = of_int k" by (simp add: num_or_def)
  then show ?thesis by (simp add: reported_def Math_round_of_int)
qed

lemma goToAndStop_over: "goToAndStop a (goToAndStop b inst) = goToAndStop a inst"
  by (simp add: goToAndStop_def)

lemma goToAndStop_keeps:
  "inst_totalFrames (goToAndStop k inst) = inst_totalFrames inst"
  "inst_shows (goToAndStop k inst) = inst_shows inst"
  "inst_enterFrame (goToAndStop k inst) = inst_enterFrame inst"
  "inst_loop (goToAndStop k inst) = inst_loop inst"
  by (simp_all add: goToAndStop_def)

lemma reported_goToAndStop: "reported (goToAndStop j inst) k = reported inst k"
  by (simp add: reported_def goToAndStop_keeps)

lemma set_value_fields:
  "sl_max (set_value v sl) = sl_max sl" "sl_holds (set_value v sl) = sl_holds sl"
  "sl_value (set_value v sl) = sl_holds sl (sl_max sl) v"
  by (simp_all add: set_value_def)

lemma set_max_fields:
  "sl_max (set_max m sl) = m" "sl_holds (set_max m sl) = sl_holds sl"
  "sl_value (set_max m sl) = sl_holds sl m (sl_value sl)"
  by (simp_all add: set_max_def)

lemma set_value_over: "set_value a (set_value b sl) = set_value a sl"
  by (simp add: set_value_def)

lemma instance_goToAndStop_quiet:
  assumes "animationInstance c = Some inst" and "\<not> inst_enterFrame inst"
  shows "instance_goToAndStop k c = c\<lparr>animationInstance := Some (goToAndStop k inst)\<rparr>"
  using assms by (simp add: instance_goToAndStop_def)

lemma instance_goToAndStop_loud:
  assumes "animationInstance c = Some inst" and "inst_enterFrame inst"
  shows "instance_goToAndStop k c =
     c\<lparr>animationInstance := Some (goToAndStop k inst), currentFrame := reported inst k,
       frameSlider := map_option (set_value (reported inst k)) (frameSlider c)\<rparr>"
  using assms
  by (simp add: instance_goToAndStop_def onEnterFrame_def goToAndStop_def reported_def Let_def)

lemma engine_of_core: "core a = core b \<Longrightarrow> engine_of a = engine_of b"
  using core_fields(1,2) [of a b] by (simp add: engine_of_def)

lemma engine_of_instance_goToAndStop: "engine_of (instance_goToAndStop k c) = engine_of c"
  by (simp add: engine_of_def instance_goToAndStop_def onEnterFrame_def goToAndStop_def Let_def
      split: option.splits)

lemma engine_of_currentFrame [simp]: "engine_of (c\<lparr>currentFrame := k\<rparr>) = engine_of c"
  by (simp add: engine_of_def)

lemma engine_of_frameSlider [simp]: "engine_of (c\<lparr>frameSlider := sl\<rparr>) = engine_of c"
  by (simp add: engine_of_def)

lemma core_frameSlider_input:
  assumes "frameSlider c = Some sl"
  shows "core (frameSlider_input now c) =
     core (instance_goToAndStop (sl_value sl) (c\<lparr>currentFrame := sl_value sl\<rparr>))"
proof (cases "animationInstance c")
  case None
  then show ?thesis
    using assms
    by (simp add: frameSlider_input_def core_touchRecentIfNeeded instance_goToAndStop_def)
next
  case (Some inst)
  then show ?thesis
    using assms by (simp add: frameSlider_input_def core_touchRecentIfNeeded core_applyZoom)
qed

lemma engine_of_frameSlider_input: "engine_of (frameSlider_input now c) = engine_of c"
proof (cases "frameSlider c")
  case None
  then show ?thesis by (simp add: frameSlider_input_def)
next
  case (Some sl)
  show ?thesis
    using engine_of_core [OF core_frameSlider_input [OF Some, of now]]
    by (simp add: engine_of_instance_goToAndStop)
qed

lemma engine_of_updateSliderMax: "engine_of (updateSliderMax now m c) = engine_of c"
  by (simp add: updateSliderMax_def engine_of_frameSlider_input split: option.splits)

lemma engine_of_applyZoom: "engine_of (applyZoom c) = engine_of c"
  by (rule engine_of_core [OF core_applyZoom])

lemma engine_of_setFrame: "engine_of (setFrame now n c) = engine_of c"
  by (simp add: setFrame_def Let_def engine_of_frameSlider_input engine_of_applyZoom
      engine_of_instance_goToAndStop split: option.splits)

text \<open>
  What \<^verbatim>\<open>setFrame(n)\<close> leaves, for any engine and any slider: with \<open>k\<close> the clamped frame
  and \<open>v\<close> the value the slider's \<^verbatim>\<open>input\<close> listener reads back, the engine has gone to \<open>v\<close>
  and the current frame is what the \<^verbatim>\<open>enterFrame\<close> listener read then (\<open>v\<close> itself when
  it is not registered).
\<close>

lemma core_setFrame:
  assumes inst: "animationInstance c = Some inst"
  shows "core (setFrame now n c) =
     core (c\<lparr>currentFrame := heard inst (held c (max 0 (min n (totalFrames c)))),
             animationInstance := Some (goToAndStop (held c (max 0 (min n (totalFrames c)))) inst),
             frameSlider :=
               map_option
                 (set_value (if inst_enterFrame inst
                             then heard inst (held c (max 0 (min n (totalFrames c))))
                             else max 0 (min n (totalFrames c))))
                 (frameSlider c)\<rparr>)"
proof -
  let ?k = "max 0 (min n (totalFrames c))"
  let ?v = "held c ?k"
  let ?f = "heard inst ?v"
  let ?w = "if inst_enterFrame inst then ?f else ?k"
  let ?g = "goToAndStop ?k inst"
  let ?c1 = "instance_goToAndStop ?k (c\<lparr>currentFrame := ?k\<rparr>)"
  let ?goal = "c\<lparr>currentFrame := ?f, animationInstance := Some (goToAndStop ?v inst),
                 frameSlider := map_option (set_value ?w) (frameSlider c)\<rparr>"
  have c1: "?c1 = (if inst_enterFrame inst
                   then c\<lparr>currentFrame := reported inst ?k, animationInstance := Some ?g,
                          frameSlider := map_option (set_value (reported inst ?k)) (frameSlider c)\<rparr>
                   else c\<lparr>currentFrame := ?k, animationInstance := Some ?g\<rparr>)"
  proof (cases "inst_enterFrame inst")
    case True
    have "?c1 = (c\<lparr>currentFrame := ?k\<rparr>)\<lparr>animationInstance := Some ?g,
        currentFrame := reported inst ?k,
        frameSlider := map_option (set_value (reported inst ?k)) (frameSlider (c\<lparr>currentFrame := ?k\<rparr>))\<rparr>"
      by (rule instance_goToAndStop_loud) (simp_all add: inst True)
    then show ?thesis using True by simp
  next
    case False
    have "?c1 = (c\<lparr>currentFrame := ?k\<rparr>)\<lparr>animationInstance := Some ?g\<rparr>"
      by (rule instance_goToAndStop_quiet) (simp_all add: inst False)
    then show ?thesis using False by simp
  qed
  have k1: "core (applyZoom ?c1) = core ?c1" by (rule core_applyZoom)
  have f1: "animationInstance ?c1 = Some ?g" unfolding c1 by simp
  show ?thesis
  proof (cases "frameSlider c")
    case None
    then have n1: "frameSlider ?c1 = None" unfolding c1 by simp
    then have "frameSlider (applyZoom ?c1) = None"
      using core_fields(4) [OF k1] by simp
    then have e: "setFrame now n c = applyZoom ?c1"
      using inst by (simp add: setFrame_def Let_def)
    have v: "?v = ?k" using None by (simp add: held_def)
    have cf: "currentFrame ?c1 = ?f"
      unfolding c1 v by (simp add: heard_def)
    have "?c1 = c\<lparr>currentFrame := ?f, animationInstance := Some ?g\<rparr>\<lparr>frameSlider := None\<rparr>"
      unfolding c1 v using None by (simp add: upd_slider_None heard_def)
    then have "core ?c1 = core ?goal" using None v by simp
    then show ?thesis by (simp only: e k1)
  next
    case (Some sl)
    let ?c2 = "applyZoom ?c1"
    have v: "?v = sl_holds sl (sl_max sl) ?k" using Some by (simp add: held_def)
    define sl1 where "sl1 = (if inst_enterFrame inst then set_value (reported inst ?k) sl else sl)"
    have sl1: "frameSlider ?c1 = Some sl1" "set_value ?k sl1 = set_value ?k sl"
      unfolding c1 sl1_def using Some by (simp_all add: set_value_over)
    have sl2: "frameSlider ?c2 = Some sl1"
      using core_fields(4) [OF k1] sl1(1) by simp
    let ?c3 = "?c2\<lparr>frameSlider := Some (set_value ?k sl)\<rparr>"
    have e: "setFrame now n c = frameSlider_input now ?c3"
      using inst sl2 sl1(2) by (simp add: setFrame_def Let_def)
    have i3: "animationInstance ?c3 = Some ?g"
      using core_fields(1) [OF k1] f1 by simp
    have val: "sl_value (set_value ?k sl) = ?v"
      by (simp add: v set_value_fields)
    let ?c4 = "?c3\<lparr>currentFrame := ?v\<rparr>"
    have i4: "animationInstance ?c4 = Some ?g" using i3 by simp
    have c5: "core (instance_goToAndStop ?v ?c4) =
        core (?c2\<lparr>frameSlider := Some (set_value ?w sl), currentFrame := ?f,
                   animationInstance := Some (goToAndStop ?v inst)\<rparr>)"
    proof (cases "inst_enterFrame inst")
      case True
      have "instance_goToAndStop ?v ?c4 =
          ?c4\<lparr>animationInstance := Some (goToAndStop ?v ?g), currentFrame := reported ?g ?v,
              frameSlider := map_option (set_value (reported ?g ?v)) (frameSlider ?c4)\<rparr>"
        by (rule instance_goToAndStop_loud [OF i4]) (simp add: goToAndStop_keeps True)
      then show ?thesis
        using True
        by (simp add: goToAndStop_over reported_goToAndStop set_value_over heard_def core_def)
    next
      case False
      have "instance_goToAndStop ?v ?c4 = ?c4\<lparr>animationInstance := Some (goToAndStop ?v ?g)\<rparr>"
        by (rule instance_goToAndStop_quiet [OF i4]) (simp add: goToAndStop_keeps False)
      then show ?thesis
        using False by (simp add: goToAndStop_over heard_def core_def)
    qed
    have "core (frameSlider_input now ?c3) = core (instance_goToAndStop ?v ?c4)"
      using core_frameSlider_input [of ?c3 "set_value ?k sl" now] by (simp add: val)
    also have "\<dots> = core (?c2\<lparr>frameSlider := Some (set_value ?w sl), currentFrame := ?f,
                   animationInstance := Some (goToAndStop ?v inst)\<rparr>)"
      by (rule c5)
    also have "\<dots> = (core ?c2)\<lparr>frameSlider := Some (set_value ?w sl), currentFrame := ?f,
                animationInstance := Some (goToAndStop ?v inst)\<rparr>"
      by (simp add: core_def)
    also have "\<dots> = (core ?c1)\<lparr>frameSlider := Some (set_value ?w sl), currentFrame := ?f,
                animationInstance := Some (goToAndStop ?v inst)\<rparr>"
      by (simp only: k1)
    also have "\<dots> = core ?goal"
      unfolding c1 using Some by (simp add: core_def)
    finally show ?thesis by (simp only: e)
  qed
qed

lemma setFrame_fields:
  assumes "animationInstance c = Some inst"
  shows "currentFrame (setFrame now n c) = heard inst (held c (max 0 (min n (totalFrames c))))"
    and "totalFrames (setFrame now n c) = totalFrames c"
    and "animationInstance (setFrame now n c)
          = Some (goToAndStop (held c (max 0 (min n (totalFrames c)))) inst)"
    and "frameSlider (setFrame now n c) =
          map_option
            (set_value (if inst_enterFrame inst
                        then heard inst (held c (max 0 (min n (totalFrames c))))
                        else max 0 (min n (totalFrames c))))
            (frameSlider c)"
  using core_fields(3,2,1,4) [OF core_setFrame [OF assms, of now n]] by simp_all

lemma frameSlider_input_quiet:
  assumes "frameSlider c = Some sl" and "animationInstance c = Some i" and "\<not> inst_enterFrame i"
  shows "core (frameSlider_input now c) =
     core (c\<lparr>currentFrame := sl_value sl, animationInstance := Some (goToAndStop (sl_value sl) i)\<rparr>)"
proof -
  have "instance_goToAndStop (sl_value sl) (c\<lparr>currentFrame := sl_value sl\<rparr>) =
      (c\<lparr>currentFrame := sl_value sl\<rparr>)\<lparr>animationInstance := Some (goToAndStop (sl_value sl) i)\<rparr>"
    by (rule instance_goToAndStop_quiet) (simp_all add: assms)
  then show ?thesis
    using core_frameSlider_input [OF assms(1), of now] by simp
qed

lemma updateSliderMax_fields:
  assumes "animationInstance c = Some i" and "\<not> inst_enterFrame i"
  shows "currentFrame (updateSliderMax now m c) =
           (case frameSlider c of None \<Rightarrow> currentFrame c | Some sl \<Rightarrow> sl_holds sl m (sl_value sl))"
    and "frameSlider (updateSliderMax now m c) = map_option (set_max m) (frameSlider c)"
proof -
  have "currentFrame (updateSliderMax now m c) =
           (case frameSlider c of None \<Rightarrow> currentFrame c | Some sl \<Rightarrow> sl_holds sl m (sl_value sl))
        \<and> frameSlider (updateSliderMax now m c) = map_option (set_max m) (frameSlider c)"
  proof (cases "frameSlider c")
    case None
    then show ?thesis by (simp add: updateSliderMax_def)
  next
    case (Some sl)
    let ?c' = "c\<lparr>frameSlider := Some (set_max m sl)\<rparr>"
    have k: "core (frameSlider_input now ?c') =
        core (?c'\<lparr>currentFrame := sl_value (set_max m sl),
                animationInstance := Some (goToAndStop (sl_value (set_max m sl)) i)\<rparr>)"
      by (rule frameSlider_input_quiet) (simp_all add: assms)
    show ?thesis
      using core_fields(3,4) [OF k] Some by (simp add: updateSliderMax_def set_max_fields)
  qed
  then show "currentFrame (updateSliderMax now m c) =
           (case frameSlider c of None \<Rightarrow> currentFrame c | Some sl \<Rightarrow> sl_holds sl m (sl_value sl))"
    and "frameSlider (updateSliderMax now m c) = map_option (set_max m) (frameSlider c)"
    by simp_all
qed

text \<open>What the \<^verbatim>\<open>DOMLoaded\<close> listener leaves, for any engine and any slider.\<close>

lemma onDOMLoaded_fields:
  assumes inst: "animationInstance c = Some inst" and quiet: "\<not> inst_enterFrame inst"
  shows "totalFrames (onDOMLoaded now c) = inst_totalFrames inst - 1"
    and "currentFrame (onDOMLoaded now c) =
           (case frameSlider c of
              None \<Rightarrow> 0
            | Some sl \<Rightarrow> sl_holds sl (inst_totalFrames inst - 1) (sl_holds sl (sl_max sl) 0))"
    and "\<exists>i. animationInstance (onDOMLoaded now c) = Some i
           \<and> inst_totalFrames i = inst_totalFrames inst \<and> inst_shows i = inst_shows inst
           \<and> inst_enterFrame i"
    and "frameSlider (onDOMLoaded now c) =
           map_option (\<lambda>sl. set_max (inst_totalFrames inst - 1) (set_value 0 sl)) (frameSlider c)"
proof -
  let ?T = "inst_totalFrames inst - 1"
  let ?c1 = "c\<lparr>panOffsetX := 0, panOffsetY := 0,
                     totalFrames := ?T,
                     fps := opt_or (data_field data_fr (animationData c)) (fps c),
                     width := opt_or (data_field data_w (animationData c)) (width c),
                     height := opt_or (data_field data_h (animationData c)) (height c),
                     currentFrame := 0,
                     frameSlider := map_option (set_value 0) (frameSlider c)\<rparr>"
  let ?c2 = "updateSliderMax now ?T ?c1"
  let ?c3 = "waitForSvgAndReveal (applyZoom ?c2)"
  let ?c4 = "instance_goToAndStop 0 ?c3"
  let ?c5 = "applyZoom ?c4"
  let ?cf = "case frameSlider c of
               None \<Rightarrow> 0
             | Some sl \<Rightarrow> sl_holds sl ?T (sl_holds sl (sl_max sl) 0)"
  let ?sl = "map_option (\<lambda>sl. set_max ?T (set_value 0 sl)) (frameSlider c)"
  have unfold: "onDOMLoaded now c =
      ?c5\<lparr>animationInstance :=
            map_option (\<lambda>i. i\<lparr>inst_enterFrame := True, inst_loop := isLooping ?c5\<rparr>) (animationInstance ?c5),
          isPlaying := False\<rparr>"
    using inst by (simp add: onDOMLoaded_def Let_def cong: option.case_cong)
  have e1: "engine_of ?c1 = (?T, Some (inst_totalFrames inst, inst_shows inst, False))"
    using inst quiet by (simp add: engine_of_def)
  have c2: "currentFrame ?c2 = ?cf" "frameSlider ?c2 = ?sl"
    using updateSliderMax_fields [of ?c1 inst now ?T] inst quiet
    by (simp_all add: set_value_fields option.map_comp comp_def split: option.split)
  have e2: "engine_of ?c2 = engine_of ?c1" by (rule engine_of_updateSliderMax)
  have k3: "core ?c3 = core ?c2"
    by (simp add: core_waitForSvgAndReveal core_applyZoom)
  have c3: "currentFrame ?c3 = ?cf" "frameSlider ?c3 = ?sl"
    using core_fields(3,4) [OF k3] c2 by simp_all
  have e3: "engine_of ?c3 = engine_of ?c1" using engine_of_core [OF k3] e2 by simp
  obtain i3 where i3: "animationInstance ?c3 = Some i3" "inst_totalFrames i3 = inst_totalFrames inst"
    "inst_shows i3 = inst_shows inst" "\<not> inst_enterFrame i3" "totalFrames ?c3 = ?T"
    using e3 unfolding e1 by (auto simp: engine_of_def)
  have c4e: "?c4 = ?c3\<lparr>animationInstance := Some (goToAndStop 0 i3)\<rparr>"
    by (rule instance_goToAndStop_quiet [OF i3(1) i3(4)])
  have k5: "core ?c5 = core ?c4" by (rule core_applyZoom)
  have c5: "currentFrame ?c5 = ?cf" "totalFrames ?c5 = ?T"
    "animationInstance ?c5 = Some (goToAndStop 0 i3)" "frameSlider ?c5 = ?sl"
    using core_fields(3,2,1,4) [OF k5] c3 i3(5) unfolding c4e by simp_all
  show "currentFrame (onDOMLoaded now c) = ?cf"
    unfolding unfold using c5(1) by simp
  show "totalFrames (onDOMLoaded now c) = inst_totalFrames inst - 1"
    unfolding unfold using c5(2) by simp
  show "\<exists>i. animationInstance (onDOMLoaded now c) = Some i
           \<and> inst_totalFrames i = inst_totalFrames inst \<and> inst_shows i = inst_shows inst
           \<and> inst_enterFrame i"
    unfolding unfold using c5(3) i3(2,3) by (simp add: goToAndStop_def)
  show "frameSlider (onDOMLoaded now c) = ?sl"
    unfolding unfold using c5(4) by simp
qed

lemma loadLottieAnimation_instance:
  assumes "lottieContainer c \<noteq> None"
  shows "\<exists>i. animationInstance (loadLottieAnimation (c\<lparr>animationData := Truthy d\<rparr>)) = Some i
           \<and> inst_totalFrames i = engine_totalFrames d \<and> inst_shows i = engine_shows d
           \<and> \<not> inst_enterFrame i"
    and "frameSlider (loadLottieAnimation (c\<lparr>animationData := Truthy d\<rparr>)) = frameSlider c"
  using assms by (auto simp: loadLottieAnimation_def)

lemma engine_exact_cong:
  "inst_totalFrames i = inst_totalFrames j \<Longrightarrow> inst_shows i = inst_shows j \<Longrightarrow>
     engine_exact i = engine_exact j"
  by (simp add: engine_exact_def)

lemma clamps_to_range: "clamps_to h m \<Longrightarrow> 0 \<le> m \<Longrightarrow> 0 \<le> h m v \<and> h m v \<le> m"
  by (simp add: clamps_to_def)

lemma clamps_to_keeps: "clamps_to h m \<Longrightarrow> 0 \<le> v \<Longrightarrow> v \<le> m \<Longrightarrow> h m v = v"
  by (simp add: clamps_to_def)

text \<open>
  Claim C3, as the code has it.  For an animation of at least one frame whose engine
  reports, once it has gone to a frame \<open>k\<close> of the animation (0 to frame count - 1),
  the current frame \<open>k\<close>, on a page whose frame slider (if it has one) holds a value
  assigned to it clamped into [0, maximum] at the maximum the load sets: when the load
  completes (the \<^verbatim>\<open>DOMLoaded\<close> listener has run) the stored last index is the engine's
  frame count less one and the current frame lies between 0 and it; and from then on
  \<^verbatim>\<open>setFrame(n)\<close> for any integer \<open>n\<close> returns a state (it has no failing branch) whose
  current frame is \<open>n\<close> clamped into [0, frame count - 1], with the instance, the last
  index and the slider's maximum kept, so that the bounds hold again after every
  further call.  The \<^verbatim>\<open>enterFrame\<close> listener, which writes the frame the engine reports
  back to the state, and the slider's \<^verbatim>\<open>input\<close> listener are part of \<^verbatim>\<open>setFrame\<close> here.
\<close>

theorem setFrame_clamps:
  "(lottieContainer c \<noteq> None \<and> 1 \<le> engine_totalFrames d
      \<and> (\<forall>k \<in> {0 .. engine_totalFrames d - 1}. engine_shows d k = of_int k)
      \<and> (case frameSlider c of
            None \<Rightarrow> True
          | Some sl \<Rightarrow> clamps_to (sl_holds sl) (engine_totalFrames d - 1)) \<longrightarrow>
      frame_inv (onDOMLoaded now (loadLottieAnimation (c\<lparr>animationData := Truthy d\<rparr>)))
      \<and> totalFrames (onDOMLoaded now (loadLottieAnimation (c\<lparr>animationData := Truthy d\<rparr>)))
          = engine_totalFrames d - 1
      \<and> 0 \<le> currentFrame (onDOMLoaded now (loadLottieAnimation (c\<lparr>animationData := Truthy d\<rparr>)))
      \<and> currentFrame (onDOMLoaded now (loadLottieAnimation (c\<lparr>animationData := Truthy d\<rparr>)))
          \<le> engine_totalFrames d - 1)
   \<and> (animationInstance c = Some inst \<and> frame_inv c \<longrightarrow>
      currentFrame (setFrame now n c) = max 0 (min n (inst_totalFrames inst - 1))
      \<and> 0 \<le> currentFrame (setFrame now n c)
      \<and> currentFrame (setFrame now n c) \<le> inst_totalFrames inst - 1
      \<and> totalFrames (setFrame now n c) = inst_totalFrames inst - 1
      \<and> frame_inv (setFrame now n c))"
proof (intro conjI impI)
  assume a: "lottieContainer c \<noteq> None \<and> 1 \<le> engine_totalFrames d
      \<and> (\<forall>k \<in> {0 .. engine_totalFrames d - 1}. engine_shows d k = of_int k)
      \<and> (case frameSlider c of
            None \<Rightarrow> True
          | Some sl \<Rightarrow> clamps_to (sl_holds sl) (engine_totalFrames d - 1))"
  let ?l = "loadLottieAnimation (c\<lparr>animationData := Truthy d\<rparr>)"
  let ?T = "engine_totalFrames d - 1"
  obtain i where i: "animationInstance ?l = Some i" "inst_totalFrames i = engine_totalFrames d"
    "inst_shows i = engine_shows d" "\<not> inst_enterFrame i"
    using loadLottieAnimation_instance(1) [of c d] a by blast
  have sl: "frameSlider ?l = frameSlider c"
    using loadLottieAnimation_instance(2) [of c d] a by simp
  note f = onDOMLoaded_fields [OF i(1) i(4), of now]
  show t: "totalFrames (onDOMLoaded now ?l) = ?T"
    using f(1) i(2) by simp
  have cf: "0 \<le> currentFrame (onDOMLoaded now ?l) \<and> currentFrame (onDOMLoaded now ?l) \<le> ?T"
  proof (cases "frameSlider c")
    case None
    then show ?thesis using f(2) sl a by simp
  next
    case (Some s0)
    then have "clamps_to (sl_holds s0) ?T" using a by simp
    then show ?thesis
      using f(2) sl Some i(2) a clamps_to_range [of "sl_holds s0" ?T] by simp
  qed
  then show "0 \<le> currentFrame (onDOMLoaded now ?l)" "currentFrame (onDOMLoaded now ?l) \<le> ?T"
    by simp_all
  obtain j where j: "animationInstance (onDOMLoaded now ?l) = Some j"
    "inst_totalFrames j = inst_totalFrames i" "inst_shows j = inst_shows i"
    using f(3) by blast
  have ex: "engine_exact j"
    using a i(2,3) j(2,3) by (simp add: engine_exact_def)
  have slider: "case frameSlider (onDOMLoaded now ?l) of
                  None \<Rightarrow> True
                | Some sl \<Rightarrow> sl_max sl = totalFrames (onDOMLoaded now ?l)
                             \<and> clamps_to (sl_holds sl) (sl_max sl)"
    unfolding t f(4) sl using a i(2)
    by (cases "frameSlider c") (simp_all add: set_max_fields set_value_fields)
  have body: "1 \<le> inst_totalFrames j \<and> engine_exact j
      \<and> totalFrames (onDOMLoaded now ?l) = inst_totalFrames j - 1
      \<and> 0 \<le> currentFrame (onDOMLoaded now ?l)
      \<and> currentFrame (onDOMLoaded now ?l) \<le> inst_totalFrames j - 1"
    using t cf j(2) i(2) a ex by simp
  show "frame_inv (onDOMLoaded now ?l)"
    unfolding frame_inv_def j(1) option.case using body slider by (intro conjI) simp_all
next
  assume a: "animationInstance c = Some inst \<and> frame_inv c"
  then have inst: "animationInstance c = Some inst" by simp
  have "frame_inv c" using a by simp
  then have "1 \<le> inst_totalFrames inst \<and> engine_exact inst
      \<and> totalFrames c = inst_totalFrames inst - 1
      \<and> 0 \<le> currentFrame c \<and> currentFrame c \<le> inst_totalFrames inst - 1
      \<and> (case frameSlider c of None \<Rightarrow> True
          | Some sl \<Rightarrow> sl_max sl = totalFrames c \<and> clamps_to (sl_holds sl) (sl_max sl))"
    unfolding frame_inv_def inst option.case .
  then have inv: "1 \<le> inst_totalFrames inst" "engine_exact inst"
    "totalFrames c = inst_totalFrames inst - 1"
    "case frameSlider c of None \<Rightarrow> True
     | Some sl \<Rightarrow> sl_max sl = totalFrames c \<and> clamps_to (sl_holds sl) (sl_max sl)"
    by simp_all
  let ?k = "max 0 (min n (totalFrames c))"
  have kr: "0 \<le> ?k" "?k \<le> totalFrames c" using inv(1,3) by simp_all
  have v: "held c ?k = ?k"
  proof (cases "frameSlider c")
    case None
    then show ?thesis by (simp add: held_def)
  next
    case (Some sl)
    note q = inv(4) [unfolded Some option.case]
    have m: "sl_max sl = totalFrames c" using q by (rule conjunct1)
    have cl: "clamps_to (sl_holds sl) (sl_max sl)" using q by (rule conjunct2)
    have "sl_holds sl (sl_max sl) ?k = ?k"
      using cl kr unfolding m by (intro clamps_to_keeps) simp_all
    then show ?thesis
      using Some by (simp add: held_def)
  qed
  have "?k \<in> {0 .. inst_totalFrames inst - 1}" using kr inv(3) by simp
  then have "inst_shows inst ?k = of_int ?k"
    using inv(2) unfolding engine_exact_def by blast
  then have h: "heard inst ?k = ?k"
    by (simp add: heard_def reported_exact)
  note f = setFrame_fields [OF inst, of now n]
  have cf: "currentFrame (setFrame now n c) = ?k" using f(1) v h by simp
  show "currentFrame (setFrame now n c) = max 0 (min n (inst_totalFrames inst - 1))"
    using cf inv(3) by simp
  show "0 \<le> currentFrame (setFrame now n c)"
    using cf by simp
  show "currentFrame (setFrame now n c) \<le> inst_totalFrames inst - 1"
    using cf kr inv(3) by simp
  show "totalFrames (setFrame now n c) = inst_totalFrames inst - 1"
    using f(2) inv(3) by simp
  have ex: "engine_exact (goToAndStop ?k inst)"
    using inv(2) engine_exact_cong [of "goToAndStop ?k inst" inst] by (simp add: goToAndStop_keeps)
  have slider: "case frameSlider (setFrame now n c) of
                  None \<Rightarrow> True
                | Some sl \<Rightarrow> sl_max sl = totalFrames (setFrame now n c)
                             \<and> clamps_to (sl_holds sl) (sl_max sl)"
    unfolding f(2) f(4) using inv(4) by (cases "frameSlider c") (auto simp: set_value_fields)
  have i': "animationInstance (setFrame now n c) = Some (goToAndStop ?k inst)"
    using f(3) v by simp
  have body: "1 \<le> inst_totalFrames (goToAndStop ?k inst) \<and> engine_exact (goToAndStop ?k inst)
      \<and> totalFrames (setFrame now n c) = inst_totalFrames (goToAndStop ?k inst) - 1
      \<and> 0 \<le> currentFrame (setFrame now n c)
      \<and> currentFrame (setFrame now n c) \<le> inst_totalFrames (goToAndStop ?k inst) - 1"
    using f(2) cf kr inv(1,3) ex by (simp add: goToAndStop_keeps)
  show "frame_inv (setFrame now n c)"
    unfolding frame_inv_def i' option.case using body slider by (intro conjI) simp_all
qed

lemma range_input_clamps: "clamps_to range_input m"
  by (simp add: clamps_to_def range_input_def)

lemma example_loaded_inv: "frame_inv example_loaded"
  by (simp add: frame_inv_def example_loaded_def engine_exact_def range_input_clamps)

text \<open>The theorem of claim C3 at the example: the load from the starting state, then
  \<^verbatim>\<open>setFrame(250)\<close> and \<^verbatim>\<open>setFrame(-3)\<close> on the loaded state of 100 frames.\<close>

theorem setFrame_clamps_witness:
  "lottieContainer initial \<noteq> None \<and> 1 \<le> engine_totalFrames example_data
   \<and> engine_shows example_data = of_int
   \<and> frameSlider initial = Some \<lparr>sl_value = 0, sl_max = 100, sl_holds = range_input\<rparr>
   \<and> clamps_to range_input 99
   \<and> totalFrames (onDOMLoaded 2 (loadLottieAnimation (initial\<lparr>animationData := Truthy example_data\<rparr>))) = 99
   \<and> currentFrame (onDOMLoaded 2 (loadLottieAnimation (initial\<lparr>animationData := Truthy example_data\<rparr>)))
        \<in> {0 .. 99}
   \<and> animationInstance example_loaded
        = Some \<lparr>inst_totalFrames = 100, inst_currentFrame = 0, inst_loop = True, inst_isPaused = True,
                inst_shows = of_int, inst_enterFrame = True\<rparr>
   \<and> frame_inv example_loaded
   \<and> currentFrame (setFrame 3 250 example_loaded) = 99
   \<and> currentFrame (setFrame 3 (- 3) example_loaded) = 0"
proof -
  let ?i = "\<lparr>inst_totalFrames = 100, inst_currentFrame = 0, inst_loop = True, inst_isPaused = True,
             inst_shows = of_int, inst_enterFrame = True\<rparr>"
  have h1: "lottieContainer initial \<noteq> None"
    "frameSlider initial = Some \<lparr>sl_value = 0, sl_max = 100, sl_holds = range_input\<rparr>"
    by (simp_all add: initial_def)
  have h2: "1 \<le> engine_totalFrames example_data" "engine_shows example_data = of_int"
    "engine_totalFrames example_data = 100"
    by (simp_all add: example_data_def)
  have h3: "animationInstance example_loaded = Some ?i"
    by (simp add: example_loaded_def)
  note a = setFrame_clamps [where c = initial and d = example_data and now = 2]
  note b = setFrame_clamps [where c = example_loaded and inst = ?i and now = 3 and n = 250]
  note b' = setFrame_clamps [where c = example_loaded and inst = ?i and now = 3 and n = "- 3"]
  show ?thesis
    using a b b' h1 h2 h3 example_loaded_inv range_input_clamps [of 99] by simp
qed

lemma empty_loaded_fields:
  "totalFrames (empty_loaded sh h) = - 1"
  "\<exists>i. animationInstance (empty_loaded sh h) = Some i \<and> inst_shows i = sh \<and> inst_enterFrame i"
  "\<exists>sl. frameSlider (empty_loaded sh h) = Some sl \<and> sl_max sl = - 1 \<and> sl_holds sl = h"
proof -
  let ?c0 = "initial\<lparr>frameSlider := Some \<lparr>sl_value = 0, sl_max = 100, sl_holds = h\<rparr>\<rparr>"
  let ?l = "loadLottieAnimation (?c0\<lparr>animationData := Truthy (empty_data sh)\<rparr>)"
  have "lottieContainer ?c0 \<noteq> None" by (simp add: initial_def)
  then obtain i where i: "animationInstance ?l = Some i"
    "inst_totalFrames i = engine_totalFrames (empty_data sh)"
    "inst_shows i = engine_shows (empty_data sh)" "\<not> inst_enterFrame i"
    and sl: "frameSlider ?l = frameSlider ?c0"
    using loadLottieAnimation_instance [of ?c0 "empty_data sh"] by blast
  note f = onDOMLoaded_fields [OF i(1) i(4), of 2]
  have l: "empty_loaded sh h = onDOMLoaded 2 ?l"
    unfolding empty_loaded_def by (rule refl)
  show "totalFrames (empty_loaded sh h) = - 1"
    unfolding l using f(1) i(2) by (simp add: empty_data_def)
  show "\<exists>i. animationInstance (empty_loaded sh h) = Some i \<and> inst_shows i = sh \<and> inst_enterFrame i"
    unfolding l using f(3) i(3) by (auto simp: empty_data_def)
  show "\<exists>sl. frameSlider (empty_loaded sh h) = Some sl \<and> sl_max sl = - 1 \<and> sl_holds sl = h"
    unfolding l using f(4) sl i(2)
    by (simp add: empty_data_def set_max_fields set_value_fields)
qed

lemma empty_loaded_setFrame:
  "currentFrame (setFrame now 5 (empty_loaded sh h)) = Math_round (num_or (sh (h (- 1) 0)) 0)"
  "totalFrames (setFrame now 5 (empty_loaded sh h)) = - 1"
proof -
  obtain i where i: "animationInstance (empty_loaded sh h) = Some i" "inst_shows i = sh"
    "inst_enterFrame i"
    using empty_loaded_fields(2) by blast
  obtain sl where sl: "frameSlider (empty_loaded sh h) = Some sl" "sl_max sl = - 1" "sl_holds sl = h"
    using empty_loaded_fields(3) by blast
  note f = setFrame_fields [OF i(1), of now 5]
  have k: "max 0 (min 5 (totalFrames (empty_loaded sh h))) = 0"
    by (simp add: empty_loaded_fields(1))
  show "currentFrame (setFrame now 5 (empty_loaded sh h)) = Math_round (num_or (sh (h (- 1) 0)) 0)"
    unfolding f(1) k using i(2,3) sl by (simp add: heard_def held_def reported_def)
  show "totalFrames (setFrame now 5 (empty_loaded sh h)) = - 1"
    unfolding f(2) by (rule empty_loaded_fields(1))
qed

text \<open>
  Claim C3 as stated fails for an animation without frames.  It loads like any other;
  the stored last index is then -1, so that no current frame lies within the bounds,
  neither when the load has completed nor after \<^verbatim>\<open>setFrame(5)\<close>, whatever the engine
  reports (\<open>sh\<close>) and whatever the slider holds (\<open>h\<close>).  After \<^verbatim>\<open>setFrame(5)\<close> the current
  frame is what the engine reports, rounded, for the frame the slider holds once 0 has
  been assigned to it at the maximum -1.
\<close>

theorem setFrame_zero_frames:
  "\<forall>sh h. engine_totalFrames (empty_data sh) = 0
     \<and> totalFrames (empty_loaded sh h) = engine_totalFrames (empty_data sh) - 1
     \<and> \<not> (0 \<le> currentFrame (empty_loaded sh h)
            \<and> currentFrame (empty_loaded sh h) \<le> engine_totalFrames (empty_data sh) - 1)
     \<and> currentFrame (setFrame 3 5 (empty_loaded sh h)) = Math_round (num_or (sh (h (- 1) 0)) 0)
     \<and> \<not> (0 \<le> currentFrame (setFrame 3 5 (empty_loaded sh h))
            \<and> currentFrame (setFrame 3 5 (empty_loaded sh h)) \<le> engine_totalFrames (empty_data sh) - 1)
     \<and> totalFrames (setFrame 3 5 (empty_loaded sh h)) = - 1"
proof (intro allI)
  fix sh :: "int \<Rightarrow> real" and h :: "int \<Rightarrow> int \<Rightarrow> int"
  have z: "engine_totalFrames (empty_data sh) = 0" by (simp add: empty_data_def)
  show "engine_totalFrames (empty_data sh) = 0
     \<and> totalFrames (empty_loaded sh h) = engine_totalFrames (empty_data sh) - 1
     \<and> \<not> (0 \<le> currentFrame (empty_loaded sh h)
            \<and> currentFrame (empty_loaded sh h) \<le> engine_totalFrames (empty_data sh) - 1)
     \<and> currentFrame (setFrame 3 5 (empty_loaded sh h)) = Math_round (num_or (sh (h (- 1) 0)) 0)
     \<and> \<not> (0 \<le> currentFrame (setFrame 3 5 (empty_loaded sh h))
            \<and> currentFrame (setFrame 3 5 (empty_loaded sh h)) \<le> engine_totalFrames (empty_data sh) - 1)
     \<and> totalFrames (setFrame 3 5 (empty_loaded sh h)) = - 1"
    unfolding z
    using empty_loaded_fields(1) [of sh h] empty_loaded_setFrame [of 3 sh h]
    by simp
qed

text \<open>
  The two readings of that frame: the value is 0 with an engine that reports the frame
  it was sent to and a slider of minimum 0, and -1 with an engine that reports at most
  its last frame, or with a slider that holds at most its maximum.
\<close>

lemma zero_frames_readings:
  "Math_round (num_or (of_int (range_input (- 1) 0)) 0) = 0"
  "Math_round (num_or ((\<lambda>k. of_int (min k (0 - 1))) (range_input (- 1) 0)) 0) = - 1"
  "Math_round (num_or (of_int ((\<lambda>m v. min m v) (- 1) 0)) 0) = - 1"
  by (simp_all add: range_input_def num_or_def Math_round_def)

section \<open>Failed loads\<close>

lemma name_bad: "isJson ''bad.json''" "strip_ext ''.json'' ''bad.json'' = ''bad''"
  "strip_json_or_svg ''bad.json'' = ''bad''" "\<not> isSvg ''bad.json''"
  by (simp_all add: isJson_def isSvg_def strip_ext_def strip_json_or_svg_def endsWith_def
      toLowerCase_def lower_char_def suffix_def)

lemma handleFile_wrong_extension:
  "\<not> isJson (file_name f) \<Longrightarrow> \<not> isSvg (file_name f) \<Longrightarrow>
     handleFile now f c = (Some PleaseSelectJsonOrSvg, c)"
  by (simp add: handleFile_def)

lemma handleFile_invalid_json:
  assumes "isJson (file_name f)" and "as_json (file_content f) = None"
  shows "handleFile now f c =
     (Some InvalidJSONFile,
      c\<lparr>originalFilename := Some (strip_ext ''.json'' (file_name f)),
        originalFileExt := Some ''.json'',
        fileSizeBytes := Some (file_size f),
        currentFileName := Some (file_name f),
        currentFileSize := Some (file_size f)\<rparr>)"
  using assms by (simp add: handleFile_def reader_onload_def)

lemma loadFromJSONString_invalid_json:
  assumes "as_json json = None"
  shows "loadFromJSONString filename sz json c =
     (Some FailedToLoadSavedFile,
      c\<lparr>originalFilename := Some (strip_json_or_svg filename),
        originalFileExt := Some (if isSvg filename then ''.svg'' else ''.json'')\<rparr>)"
  using assms by (simp add: loadFromJSONString_def)

text \<open>
  Claim C1 against the code.  With \<^verbatim>\<open>a.json\<close> loaded, \<^verbatim>\<open>handleFile\<close> on the file
  \<^verbatim>\<open>bad.json\<close>, whose text is not JSON, shows the alert and leaves the animation in place,
  but the file name and size fields now describe \<^verbatim>\<open>bad.json\<close>: the next export of the
  animation still shown is named after \<^verbatim>\<open>bad\<close>.  \<^verbatim>\<open>loadFromJSONString\<close> on the same text
  overwrites the stored file name as well.
\<close>

theorem failed_json_load_overwrites_file_fields:
  "handleFile 3 bad_file example_loaded =
     (Some InvalidJSONFile,
      example_loaded\<lparr>originalFilename := Some ''bad'', fileSizeBytes := Some 7,
        currentFileName := Some ''bad.json'', currentFileSize := Some 7\<rparr>)
   \<and> originalFilename example_loaded = Some ''a''
   \<and> currentFileName example_loaded = Some ''a.json''
   \<and> fileSizeBytes example_loaded = Some 2048
   \<and> exportName example_loaded = FrameOf ''a'' 0
   \<and> exportName (snd (handleFile 3 bad_file example_loaded)) = FrameOf ''bad'' 0
   \<and> loadFromJSONString ''bad.json'' 7 (file_content bad_file) example_loaded =
     (Some FailedToLoadSavedFile, example_loaded\<lparr>originalFilename := Some ''bad''\<rparr>)"
proof -
  have j: "isJson (file_name bad_file)" "as_json (file_content bad_file) = None"
    by (simp_all add: bad_file_def name_bad)
  have 1: "handleFile 3 bad_file example_loaded =
     (Some InvalidJSONFile,
      example_loaded\<lparr>originalFilename := Some ''bad'', fileSizeBytes := Some 7,
        currentFileName := Some ''bad.json'', currentFileSize := Some 7\<rparr>)"
    unfolding handleFile_invalid_json [OF j]
    by (simp add: bad_file_def name_bad example_loaded_def)
  have 2: "loadFromJSONString ''bad.json'' 7 (file_content bad_file) example_loaded =
     (Some FailedToLoadSavedFile, example_loaded\<lparr>originalFilename := Some ''bad''\<rparr>)"
    unfolding loadFromJSONString_invalid_json [OF j(2)]
    by (simp add: name_bad example_loaded_def)
  have 3: "exportName (snd (handleFile 3 bad_file example_loaded)) = FrameOf ''bad'' 0"
    unfolding 1 by (simp add: exportName_def string_or_def example_loaded_def)
  have 4: "exportName example_loaded = FrameOf ''a'' 0"
    by (simp add: exportName_def string_or_def example_loaded_def)
  show ?thesis
    using 1 2 3 4 by (simp add: example_loaded_def)
qed

section \<open>Export\<close>

lemma rasterScale_cases:
  "rasterScale slider =
     (case parseInt (string_or slider ''2'') of
        Some (Fin i) \<Rightarrow>
          if i < 0 then 1 / 4 else if i = 0 then 1 else if i = 1 then 1 / 2 else if i = 2 then 1
          else if i = 3 then 2 else if i = 4 then 4 else 8
      | _ \<Rightarrow> 1)"
proof (cases "parseInt (string_or slider ''2'')")
  case None
  then show ?thesis by (simp add: rasterScale_def rasterScaleIdx_def scaleSteps_def)
next
  case (Some v)
  show ?thesis
  proof (cases v)
    case (Fin i)
    consider "i < 0" | "i = 0" | "i = 1" | "i = 2" | "i = 3" | "i = 4" | "5 \<le> i" by linarith
    then show ?thesis
    proof cases
      case 1
      then have "nat (max 0 (min 5 i)) = 0" by simp
      then show ?thesis
        using Some Fin 1 by (simp add: rasterScale_def rasterScaleIdx_def scaleSteps_def)
    next
      case 7
      then have "nat (max 0 (min 5 i)) = 5" by simp
      then show ?thesis
        using Some Fin 7 by (simp add: rasterScale_def rasterScaleIdx_def scaleSteps_def)
    qed (simp_all add: Some Fin rasterScale_def rasterScaleIdx_def scaleSteps_def)
  next
    case PosInfinity
    then show ?thesis using Some by (simp add: rasterScale_def rasterScaleIdx_def scaleSteps_def)
  next
    case NegInfinity
    then show ?thesis using Some by (simp add: rasterScale_def rasterScaleIdx_def scaleSteps_def)
  qed
qed

lemma rasterScale_positive: "1 / 4 \<le> rasterScale slider"
  unfolding rasterScale_cases by (simp split: option.split jsint.split)

text \<open>
  Claim C8.  The raster scale is an entry of the table [0.25, 0.5, 1, 2, 4, 8]: the entry
  at the slider's index clamped to the bounds of the table, except that the index 0
  selects 1 and not 0.25.  (A missing slider, an empty value and a value that is not
  a finite number count as index 2.)
\<close>

theorem rasterScale_steps:
  "rasterScale slider \<in> set scaleSteps
   \<and> scaleSteps = [1 / 4, 1 / 2, 1, 2, 4, 8]
   \<and> rasterScale slider =
       (case parseInt (string_or slider ''2'') of
          Some (Fin i) \<Rightarrow>
            if i = 0 then 1 else scaleSteps ! nat (max 0 (min (int (length scaleSteps) - 1) i))
        | _ \<Rightarrow> scaleSteps ! 2)
   \<and> rasterScale slider =
       (case parseInt (string_or slider ''2'') of
          Some (Fin i) \<Rightarrow>
            if i < 0 then 1 / 4 else if i = 0 then 1 else if i = 1 then 1 / 2 else if i = 2 then 1
            else if i = 3 then 2 else if i = 4 then 4 else 8
        | _ \<Rightarrow> 1)"
proof (intro conjI)
  show "rasterScale slider \<in> set scaleSteps"
    unfolding rasterScale_cases by (simp add: scaleSteps_def split: option.split jsint.split)
  show "scaleSteps = [1 / 4, 1 / 2, 1, 2, 4, 8]" by (rule scaleSteps_def)
  show "rasterScale slider =
       (case parseInt (string_or slider ''2'') of
          Some (Fin i) \<Rightarrow>
            if i = 0 then 1 else scaleSteps ! nat (max 0 (min (int (length scaleSteps) - 1) i))
        | _ \<Rightarrow> scaleSteps ! 2)"
    by (simp add: rasterScale_def rasterScaleIdx_def scaleSteps_def split: option.split jsint.split)
  show "rasterScale slider =
       (case parseInt (string_or slider ''2'') of
          Some (Fin i) \<Rightarrow>
            if i < 0 then 1 / 4 else if i = 0 then 1 else if i = 1 then 1 / 2 else if i = 2 then 1
            else if i = 3 then 2 else if i = 4 then 4 else 8
        | _ \<Rightarrow> 1)"
    by (rule rasterScale_cases)
qed

lemma build_known_dims:
  assumes "intrinsic_width c s \<noteq> 0" and "intrinsic_height c s \<noteq> 0"
  shows "buildExportableSVGString c s =
     s\<lparr>svg_overlay := None, svg_opacity_style := False, svg_style := None,
       svg_attr_width := Some (of_int (Math_round (intrinsic_width c s))),
       svg_attr_height := Some (of_int (Math_round (intrinsic_height c s))),
       svg_viewBox := Some (0, 0, intrinsic_width c s, intrinsic_height c s),
       svg_preserveAspectRatio := Some ''xMidYMid meet''\<rparr>"
proof -
  let ?s = "s\<lparr>svg_overlay := None, svg_opacity_style := False, svg_style := None\<rparr>"
  have "intrinsic_width c ?s = intrinsic_width c s" "intrinsic_height c ?s = intrinsic_height c s"
    by (simp_all add: intrinsic_width_def intrinsic_height_def viewBox_width_def viewBox_height_def)
  then show ?thesis
    using assms by (simp add: buildExportableSVGString_def Let_def)
qed

lemma fitToContainer_shape:
  "\<exists>sty. fitToContainer c s =
     s\<lparr>svg_style := Some sty, svg_preserveAspectRatio := Some ''xMidYMid meet''\<rparr>"
  by (auto simp: fitToContainer_def Let_def split: prod.splits)

lemma setFixedZoom_shape:
  "\<exists>sty. setFixedZoom c s p =
     s\<lparr>svg_style := Some sty, svg_preserveAspectRatio := Some ''xMidYMid meet''\<rparr>"
  by (auto simp: setFixedZoom_def Let_def)

lemma svg_of_applyZoom_shape:
  assumes "svg_of c = Some s"
  shows "\<exists>sty ov. svg_of (applyZoom c) =
     Some (s\<lparr>svg_style := Some sty, svg_preserveAspectRatio := Some ''xMidYMid meet'',
            svg_overlay := ov\<rparr>)"
proof -
  let ?s' = "if zoomMode c = Fit then fitToContainer c s
             else setFixedZoom c s (percent_or_100 (zoomPercent c))"
  have z: "applyZoom c = updateFrameOutlineAppearance (set_svg ?s' c)"
    using assms by (simp add: applyZoom_def)
  have "svg_of (set_svg ?s' c) = Some ?s'"
    using assms by (rule svg_of_set_svg)
  then obtain ov where ov: "svg_of (applyZoom c) = Some (?s'\<lparr>svg_overlay := ov\<rparr>)"
    unfolding z using svg_of_updateFrameOutlineAppearance by blast
  obtain sty where "?s' = s\<lparr>svg_style := Some sty, svg_preserveAspectRatio := Some ''xMidYMid meet''\<rparr>"
    using fitToContainer_shape [of c s] setFixedZoom_shape [of c s "percent_or_100 (zoomPercent c)"]
    by (cases "zoomMode c = Fit") auto
  then show ?thesis using ov by auto
qed

lemma svg_of_touchRecentIfNeeded: "svg_of (touchRecentIfNeeded now c) = svg_of c"
  by (simp add: touchRecentIfNeeded_def svg_of_def Let_def split: option.splits)

lemma lottieContainer_touchRecentIfNeeded:
  "lottieContainer (touchRecentIfNeeded now c) = lottieContainer c"
  by (simp add: touchRecentIfNeeded_def Let_def split: option.splits)

lemma exportName_core:
  assumes "core a = core b"
  shows "exportName a = exportName b"
  unfolding exportName_def core_fields(1,3,19) [OF assms]
  by (rule refl)

lemma build_core:
  assumes "core a = core b"
  shows "buildExportableSVGString a s = buildExportableSVGString b s"
  unfolding buildExportableSVGString_def intrinsic_width_def intrinsic_height_def
    core_fields(9,10) [OF assms]
  by (rule refl)

lemma downloadCurrentFrame_result:
  assumes "svg_of c = Some s"
  shows "downloadCurrentFrame now decode c =
     (None,
      Some (if string_or (exportFormatSelect c) ''svg'' = ''svg''
            then SvgFile (exportName c) (buildExportableSVGString c s)
            else RasterFile (exportName c)
                   (if string_or (exportFormatSelect c) ''svg'' = ''png'' then ''png'' else ''jpg'')
                   (rasterSize (decode (buildExportableSVGString c s))
                      (rasterScale (rasterScaleSlider c)))
                   (rasterQuality (compressionSlider c))),
      touchRecentIfNeeded now c)"
proof -
  let ?c1 = "touchRecentIfNeeded now c"
  have k: "core ?c1 = core c" by (rule core_touchRecentIfNeeded)
  have cont: "lottieContainer c \<noteq> None"
    using assms by (auto simp: svg_of_def split: option.splits)
  have s1: "svg_of ?c1 = Some s"
    using assms by (simp add: svg_of_touchRecentIfNeeded)
  show ?thesis
    using cont s1 core_fields(16,17,18) [OF k] exportName_core [OF k] build_core [OF k, of s]
    by (auto simp: downloadCurrentFrame_def Let_def)
qed

lemma rasterSize_declared:
  assumes "reads_declared_size decode"
    and "svg_attr_width doc = Some (of_int w)" and "svg_attr_height doc = Some (of_int h)"
  shows "rasterSize (decode doc) k =
     (max 1 (Math_round (max 1 (of_int w) * k)), max 1 (Math_round (max 1 (of_int h) * k)))"
proof -
  have "naturalWidth (decode doc) = of_int w" "naturalHeight (decode doc) = of_int h"
    "img_width (decode doc) = of_int w" "img_height (decode doc) = of_int h"
    using assms by (simp_all add: reads_declared_size_def opt_or0_def)
  then show ?thesis
    by (simp add: rasterSize_def num_or_def Let_def)
qed

lemma export_in_viewport:
  assumes s: "svg_of c = Some s"
  obtains s' where "svg_of (applyZoom (with_viewport m p x y c)) = Some s'"
    and "buildExportableSVGString (applyZoom (with_viewport m p x y c)) s' = buildExportableSVGString c s"
    and "exportName (applyZoom (with_viewport m p x y c)) = exportName c"
proof -
  let ?v = "with_viewport m p x y c"
  have sv: "svg_of ?v = Some s"
    using s by (simp add: with_viewport_def)
  obtain sty ov where s': "svg_of (applyZoom ?v) =
      Some (s\<lparr>svg_style := Some sty, svg_preserveAspectRatio := Some ''xMidYMid meet'',
             svg_overlay := ov\<rparr>)"
    using svg_of_applyZoom_shape [OF sv] by blast
  let ?s' = "s\<lparr>svg_style := Some sty, svg_preserveAspectRatio := Some ''xMidYMid meet'',
             svg_overlay := ov\<rparr>"
  have k: "core (applyZoom ?v) = core ?v" by (rule core_applyZoom)
  have wh: "width ?v = width c" "height ?v = height c"
    by (simp_all add: with_viewport_def)
  have "buildExportableSVGString (applyZoom ?v) ?s' = buildExportableSVGString ?v ?s'"
    by (rule build_core [OF k])
  also have "\<dots> = buildExportableSVGString c s"
    unfolding buildExportableSVGString_def intrinsic_width_def intrinsic_height_def wh
    by (simp add: viewBox_width_def viewBox_height_def Let_def)
  finally have b: "buildExportableSVGString (applyZoom ?v) ?s' = buildExportableSVGString c s" .
  have "exportName (applyZoom ?v) = exportName ?v" by (rule exportName_core [OF k])
  also have "\<dots> = exportName c" by (simp add: exportName_def with_viewport_def Let_def)
  finally have n: "exportName (applyZoom ?v) = exportName c" .
  show thesis using that [OF s' b n] .
qed

lemma sliders_in_viewport:
  "exportFormatSelect (applyZoom (with_viewport m p x y c)) = exportFormatSelect c"
  "rasterScaleSlider (applyZoom (with_viewport m p x y c)) = rasterScaleSlider c"
  "compressionSlider (applyZoom (with_viewport m p x y c)) = compressionSlider c"
  using core_fields(18,16,17) [OF core_applyZoom, of "with_viewport m p x y c"]
  by (simp_all add: with_viewport_def)

lemma whole_product:
  fixes w a :: int and k :: real
  assumes "1 \<le> w" and "1 / 4 \<le> k" and "of_int w * k = of_int a"
  shows "max 1 (Math_round (max 1 (of_int (Math_round (of_int w))) * k)) = a"
proof -
  have "0 < of_int w * k" using assms(1,2) by simp
  then have "0 < a" using assms(3) by simp
  then have a1: "1 \<le> a" by simp
  have "max 1 (of_int (Math_round (of_int w))) = (of_int w :: real)"
    using assms(1) by (simp add: Math_round_of_int)
  then show ?thesis
    using a1 assms(3) by (simp add: Math_round_of_int)
qed

text \<open>
  Claim C2, as the code has it.  With an element rendered and both intrinsic dimensions
  \<open>W\<close> and \<open>H\<close> (the stored width and height, else those of the view box of the element)
  different from zero, in every viewport state (zoom mode, zoom percentage, pan
  offset): the exported document is the one exported from the state as it was before
  the viewport was set; its \<^verbatim>\<open>width\<close> and \<^verbatim>\<open>height\<close> are \<open>W\<close> and \<open>H\<close> rounded to integers and
  its view box is \<^verbatim>\<open>0 0 W H\<close> with the dimensions as they are; the vector export offers
  that document; and, when the browser reports the declared width and height as the
  size of the decoded image, the raster export has
  max(1, round(max(1, round(W)) * scale)) by max(1, round(max(1, round(H)) * scale))
  pixels for the scale chosen by the slider.  That is W * scale by H * scale when \<open>W\<close> and
  \<open>H\<close> are positive whole numbers and both products are whole numbers.
\<close>

theorem export_dimensions:
  assumes "svg_of c = Some s"
    and "intrinsic_width c s \<noteq> 0" and "intrinsic_height c s \<noteq> 0"
    and "cv = applyZoom (with_viewport m p x y c)"
  shows "\<exists>s' doc.
     svg_of cv = Some s' \<and> doc = buildExportableSVGString cv s'
     \<and> doc = buildExportableSVGString c s
     \<and> svg_attr_width doc = Some (of_int (Math_round (intrinsic_width c s)))
     \<and> svg_attr_height doc = Some (of_int (Math_round (intrinsic_height c s)))
     \<and> svg_viewBox doc = Some (0, 0, intrinsic_width c s, intrinsic_height c s)
     \<and> svg_style doc = None \<and> svg_overlay doc = None
     \<and> (string_or (exportFormatSelect c) ''svg'' = ''svg'' \<longrightarrow>
          downloadCurrentFrame now decode cv =
            (None, Some (SvgFile (exportName c) doc), touchRecentIfNeeded now cv))
     \<and> (string_or (exportFormatSelect c) ''svg'' \<noteq> ''svg'' \<and> reads_declared_size decode \<longrightarrow>
          (\<exists>ext q. downloadCurrentFrame now decode cv =
            (None,
             Some (RasterFile (exportName c) ext
                (max 1 (Math_round (max 1 (of_int (Math_round (intrinsic_width c s)))
                                    * rasterScale (rasterScaleSlider c))),
                 max 1 (Math_round (max 1 (of_int (Math_round (intrinsic_height c s)))
                                    * rasterScale (rasterScaleSlider c))))
                q),
             touchRecentIfNeeded now cv)))
     \<and> (intrinsic_width c s = of_int w \<and> intrinsic_height c s = of_int h \<and> 1 \<le> w \<and> 1 \<le> h
          \<and> of_int w * rasterScale (rasterScaleSlider c) = of_int a
          \<and> of_int h * rasterScale (rasterScaleSlider c) = of_int b \<longrightarrow>
          max 1 (Math_round (max 1 (of_int (Math_round (intrinsic_width c s)))
                             * rasterScale (rasterScaleSlider c))) = a
          \<and> max 1 (Math_round (max 1 (of_int (Math_round (intrinsic_height c s)))
                               * rasterScale (rasterScaleSlider c))) = b)"
proof -
  let ?W = "intrinsic_width c s" and ?H = "intrinsic_height c s"
  let ?k = "rasterScale (rasterScaleSlider c)"
  obtain s' where s': "svg_of cv = Some s'"
    and b: "buildExportableSVGString cv s' = buildExportableSVGString c s"
    and n: "exportName cv = exportName c"
    using export_in_viewport [OF assms(1), of m p x y] assms(4) by blast
  let ?doc = "buildExportableSVGString c s"
  have doc: "?doc =
     s\<lparr>svg_overlay := None, svg_opacity_style := False, svg_style := None,
       svg_attr_width := Some (of_int (Math_round ?W)),
       svg_attr_height := Some (of_int (Math_round ?H)),
       svg_viewBox := Some (0, 0, ?W, ?H),
       svg_preserveAspectRatio := Some ''xMidYMid meet''\<rparr>"
    by (rule build_known_dims [OF assms(2,3)])
  have attrs: "svg_attr_width ?doc = Some (of_int (Math_round ?W))"
    "svg_attr_height ?doc = Some (of_int (Math_round ?H))"
    "svg_viewBox ?doc = Some (0, 0, ?W, ?H)" "svg_style ?doc = None" "svg_overlay ?doc = None"
    unfolding doc by simp_all
  have size: "reads_declared_size decode \<Longrightarrow> rasterSize (decode ?doc) ?k =
      (max 1 (Math_round (max 1 (of_int (Math_round ?W)) * ?k)),
       max 1 (Math_round (max 1 (of_int (Math_round ?H)) * ?k)))"
    by (rule rasterSize_declared [OF _ attrs(1,2)])
  have dl: "downloadCurrentFrame now decode cv =
     (None,
      Some (if string_or (exportFormatSelect c) ''svg'' = ''svg''
            then SvgFile (exportName c) ?doc
            else RasterFile (exportName c)
                   (if string_or (exportFormatSelect c) ''svg'' = ''png'' then ''png'' else ''jpg'')
                   (rasterSize (decode ?doc) ?k)
                   (rasterQuality (compressionSlider c))),
      touchRecentIfNeeded now cv)"
    using downloadCurrentFrame_result [OF s', of now decode] b n
      sliders_in_viewport [of m p x y c] assms(4)
    by simp
  have ints: "?W = of_int w \<and> ?H = of_int h \<and> 1 \<le> w \<and> 1 \<le> h
          \<and> of_int w * ?k = of_int a \<and> of_int h * ?k = of_int b \<longrightarrow>
          max 1 (Math_round (max 1 (of_int (Math_round ?W)) * ?k)) = a
          \<and> max 1 (Math_round (max 1 (of_int (Math_round ?H)) * ?k)) = b"
  proof
    assume a: "?W = of_int w \<and> ?H = of_int h \<and> 1 \<le> w \<and> 1 \<le> h
          \<and> of_int w * ?k = of_int a \<and> of_int h * ?k = of_int b"
    have "max 1 (Math_round (max 1 (of_int (Math_round (of_int w))) * ?k)) = a"
      using a by (intro whole_product rasterScale_positive) simp_all
    moreover have "max 1 (Math_round (max 1 (of_int (Math_round (of_int h))) * ?k)) = b"
      using a by (intro whole_product rasterScale_positive) simp_all
    ultimately show "max 1 (Math_round (max 1 (of_int (Math_round ?W)) * ?k)) = a
          \<and> max 1 (Math_round (max 1 (of_int (Math_round ?H)) * ?k)) = b"
      using a by simp
  qed
  have svgc: "string_or (exportFormatSelect c) ''svg'' = ''svg'' \<longrightarrow>
      downloadCurrentFrame now decode cv =
        (None, Some (SvgFile (exportName c) ?doc), touchRecentIfNeeded now cv)"
    using dl by simp
  have rasc: "string_or (exportFormatSelect c) ''svg'' \<noteq> ''svg'' \<and> reads_declared_size decode \<longrightarrow>
      (\<exists>ext q. downloadCurrentFrame now decode cv =
        (None,
         Some (RasterFile (exportName c) ext
            (max 1 (Math_round (max 1 (of_int (Math_round ?W)) * ?k)),
             max 1 (Math_round (max 1 (of_int (Math_round ?H)) * ?k)))
            q),
         touchRecentIfNeeded now cv))"
    using dl size by auto
  show ?thesis
    using s' b attrs svgc rasc ints by (intro exI [of _ s'] exI [of _ ?doc]) simp
qed

lemma declared_size_image_reads: "reads_declared_size declared_size_image"
  by (simp add: reads_declared_size_def declared_size_image_def)

lemma parseInt_digit: "parseInt ''3'' = Some (Fin 3)" "parseInt ''1'' = Some (Fin 1)"
  by (simp_all add: parseInt_def strip_white_none white_len_digit digit_of_def parse_digits_def
      to_double_def)

lemma example_scales:
  "rasterScale (rasterScaleSlider example_png_2x) = 2"
  "rasterScale (rasterScaleSlider fraction_half) = 1 / 2"
  by (simp_all add: rasterScale_cases example_png_2x_def fraction_half_def fraction_loaded_def
      example_loaded_def string_or_def parseInt_digit)

lemma Math_round_numeral [simp]: "Math_round (numeral n) = numeral n"
  using Math_round_of_int [of "numeral n"] by simp

lemma Math_round_fractions:
  "Math_round (201 / 2) = 101" "Math_round (121 / 2) = 61"
  "Math_round (101 / 2) = 51" "Math_round (61 / 2) = 31"
  by (simp_all add: Math_round_def floor_eq_iff)

lemma fraction_half_dims:
  "svg_of fraction_half = Some fraction_shown"
  "intrinsic_width fraction_half fraction_shown = 201 / 2"
  "intrinsic_height fraction_half fraction_shown = 121 / 2"
  by (simp_all add: svg_of_def fraction_half_def fraction_loaded_def intrinsic_width_def
      intrinsic_height_def opt_or0_def num_or_def)

text \<open>
  Claim C2 as stated fails for an asset whose dimensions are not whole numbers: a 100.5
  by 60.5 animation is exported as a document of width 101 and height 61, and as PNG
  at 0.5x as an image of 51 by 31 pixels, where the intrinsic size times the scale
  is 50.25 by 30.25 (rounded, 50 by 30).
\<close>

theorem export_size_is_rounded:
  "(\<exists>ext q c'. downloadCurrentFrame 3 declared_size_image fraction_half =
       (None, Some (RasterFile (FrameOf ''a'' 0) ext (51, 31) q), c'))
   \<and> svg_attr_width (buildExportableSVGString fraction_half fraction_shown) = Some 101
   \<and> svg_attr_height (buildExportableSVGString fraction_half fraction_shown) = Some 61
   \<and> svg_of fraction_half = Some fraction_shown
   \<and> intrinsic_width fraction_half fraction_shown = 201 / 2
   \<and> intrinsic_height fraction_half fraction_shown = 121 / 2
   \<and> rasterScale (rasterScaleSlider fraction_half) = 1 / 2
   \<and> Math_round (201 / 2 * (1 / 2)) = 50 \<and> Math_round (121 / 2 * (1 / 2)) = 30
   \<and> fraction_half =
       (onDOMLoaded 2 (snd (handleFile 1 fraction_file initial)))
         \<lparr>exportFormatSelect := Some ''png'', rasterScaleSlider := Some ''1''\<rparr>"
proof -
  note d = fraction_half_dims
  let ?doc = "buildExportableSVGString fraction_half fraction_shown"
  have bk: "?doc =
     fraction_shown\<lparr>svg_overlay := None, svg_opacity_style := False, svg_style := None,
       svg_attr_width := Some (of_int (Math_round (intrinsic_width fraction_half fraction_shown))),
       svg_attr_height := Some (of_int (Math_round (intrinsic_height fraction_half fraction_shown))),
       svg_viewBox := Some (0, 0, intrinsic_width fraction_half fraction_shown,
                            intrinsic_height fraction_half fraction_shown),
       svg_preserveAspectRatio := Some ''xMidYMid meet''\<rparr>"
    by (rule build_known_dims) (simp_all add: d)
  have doc: "svg_attr_width ?doc = Some (of_int 101)" "svg_attr_height ?doc = Some (of_int 61)"
    unfolding bk by (simp_all add: d Math_round_fractions)
  have attrs: "svg_attr_width ?doc = Some 101" "svg_attr_height ?doc = Some 61"
    using doc by simp_all
  have r: "Math_round (201 / 2 * (1 / 2)) = 50" "Math_round (121 / 2 * (1 / 2)) = 30"
    by (simp_all add: Math_round_def floor_eq_iff)
  have "rasterSize (declared_size_image ?doc) (1 / 2) =
      (max 1 (Math_round (max 1 (of_int 101) * (1 / 2))), max 1 (Math_round (max 1 (of_int 61) * (1 / 2))))"
    by (rule rasterSize_declared [OF declared_size_image_reads doc])
  then have size: "rasterSize (declared_size_image ?doc) (1 / 2) = (51, 31)"
    by (simp add: Math_round_fractions)
  have fmt: "string_or (exportFormatSelect fraction_half) ''svg'' = ''png''"
    by (simp add: fraction_half_def string_or_def)
  have name: "exportName fraction_half = FrameOf ''a'' 0"
    by (simp add: exportName_def fraction_half_def fraction_loaded_def example_loaded_def
        string_or_def)
  have dl: "\<exists>ext q c'. downloadCurrentFrame 3 declared_size_image fraction_half =
       (None, Some (RasterFile (FrameOf ''a'' 0) ext (51, 31) q), c')"
    using downloadCurrentFrame_result [OF d(1), of 3 declared_size_image] size fmt name
    by (simp add: example_scales)
  have reached: "fraction_half =
       (onDOMLoaded 2 (snd (handleFile 1 fraction_file initial)))
         \<lparr>exportFormatSelect := Some ''png'', rasterScaleSlider := Some ''1''\<rparr>"
    unfolding fraction_loaded_reached by (rule fraction_half_def)
  show ?thesis
    by (intro conjI) (rule dl attrs d example_scales r reached)+
qed

lemma example_dims:
  "intrinsic_width example_png_2x s = 800" "intrinsic_height example_png_2x s = 600"
  "intrinsic_width example_loaded s = 800" "intrinsic_height example_loaded s = 600"
  by (simp_all add: example_png_2x_def example_loaded_def intrinsic_width_def intrinsic_height_def
      opt_or0_def num_or_def)

text \<open>The theorem of claim C2 at the example, 800 by 600, while the view is in fixed mode
  at 200 per cent and panned by (30, -10): PNG at 2x has 1600 by 1200 pixels, and the
  vector export offers a document of width 800 and height 600.\<close>

theorem export_dimensions_witness:
  "svg_of example_png_2x = svg_of example_loaded \<and> svg_of example_loaded \<noteq> None
   \<and> (\<forall>s. intrinsic_width example_png_2x s = 800 \<and> intrinsic_height example_png_2x s = 600
         \<and> intrinsic_width example_loaded s = 800 \<and> intrinsic_height example_loaded s = 600)
   \<and> reads_declared_size declared_size_image
   \<and> string_or (exportFormatSelect example_png_2x) ''svg'' \<noteq> ''svg''
   \<and> rasterScale (rasterScaleSlider example_png_2x) = 2
   \<and> (\<exists>ext q c'. downloadCurrentFrame 3 declared_size_image
          (applyZoom (with_viewport Fixed (Fin 200) 30 (- 10) example_png_2x)) =
        (None, Some (RasterFile (FrameOf ''a'' 0) ext (1600, 1200) q), c'))
   \<and> string_or (exportFormatSelect example_loaded) ''svg'' = ''svg''
   \<and> (\<exists>doc c'. downloadCurrentFrame 3 declared_size_image
          (applyZoom (with_viewport Fixed (Fin 200) 30 (- 10) example_loaded)) =
        (None, Some (SvgFile (FrameOf ''a'' 0) doc), c')
        \<and> svg_attr_width doc = Some 800 \<and> svg_attr_height doc = Some 600
        \<and> svg_viewBox doc = Some (0, 0, 800, 600))"
proof -
  obtain s where s: "svg_of example_png_2x = Some s"
    by (simp add: svg_of_def example_png_2x_def example_loaded_def)
  have s0: "svg_of example_png_2x = svg_of example_loaded"
    by (simp add: svg_of_def example_png_2x_def)
  have s1: "svg_of example_loaded = Some s" using s s0 by simp
  have nz: "intrinsic_width example_png_2x s \<noteq> 0" "intrinsic_height example_png_2x s \<noteq> 0"
    "intrinsic_width example_loaded s \<noteq> 0" "intrinsic_height example_loaded s \<noteq> 0"
    by (simp_all add: example_dims)
  have fmt: "string_or (exportFormatSelect example_png_2x) ''svg'' \<noteq> ''svg''"
    "string_or (exportFormatSelect example_loaded) ''svg'' = ''svg''"
    by (simp_all add: example_png_2x_def example_loaded_def string_or_def)
  have name: "exportName example_png_2x = FrameOf ''a'' 0" "exportName example_loaded = FrameOf ''a'' 0"
    by (simp_all add: exportName_def example_png_2x_def example_loaded_def string_or_def)
  note th = export_dimensions [OF s nz(1,2) refl,
      where m = Fixed and p = "Fin 200" and x = 30 and y = "- 10" and now = 3
        and decode = declared_size_image and w = 800 and h = 600 and a = 1600 and b = 1200]
  note th' = export_dimensions [OF s1 nz(3,4) refl,
      where m = Fixed and p = "Fin 200" and x = 30 and y = "- 10" and now = 3
        and decode = declared_size_image]
  let ?cv = "applyZoom (with_viewport Fixed (Fin 200) 30 (- 10) example_png_2x)"
  let ?cw = "applyZoom (with_viewport Fixed (Fin 200) 30 (- 10) example_loaded)"
  from th fmt(1) declared_size_image_reads obtain ext q where
    "downloadCurrentFrame 3 declared_size_image ?cv =
       (None,
        Some (RasterFile (exportName example_png_2x) ext
           (max 1 (Math_round (max 1 (of_int (Math_round (intrinsic_width example_png_2x s)))
                               * rasterScale (rasterScaleSlider example_png_2x))),
            max 1 (Math_round (max 1 (of_int (Math_round (intrinsic_height example_png_2x s)))
                               * rasterScale (rasterScaleSlider example_png_2x))))
           q),
        touchRecentIfNeeded 3 ?cv)"
    by blast
  then have "downloadCurrentFrame 3 declared_size_image ?cv =
       (None, Some (RasterFile (FrameOf ''a'' 0) ext (1600, 1200) q), touchRecentIfNeeded 3 ?cv)"
    by (simp add: name example_scales example_dims)
  then have r: "\<exists>ext q c'. downloadCurrentFrame 3 declared_size_image ?cv =
       (None, Some (RasterFile (FrameOf ''a'' 0) ext (1600, 1200) q), c')"
    by blast
  from th' fmt(2) obtain doc where
    "downloadCurrentFrame 3 declared_size_image ?cw =
       (None, Some (SvgFile (exportName example_loaded) doc), touchRecentIfNeeded 3 ?cw)"
    "svg_attr_width doc = Some (of_int (Math_round (intrinsic_width example_loaded s)))"
    "svg_attr_height doc = Some (of_int (Math_round (intrinsic_height example_loaded s)))"
    "svg_viewBox doc = Some (0, 0, intrinsic_width example_loaded s, intrinsic_height example_loaded s)"
    by blast
  then have v: "\<exists>doc c'. downloadCurrentFrame 3 declared_size_image ?cw =
        (None, Some (SvgFile (FrameOf ''a'' 0) doc), c')
        \<and> svg_attr_width doc = Some 800 \<and> svg_attr_height doc = Some 600
        \<and> svg_viewBox doc = Some (0, 0, 800, 600)"
    by (simp add: name example_dims)
  show ?thesis
    using s s0 fmt declared_size_image_reads r v
    by (simp add: example_dims example_scales)
qed

end
